theory Spec2Isabelle
  imports Complex_Main "HOL-Library.Word"
begin

section \<open>Hierarchical evaluation (CoPHE): a shallow embedding\<close>

text \<open>
  The two Python modules \<^verbatim>\<open>scripts/evaluation_setup.py\<close> and
  \<^verbatim>\<open>scripts/multi_level_eval.py\<close> are translated function by function.
  Every exception the Python can raise is a value of \<open>error\<close>; a function that can
  raise returns \<open>error + 'a\<close> with \<open>Inl\<close> for the exception.
  \<open>KeyError\<close> and \<open>IndexError\<close> are Python's two \<open>LookupError\<close>s.
\<close>

datatype error = KeyError | IndexError | ValueError | TypeError

definition is_LookupError :: "error \<Rightarrow> bool" where
  "is_LookupError e = (e = KeyError \<or> e = IndexError)"

subsection \<open>Dictionaries, lists and sets of Python\<close>

text \<open>
  A code is a string. A dictionary that the code iterates over is an association list in
  insertion order (its keys are pairwise distinct, as a Python \<open>dict\<close>'s are);
  \<open>d[k]\<close> raises \<open>KeyError\<close> on a missing key. The ontology dictionary is only
  looked up, so it is a map; each of its values is again a dictionary, of which the code
  reads the key \<open>"parents"\<close>.
\<close>

type_synonym code = string

type_synonym translation_dict = "code \<rightharpoonup> (string \<rightharpoonup> code list)"

definition dict_get :: "('k \<times> 'v) list \<Rightarrow> 'k \<Rightarrow> error + 'v" where
  "dict_get d k = (case map_of d k of None \<Rightarrow> Inl KeyError | Some v \<Rightarrow> Inr v)"

text \<open>\<open>xs[i]\<close> for an index \<open>i \<ge> 0\<close> (every index of the source comes from \<open>range\<close>).\<close>

definition list_get :: "'a list \<Rightarrow> nat \<Rightarrow> error + 'a" where
  "list_get xs i = (if i < length xs then Inr (xs ! i) else Inl IndexError)"

text \<open>\<open>translation_dict[code]["parents"][layer]\<close>\<close>

definition parent_at :: "translation_dict \<Rightarrow> code \<Rightarrow> nat \<Rightarrow> error + code" where
  "parent_at translation_dict c layer =
     (case translation_dict c of
        None \<Rightarrow> Inl KeyError
      | Some item \<Rightarrow>
          (case item ''parents'' of
             None \<Rightarrow> Inl KeyError
           | Some parents \<Rightarrow> list_get parents layer))"

text \<open>
  A Python \<open>set\<close> is kept as the list of its elements in the order they were first
  added. The order in which \<open>list(layer_codeset)\<close> enumerates a set of strings
  depends on their hashes, so the enumeration is a parameter \<open>enum\<close> of the model,
  applied to the elements; \<open>set_enumeration enum\<close> says what every enumeration of a
  set satisfies: each element once.
\<close>

definition set_add :: "'a list \<Rightarrow> 'a \<Rightarrow> 'a list" where
  "set_add s x = (if x \<in> set s then s else s @ [x])"

definition set_enumeration :: "(code list \<Rightarrow> code list) \<Rightarrow> bool" where
  "set_enumeration enum = (\<forall>s. distinct s \<longrightarrow> distinct (enum s) \<and> set (enum s) = set s)"

subsection \<open>Sparse matrices\<close>

text \<open>
  \<open>csr_matrix((vals, (rows, cols)), shape=(m, n))\<close> of scipy: the constructor takes
  coordinate triples and raises \<open>ValueError\<close> when a row or column index is negative
  or not below the shape. The model keeps the triples (row, column, value) in the order
  given, and the dtype that numpy infers from \<open>vals\<close>: \<open>boolean\<close> is true for a
  list of Python Booleans (kept as the integers 1 and 0) and false for a list of
  integers. Where a coordinate \<open>(i, j)\<close> is given more than once, scipy adds the
  values given for it; in a Boolean matrix the sum is the disjunction.
\<close>

record csr_matrix =
  shape :: "nat \<times> nat"
  coo :: "(int \<times> nat \<times> int) list"
  boolean :: bool

definition index_in_range :: "nat \<times> nat \<Rightarrow> int \<times> nat \<times> int \<Rightarrow> bool" where
  "index_in_range sh t = (case t of (r, c, v) \<Rightarrow> 0 \<le> r \<and> r < int (fst sh) \<and> c < snd sh)"

definition new_csr_matrix :: "(int \<times> nat \<times> int) list \<Rightarrow> nat \<times> nat \<Rightarrow> bool \<Rightarrow> error + csr_matrix" where
  "new_csr_matrix triples sh vals_are_bool =
     (if list_all (index_in_range sh) triples
      then Inr \<lparr>shape = sh, coo = triples, boolean = vals_are_bool\<rparr>
      else Inl ValueError)"

text \<open>The values given for the coordinate \<open>(i, j)\<close>, and the entry of the matrix there.\<close>

definition csr_values_at :: "csr_matrix \<Rightarrow> nat \<Rightarrow> nat \<Rightarrow> int list" where
  "csr_values_at m i j = map (\<lambda>(r, c, v). v) (filter (\<lambda>(r, c, v). r = int i \<and> c = j) (coo m))"

definition csr_at :: "csr_matrix \<Rightarrow> nat \<Rightarrow> nat \<Rightarrow> int" where
  "csr_at m i j =
     (if boolean m then (if list_ex (\<lambda>v. v \<noteq> 0) (csr_values_at m i j) then 1 else 0)
      else sum_list (csr_values_at m i j))"

text \<open>The sum of row \<open>i\<close> of the matrix (a Boolean entry counts as 1 or 0).\<close>

definition csr_row_sum :: "csr_matrix \<Rightarrow> nat \<Rightarrow> int" where
  "csr_row_sum m i = sum_list (map (csr_at m i) [0..<snd (shape m)])"

subsection \<open>\<open>setup_matrices_by_layer\<close>\<close>

text \<open>
  The first inner loop (source lines 21-22): the set of the leaves' ancestors at \<open>layer\<close>.
\<close>

fun collect_codeset :: "translation_dict \<Rightarrow> nat \<Rightarrow> code list \<Rightarrow> code list \<Rightarrow> error + code list" where
  "collect_codeset translation_dict layer [] layer_codeset = Inr layer_codeset"
| "collect_codeset translation_dict layer (c # cs) layer_codeset =
     (case parent_at translation_dict c layer of
        Inl e \<Rightarrow> Inl e
      | Inr ancestor \<Rightarrow> collect_codeset translation_dict layer cs (set_add layer_codeset ancestor))"

text \<open>
  The value appended to \<open>vals\<close> (source lines 31-36). In the \<open>else\<close> branch Python
  reads \<open>not(duplicate_ancestor)*1\<close> as \<open>not (duplicate_ancestor * 1)\<close>, the
  Boolean \<open>not duplicate_ancestor\<close>; a Boolean is the integer 1 or 0 in a matrix.
\<close>

definition edge_value :: "translation_dict \<Rightarrow> int \<Rightarrow> bool \<Rightarrow> nat \<Rightarrow> code \<Rightarrow> code \<Rightarrow> error + int" where
  "edge_value translation_dict max_layer include_duplicates layer c ancestor =
     (if include_duplicates \<or> int layer = max_layer - 2 then Inr 1
      else (case parent_at translation_dict ancestor layer of
              Inl e \<Rightarrow> Inl e
            | Inr double_ancestor \<Rightarrow>
                (let duplicate_ancestor = (double_ancestor = c)
                 in Inr (if \<not> duplicate_ancestor then 1 else 0))))"

text \<open>
  The second inner loop (source lines 27-36). The three lists \<open>rows\<close>, \<open>cols\<close>,
  \<open>vals\<close> grow together, one element each per leaf; the model keeps them as one list of
  triples.
\<close>

fun fill_triples :: "(code \<times> int) list \<Rightarrow> translation_dict \<Rightarrow> int \<Rightarrow> bool \<Rightarrow> nat \<Rightarrow>
    (code \<times> nat) list \<Rightarrow> code list \<Rightarrow> error + (int \<times> nat \<times> int) list" where
  "fill_triples code_ids translation_dict max_layer include_duplicates layer layer_id_dict [] = Inr []"
| "fill_triples code_ids translation_dict max_layer include_duplicates layer layer_id_dict (c # cs) =
     (case dict_get code_ids c of
        Inl e \<Rightarrow> Inl e
      | Inr row \<Rightarrow>
     (case parent_at translation_dict c layer of
        Inl e \<Rightarrow> Inl e
      | Inr ancestor \<Rightarrow>
     (case dict_get layer_id_dict ancestor of
        Inl e \<Rightarrow> Inl e
      | Inr col \<Rightarrow>
     (case edge_value translation_dict max_layer include_duplicates layer c ancestor of
        Inl e \<Rightarrow> Inl e
      | Inr val \<Rightarrow>
     (case fill_triples code_ids translation_dict max_layer include_duplicates layer layer_id_dict cs of
        Inl e \<Rightarrow> Inl e
      | Inr rest \<Rightarrow> Inr ((row, col, val) # rest))))))"

text \<open>
  One pass of the outer loop (source lines 19-41): the matrix and the dictionary of one
  layer. The dictionary is \<open>dict(zip(list(layer_codeset), layer_ranges))\<close>: its keys are
  the ancestor codes, its values the indices. Every value of \<open>vals\<close> comes from the
  same branch of the \<open>if\<close> on line 31, whose condition does not depend on the leaf:
  the integer 1 of the first branch, or the Boolean of the \<open>else\<close> branch. (With no
  leaf at all \<open>vals\<close> is empty and the matrix has no entry, whatever its dtype.)
\<close>

definition layer_step :: "(code list \<Rightarrow> code list) \<Rightarrow> (code \<times> int) list \<Rightarrow> translation_dict \<Rightarrow>
    int \<Rightarrow> bool \<Rightarrow> nat \<Rightarrow> error + (csr_matrix \<times> (code \<times> nat) list)" where
  "layer_step enum code_ids translation_dict max_layer include_duplicates layer =
     (case collect_codeset translation_dict layer (map fst code_ids) [] of
        Inl e \<Rightarrow> Inl e
      | Inr layer_codeset \<Rightarrow>
          (let layer_ranges = [0..<length layer_codeset];
               layer_id_dict = zip (enum layer_codeset) layer_ranges
           in (case fill_triples code_ids translation_dict max_layer include_duplicates layer
                      layer_id_dict (map fst code_ids) of
                 Inl e \<Rightarrow> Inl e
               | Inr triples \<Rightarrow>
                   (case new_csr_matrix triples
                           (length triples, length (remdups (map (\<lambda>(r, c, v). c) triples)))
                           (\<not> (include_duplicates \<or> int layer = max_layer - 2)) of
                      Inl e \<Rightarrow> Inl e
                    | Inr matrix \<Rightarrow> Inr (matrix, layer_id_dict)))))"

fun layers_loop :: "(code list \<Rightarrow> code list) \<Rightarrow> (code \<times> int) list \<Rightarrow> translation_dict \<Rightarrow>
    int \<Rightarrow> bool \<Rightarrow> nat list \<Rightarrow> error + (csr_matrix list \<times> (code \<times> nat) list list)" where
  "layers_loop enum code_ids translation_dict max_layer include_duplicates [] = Inr ([], [])"
| "layers_loop enum code_ids translation_dict max_layer include_duplicates (layer # layers) =
     (case layer_step enum code_ids translation_dict max_layer include_duplicates layer of
        Inl e \<Rightarrow> Inl e
      | Inr (matrix, layer_id_dict) \<Rightarrow>
          (case layers_loop enum code_ids translation_dict max_layer include_duplicates layers of
             Inl e \<Rightarrow> Inl e
           | Inr (matrices, layer_id_dicts) \<Rightarrow> Inr (matrix # matrices, layer_id_dict # layer_id_dicts)))"

definition setup_matrices_by_layer :: "(code list \<Rightarrow> code list) \<Rightarrow> (code \<times> int) list \<Rightarrow>
    translation_dict \<Rightarrow> int \<Rightarrow> bool \<Rightarrow> error + (csr_matrix list \<times> (code \<times> nat) list list)" where
  "setup_matrices_by_layer enum code_ids translation_dict max_layer include_duplicates =
     layers_loop enum code_ids translation_dict max_layer include_duplicates [0..<nat max_layer]"

subsection \<open>Dense arrays of numpy\<close>

text \<open>
  A two-dimensional \<open>ndarray\<close> of dtype \<open>int64\<close> with its shape (an array with no
  rows still has a column count). \<open>int64\<close> is the dtype numpy gives an array built
  from Python integers, as the matrices of the repository are (source lines 102-126 of
  \<^verbatim>\<open>evaluation_setup.py\<close>, 225-242 of \<^verbatim>\<open>multi_level_eval.py\<close>), and the dtype of
  \<open>(x > 0) * 1\<close> and of the products with the layer matrices. An entry is a 64-bit
  word: \<open>+\<close>, \<open>-\<close> and \<open>*\<close> wrap around as numpy's do, and \<open>sint\<close> is the
  integer the entry stands for. \<open>well_shaped\<close> holds of every array numpy can build.
\<close>

type_synonym int64 = "64 word"

record ndarray =
  nrows :: nat
  ncols :: nat
  elems :: "int64 list list"

definition well_shaped :: "ndarray \<Rightarrow> bool" where
  "well_shaped a = (length (elems a) = nrows a \<and> list_all (\<lambda>r. length r = ncols a) (elems a))"

text \<open>
  An elementwise binary operation of numpy on two 2-D arrays: a dimension of size 1 is
  stretched to the other array's size (broadcasting), and shapes that cannot be made
  equal raise \<open>ValueError\<close>.
\<close>

definition broadcast_dim :: "nat \<Rightarrow> nat \<Rightarrow> nat option" where
  "broadcast_dim m n =
     (if m = n then Some m else if m = 1 then Some n else if n = 1 then Some m else None)"

definition broadcast_to :: "nat \<Rightarrow> nat \<Rightarrow> ndarray \<Rightarrow> int64 list list" where
  "broadcast_to d n a =
     (let rs = (if ncols a = n then elems a else map (\<lambda>r. replicate n (hd r)) (elems a))
      in if nrows a = d then rs else replicate d (hd rs))"

definition np_binary :: "(int64 \<Rightarrow> int64 \<Rightarrow> int64) \<Rightarrow> ndarray \<Rightarrow> ndarray \<Rightarrow> error + ndarray" where
  "np_binary f a b =
     (case broadcast_dim (nrows a) (nrows b) of
        None \<Rightarrow> Inl ValueError
      | Some d \<Rightarrow>
          (case broadcast_dim (ncols a) (ncols b) of
             None \<Rightarrow> Inl ValueError
           | Some n \<Rightarrow>
               Inr \<lparr>nrows = d, ncols = n,
                    elems = map2 (map2 f) (broadcast_to d n a) (broadcast_to d n b)\<rparr>))"

text \<open>An elementwise operation with a scalar, as in \<open>np.maximum(x, 0)\<close> and \<open>(x > 0) * 1\<close>.\<close>

definition np_unary :: "(int64 \<Rightarrow> int64) \<Rightarrow> ndarray \<Rightarrow> ndarray" where
  "np_unary f a = a\<lparr>elems := map (map f) (elems a)\<rparr>"

text \<open>\<open>np.minimum\<close> and \<open>np.maximum\<close> of two \<open>int64\<close> values compare them as signed integers.\<close>

definition minimum64 :: "int64 \<Rightarrow> int64 \<Rightarrow> int64" where
  "minimum64 x y = (if sint x \<le> sint y then x else y)"

definition maximum64 :: "int64 \<Rightarrow> int64 \<Rightarrow> int64" where
  "maximum64 x y = (if sint x \<le> sint y then y else x)"

text \<open>
  The result of a reduction or of arithmetic on reductions is a scalar or a 1-D array.
  The vectors the source combines elementwise come from the same pair of matrices and
  have the same length.
\<close>

datatype 'a npval = Scalar 'a | Vector "'a list"

fun np_map :: "('a \<Rightarrow> 'b) \<Rightarrow> 'a npval \<Rightarrow> 'b npval" where
  "np_map f (Scalar x) = Scalar (f x)"
| "np_map f (Vector xs) = Vector (map f xs)"

fun np_map2 :: "('a \<Rightarrow> 'b \<Rightarrow> 'c) \<Rightarrow> 'a npval \<Rightarrow> 'b npval \<Rightarrow> 'c npval" where
  "np_map2 f (Scalar x) (Scalar y) = Scalar (f x y)"
| "np_map2 f (Scalar x) (Vector ys) = Vector (map (f x) ys)"
| "np_map2 f (Vector xs) (Scalar y) = Vector (map (\<lambda>x. f x y) xs)"
| "np_map2 f (Vector xs) (Vector ys) = Vector (map2 f xs ys)"

text \<open>Iterating (as \<open>zip\<close> does) over a 1-D array gives its elements; a scalar is not iterable.\<close>

fun np_iter :: "'a npval \<Rightarrow> error + 'a list" where
  "np_iter (Scalar x) = Inl TypeError"
| "np_iter (Vector xs) = Inr xs"

text \<open>
  \<open>np.sum(a, axis=axes)\<close> for the axis arguments of a 2-D array: \<open>0\<close> sums each
  column, \<open>1\<close> each row, \<open>(0, 1)\<close> everything. The other reducing arguments
  numpy accepts for a 2-D array are other spellings of these three (\<open>-2\<close>, \<open>-1\<close>,
  \<open>None\<close>, \<open>(1, 0)\<close>). The sum of \<open>int64\<close> entries is an \<open>int64\<close>: it wraps
  around.
\<close>

datatype axes = Axis0 | Axis1 | Axes01

fun np_sum :: "ndarray \<Rightarrow> axes \<Rightarrow> int64 npval" where
  "np_sum a Axis0 = Vector (foldr (map2 (+)) (elems a) (replicate (ncols a) 0))"
| "np_sum a Axis1 = Vector (map sum_list (elems a))"
| "np_sum a Axes01 = Scalar (sum_list (map sum_list (elems a)))"

text \<open>
  Floating-point values are modelled as exact reals, and \<open>None\<close> stands for a value
  that is not finite (\<open>nan\<close>, \<open>inf\<close>, \<open>-inf\<close>): numpy's division by zero gives one
  (with a warning, not an exception), the mean of no numbers is \<open>nan\<close>, and in every
  expression of the source an operand that is not finite makes the result not finite.
  Rounding is not modelled.
\<close>

type_synonym npfloat = "real option"

definition true_divide :: "int64 \<Rightarrow> int64 \<Rightarrow> npfloat" where
  "true_divide a b = (if b = 0 then None else Some (real_of_int (sint a) / real_of_int (sint b)))"

definition fdivide :: "npfloat \<Rightarrow> npfloat \<Rightarrow> npfloat" where
  "fdivide x y =
     (case x of None \<Rightarrow> None
      | Some a \<Rightarrow> (case y of None \<Rightarrow> None | Some b \<Rightarrow> if b = 0 then None else Some (a / b)))"

definition fadd :: "npfloat \<Rightarrow> npfloat \<Rightarrow> npfloat" where
  "fadd x y = (case x of None \<Rightarrow> None | Some a \<Rightarrow> (case y of None \<Rightarrow> None | Some b \<Rightarrow> Some (a + b)))"

definition fmul :: "npfloat \<Rightarrow> npfloat \<Rightarrow> npfloat" where
  "fmul x y = (case x of None \<Rightarrow> None | Some a \<Rightarrow> (case y of None \<Rightarrow> None | Some b \<Rightarrow> Some (a * b)))"

text \<open>\<open>(x == 0) * 1\<close> on an integer and on a float, and \<open>x + (x == 0) * 1\<close>.\<close>

definition eq0 :: "int64 \<Rightarrow> int64" where
  "eq0 d = (if d = 0 then 1 else 0)"

definition feq0 :: "npfloat \<Rightarrow> int" where
  "feq0 x = (case x of None \<Rightarrow> 0 | Some a \<Rightarrow> if a = 0 then 1 else 0)"

definition fadd_int :: "npfloat \<Rightarrow> int \<Rightarrow> npfloat" where
  "fadd_int x k = fadd x (Some (real_of_int k))"

text \<open>\<open>np.average(v, axis=0)\<close> of a 1-D array; a scalar has no axis 0.\<close>

definition fsum :: "npfloat list \<Rightarrow> npfloat" where
  "fsum xs = foldr fadd xs (Some 0)"

fun np_average :: "npfloat npval \<Rightarrow> error + npfloat npval" where
  "np_average (Scalar x) = Inl ValueError"
| "np_average (Vector xs) =
     Inr (Scalar (if xs = [] then None else fdivide (fsum xs) (Some (real (length xs)))))"

subsection \<open>\<open>multi_level_eval.py\<close>: counts of true and false positives and negatives\<close>

definition tp_matrix_mul :: "ndarray \<Rightarrow> ndarray \<Rightarrow> axes \<Rightarrow> error + int64 npval" where
  "tp_matrix_mul pred gold ax =
     (case np_binary minimum64 pred gold of Inl e \<Rightarrow> Inl e | Inr m \<Rightarrow> Inr (np_sum m ax))"

definition fp_matrix_mul :: "ndarray \<Rightarrow> ndarray \<Rightarrow> axes \<Rightarrow> error + int64 npval" where
  "fp_matrix_mul pred gold ax =
     (case np_binary (-) pred gold of
        Inl e \<Rightarrow> Inl e
      | Inr d \<Rightarrow> Inr (np_sum (np_unary (\<lambda>x. maximum64 x 0) d) ax))"

definition fn_matrix_mul :: "ndarray \<Rightarrow> ndarray \<Rightarrow> axes \<Rightarrow> error + int64 npval" where
  "fn_matrix_mul pred gold ax =
     (case np_binary (-) gold pred of
        Inl e \<Rightarrow> Inl e
      | Inr d \<Rightarrow> Inr (np_sum (np_unary (\<lambda>x. maximum64 x 0) d) ax))"

text \<open>The wrappers with their default axes: \<open>(0, 1)\<close> for the whole matrix, \<open>0\<close> per class.\<close>

definition tp_matrix_mul_full :: "ndarray \<Rightarrow> ndarray \<Rightarrow> error + int64 npval" where
  "tp_matrix_mul_full pred gold = tp_matrix_mul pred gold Axes01"

definition fp_matrix_mul_full :: "ndarray \<Rightarrow> ndarray \<Rightarrow> error + int64 npval" where
  "fp_matrix_mul_full pred gold = fp_matrix_mul pred gold Axes01"

definition fn_matrix_mul_full :: "ndarray \<Rightarrow> ndarray \<Rightarrow> error + int64 npval" where
  "fn_matrix_mul_full pred gold = fn_matrix_mul pred gold Axes01"

definition tp_matrix_mul_per_class :: "ndarray \<Rightarrow> ndarray \<Rightarrow> error + int64 npval" where
  "tp_matrix_mul_per_class pred gold = tp_matrix_mul pred gold Axis0"

definition fp_matrix_mul_per_class :: "ndarray \<Rightarrow> ndarray \<Rightarrow> error + int64 npval" where
  "fp_matrix_mul_per_class pred gold = fp_matrix_mul pred gold Axis0"

definition fn_matrix_mul_per_class :: "ndarray \<Rightarrow> ndarray \<Rightarrow> error + int64 npval" where
  "fn_matrix_mul_per_class pred gold = fn_matrix_mul pred gold Axis0"

subsection \<open>\<open>multi_level_eval.py\<close>: the reports\<close>

text \<open>
  The "Precision" and "Recall" blocks of the three report functions (source lines
  109-111 and 114-116, repeated at 145-151 and 175-182): the denominator, the
  denominator with 1 added where it is 0, and the true division by it.
\<close>

definition guarded_ratio :: "int64 npval \<Rightarrow> int64 npval \<Rightarrow> npfloat npval" where
  "guarded_ratio tp other =
     (let denom = np_map2 (+) tp other;
          denom_corrected = np_map2 (+) denom (np_map eq0 denom)
      in np_map2 true_divide tp denom_corrected)"

text \<open>The "F1 score" block (source lines 119-121, repeated at 153-155 and 185-187).\<close>

definition f1_score :: "npfloat npval \<Rightarrow> npfloat npval \<Rightarrow> npfloat npval" where
  "f1_score prec rec =
     (let f1_denom = np_map2 fadd prec rec;
          f1_denom_corrected = np_map2 fadd_int f1_denom (np_map feq0 f1_denom)
      in np_map2 fdivide (np_map (fmul (Some 2)) (np_map2 fmul prec rec)) f1_denom_corrected)"

text \<open>\<open>[code_id_dict[k] for k in code_ids]\<close>\<close>

fun lookup_all :: "('k \<times> 'v) list \<Rightarrow> 'k list \<Rightarrow> error + 'v list" where
  "lookup_all d [] = Inr []"
| "lookup_all d (k # ks) =
     (case dict_get d k of
        Inl e \<Rightarrow> Inl e
      | Inr v \<Rightarrow> (case lookup_all d ks of Inl e \<Rightarrow> Inl e | Inr vs \<Rightarrow> Inr (v # vs)))"

text \<open>
  A row of the data frame that \<open>report\<close> returns. \<open>zip\<close> stops at the shortest of its
  arguments, so the frame has as many rows as the shorter of the class columns and the
  dictionary.
\<close>

record report_row =
  Precision :: npfloat
  Recall :: npfloat
  F1 :: npfloat
  Support :: int64
  Code :: code

definition report :: "ndarray \<Rightarrow> ndarray \<Rightarrow> (int \<times> code) list \<Rightarrow> error + report_row list" where
  "report pred gold code_id_dict =
     (case tp_matrix_mul_per_class pred gold of Inl e \<Rightarrow> Inl e | Inr tp \<Rightarrow>
     (case fp_matrix_mul_per_class pred gold of Inl e \<Rightarrow> Inl e | Inr fp \<Rightarrow>
     (case fn_matrix_mul_per_class pred gold of Inl e \<Rightarrow> Inl e | Inr fn \<Rightarrow>
       (let support = np_sum gold Axis0;
            prec = guarded_ratio tp fp;
            rec = guarded_ratio tp fn;
            f1 = f1_score prec rec;
            code_ids = sort (map fst code_id_dict)
        in (case lookup_all code_id_dict code_ids of Inl e \<Rightarrow> Inl e | Inr codes \<Rightarrow>
           (case np_iter prec of Inl e \<Rightarrow> Inl e | Inr precs \<Rightarrow>
           (case np_iter rec of Inl e \<Rightarrow> Inl e | Inr recs \<Rightarrow>
           (case np_iter f1 of Inl e \<Rightarrow> Inl e | Inr f1s \<Rightarrow>
           (case np_iter support of Inl e \<Rightarrow> Inl e | Inr supports \<Rightarrow>
              Inr (map (\<lambda>(p, r, f, s, c).
                         \<lparr>Precision = p, Recall = r, F1 = f, Support = s, Code = c\<rparr>)
                       (zip precs (zip recs (zip f1s (zip supports codes))))))))))))))"

text \<open>
  \<open>report_micro\<close> and \<open>report_macro\<close> return a dictionary with the keys
  \<open>"Precision"\<close>, \<open>"Recall"\<close> and \<open>"F1"\<close>.
\<close>

definition report_micro :: "ndarray \<Rightarrow> ndarray \<Rightarrow> error + (string \<times> npfloat npval) list" where
  "report_micro pred gold =
     (case tp_matrix_mul_full pred gold of Inl e \<Rightarrow> Inl e | Inr tp \<Rightarrow>
     (case fp_matrix_mul_full pred gold of Inl e \<Rightarrow> Inl e | Inr fp \<Rightarrow>
     (case fn_matrix_mul_full pred gold of Inl e \<Rightarrow> Inl e | Inr fn \<Rightarrow>
       (let prec_micro = guarded_ratio tp fp;
            rec_micro = guarded_ratio tp fn;
            f1 = f1_score prec_micro rec_micro
        in Inr [(''Precision'', prec_micro), (''Recall'', rec_micro), (''F1'', f1)]))))"

definition report_macro :: "ndarray \<Rightarrow> ndarray \<Rightarrow> error + (string \<times> npfloat npval) list" where
  "report_macro pred gold =
     (case tp_matrix_mul_per_class pred gold of Inl e \<Rightarrow> Inl e | Inr tp \<Rightarrow>
     (case fp_matrix_mul_per_class pred gold of Inl e \<Rightarrow> Inl e | Inr fp \<Rightarrow>
     (case fn_matrix_mul_per_class pred gold of Inl e \<Rightarrow> Inl e | Inr fn \<Rightarrow>
       (let prec = guarded_ratio tp fp
        in (case np_average prec of Inl e \<Rightarrow> Inl e | Inr prec_macro \<Rightarrow>
           (let rec = guarded_ratio tp fn
            in (case np_average rec of Inl e \<Rightarrow> Inl e | Inr rec_macro \<Rightarrow>
               (let f1 = f1_score prec_macro rec_macro
                in Inr [(''Precision'', prec_macro), (''Recall'', rec_macro), (''F1'', f1)]))))))))"

text \<open>\<open>(x > 0) * 1\<close>: every positive entry becomes 1, every other entry 0.\<close>

definition positive :: "int64 \<Rightarrow> int64" where
  "positive x = (if 0 < sint x then 1 else 0)"

definition report_macro_bin :: "ndarray \<Rightarrow> ndarray \<Rightarrow> error + (string \<times> npfloat npval) list" where
  "report_macro_bin pred gold =
     (let pred_bin = np_unary positive pred;
          gold_bin = np_unary positive gold
      in report_macro pred_bin gold_bin)"

definition report_micro_bin :: "ndarray \<Rightarrow> ndarray \<Rightarrow> error + (string \<times> npfloat npval) list" where
  "report_micro_bin pred gold =
     (let pred_bin = np_unary positive pred;
          gold_bin = np_unary positive gold
      in report_micro pred_bin gold_bin)"

text \<open>
  \<open>report_bin\<close> ends in \<open>report(pred_bin, gold_bin)\<close>. \<open>report\<close> has three
  positional parameters without defaults (\<open>pred\<close>, \<open>gold\<close>, \<open>code_id_dict\<close>), and
  Python raises \<open>TypeError\<close> for a call that leaves one out, before the body of
  \<open>report\<close> runs.
\<close>

definition report_called_without_code_id_dict :: "ndarray \<Rightarrow> ndarray \<Rightarrow> error + report_row list" where
  "report_called_without_code_id_dict pred gold = Inl TypeError"

definition report_bin :: "ndarray \<Rightarrow> ndarray \<Rightarrow> error + report_row list" where
  "report_bin pred gold =
     (let pred_bin = np_unary positive pred;
          gold_bin = np_unary positive gold
      in report_called_without_code_id_dict pred_bin gold_bin)"

subsection \<open>\<open>hierarchical_eval_setup\<close>\<close>

text \<open>
  The function is modelled on the arguments the repository itself passes (source line
  130): \<open>preds\<close> and \<open>golds\<close> are 2-D \<open>ndarray\<close>s and \<open>layer_matrices\<close> is the
  list of \<open>csr_matrix\<close> objects that \<open>setup_matrices_by_layer\<close> returned.

  \<open>np.sum(matrix, axis=1)\<close> on a scipy sparse matrix is the matrix's own
  \<open>sum(axis=1)\<close>: an \<open>np.matrix\<close> with one column, holding the sum of every row.
\<close>

definition csr_sum_axis1 :: "csr_matrix \<Rightarrow> int64 list" where
  "csr_sum_axis1 m = map (\<lambda>i. word_of_int (csr_row_sum m i)) [0..<fst (shape m)]"

text \<open>
  \<open>np.diag\<close> builds a diagonal matrix from a 1-D array, and returns the main diagonal
  of a 2-D array. The column of row sums is 2-D (\<open>np.matrix\<close> is always 2-D), of shape
  \<open>(m, 1)\<close>, so \<open>np.diag\<close> returns its main diagonal: the 1-D array of its first
  entry (of no entry when \<open>m = 0\<close>).
\<close>

definition np_diag_of_column :: "int64 list \<Rightarrow> int64 list" where
  "np_diag_of_column column = take 1 column"

definition low_level_diagonal :: "csr_matrix \<Rightarrow> int64 list" where
  "low_level_diagonal m = (let bin_vector = csr_sum_axis1 m in np_diag_of_column bin_vector)"

text \<open>
  \<open>a * v\<close> for a 2-D \<open>ndarray\<close> \<open>a\<close> and a 1-D \<open>ndarray\<close> \<open>v\<close> is the
  elementwise product, \<open>v\<close> broadcast as an array of one row.
\<close>

definition np_multiply_1d :: "ndarray \<Rightarrow> int64 list \<Rightarrow> error + ndarray" where
  "np_multiply_1d a v = np_binary (*) a \<lparr>nrows = 1, ncols = length v, elems = [v]\<rparr>"

text \<open>
  \<open>a * m\<close> for a 2-D \<open>ndarray\<close> \<open>a\<close> and a \<open>csr_matrix\<close> \<open>m\<close> is the matrix
  product (scipy's \<open>__rmul__\<close>), in \<open>int64\<close>: the entry at column \<open>j\<close> of a row is
  the sum over \<open>i\<close> of the row's \<open>i\<close>-th entry times the matrix entry at
  \<open>(i, j)\<close>. It raises \<open>ValueError\<close> unless \<open>a\<close> has as many columns as \<open>m\<close>
  has rows.
\<close>

definition csr_rmul :: "ndarray \<Rightarrow> csr_matrix \<Rightarrow> error + ndarray" where
  "csr_rmul a m =
     (if ncols a \<noteq> fst (shape m) then Inl ValueError
      else Inr \<lparr>nrows = nrows a, ncols = snd (shape m),
                elems = map (\<lambda>row. map (\<lambda>j. sum_list (map (\<lambda>i. row ! i * word_of_int (csr_at m i j))
                                                           [0..<fst (shape m)]))
                                         [0..<snd (shape m)])
                            (elems a)\<rparr>)"

text \<open>\<open>np.concatenate(arrays, 1)\<close>: the arrays side by side; they must have the same number of rows.\<close>

definition np_concatenate1 :: "ndarray list \<Rightarrow> error + ndarray" where
  "np_concatenate1 arrays =
     (case arrays of
        [] \<Rightarrow> Inl ValueError
      | a # rest \<Rightarrow>
          if list_all (\<lambda>b. nrows b = nrows a) rest
          then Inr \<lparr>nrows = nrows a, ncols = sum_list (map ncols arrays),
                    elems = map (\<lambda>i. concat (map (\<lambda>b. elems b ! i) arrays)) [0..<nrows a]\<rparr>
          else Inl ValueError)"

text \<open>The loop over the layers (source lines 66-70).\<close>

fun translate_layers :: "ndarray \<Rightarrow> ndarray \<Rightarrow> csr_matrix list \<Rightarrow> nat list \<Rightarrow>
    error + (ndarray list \<times> ndarray list)" where
  "translate_layers preds golds layer_matrices [] = Inr ([], [])"
| "translate_layers preds golds layer_matrices (i # rest) =
     (case list_get layer_matrices i of Inl e \<Rightarrow> Inl e | Inr translation_matrix \<Rightarrow>
     (case csr_rmul preds translation_matrix of Inl e \<Rightarrow> Inl e | Inr translated_preds \<Rightarrow>
     (case csr_rmul golds translation_matrix of Inl e \<Rightarrow> Inl e | Inr translated_golds \<Rightarrow>
     (case translate_layers preds golds layer_matrices rest of Inl e \<Rightarrow> Inl e
      | Inr (ps, gs) \<Rightarrow> Inr (translated_preds # ps, translated_golds # gs)))))"

definition hierarchical_eval_setup :: "ndarray \<Rightarrow> ndarray \<Rightarrow> csr_matrix list \<Rightarrow> int \<Rightarrow>
    error + (ndarray \<times> ndarray)" where
  "hierarchical_eval_setup preds golds layer_matrices max_onto_layers =
     (case list_get layer_matrices 0 of Inl e \<Rightarrow> Inl e | Inr matrix0 \<Rightarrow>
       (let lowest_layer_filter = low_level_diagonal matrix0
        in (case np_multiply_1d preds lowest_layer_filter of Inl e \<Rightarrow> Inl e | Inr preds0 \<Rightarrow>
           (case np_multiply_1d golds lowest_layer_filter of Inl e \<Rightarrow> Inl e | Inr golds0 \<Rightarrow>
           (case translate_layers preds golds layer_matrices [0..<nat max_onto_layers] of
              Inl e \<Rightarrow> Inl e
            | Inr (ps, gs) \<Rightarrow>
           (case np_concatenate1 (preds0 # ps) of Inl e \<Rightarrow> Inl e | Inr combined_preds \<Rightarrow>
           (case np_concatenate1 (golds0 # gs) of Inl e \<Rightarrow> Inl e | Inr combined_golds \<Rightarrow>
              Inr (combined_preds, combined_golds))))))))"

subsection \<open>The measures in the words of the specification\<close>

text \<open>The integer that the entry at row \<open>i\<close> and column \<open>j\<close> of a dense array stands for.\<close>

definition cell :: "ndarray \<Rightarrow> nat \<Rightarrow> nat \<Rightarrow> int" where
  "cell a i j = sint (elems a ! i ! j)"

text \<open>
  The sum of \<open>f i j\<close> over the given axes of a \<open>d\<close> by \<open>n\<close> matrix: per column for
  axis 0, per row for axis 1, over all entries for both. Over the integers the sums are
  exact; over \<open>int64\<close> they wrap around.
\<close>

definition sum_over :: "axes \<Rightarrow> nat \<Rightarrow> nat \<Rightarrow> (nat \<Rightarrow> nat \<Rightarrow> 'a :: comm_monoid_add) \<Rightarrow> 'a npval" where
  "sum_over ax d n f =
     (case ax of
        Axis0 \<Rightarrow> Vector (map (\<lambda>j. \<Sum>i = 0..<d. f i j) [0..<n])
      | Axis1 \<Rightarrow> Vector (map (\<lambda>i. \<Sum>j = 0..<n. f i j) [0..<d])
      | Axes01 \<Rightarrow> Scalar (\<Sum>i = 0..<d. \<Sum>j = 0..<n. f i j))"

text \<open>
  \<open>as_int64\<close>: integers as \<open>int64\<close> values, each reduced modulo \<open>2 ^ 64\<close> into the
  signed range. \<open>as_integers\<close>: the integers that \<open>int64\<close> values stand for.
\<close>

definition as_int64 :: "int npval \<Rightarrow> int64 npval" where
  "as_int64 v = np_map word_of_int v"

definition as_integers :: "int64 npval \<Rightarrow> int npval" where
  "as_integers v = np_map sint v"

text \<open>
  A matrix of counts: no entry is negative. \<open>total\<close> is the sum of all its entries, and
  \<open>fits\<close> says that this sum is in the range of \<open>int64\<close>.
\<close>

definition nonneg :: "ndarray \<Rightarrow> bool" where
  "nonneg a = list_all (list_all (\<lambda>x. 0 \<le> sint x)) (elems a)"

definition total :: "ndarray \<Rightarrow> int" where
  "total a = (\<Sum>i = 0..<nrows a. \<Sum>j = 0..<ncols a. cell a i j)"

definition fits :: "ndarray \<Rightarrow> bool" where
  "fits a = (total a < 2 ^ 63)"

text \<open>
  The counts of one class \<open>j\<close> (column) in the words of the specification, as exact
  integers: TP is the sum of the minima, FP the sum of the excess of the predictions, FN
  the sum of the excess of the gold labels.
\<close>

definition class_tp :: "ndarray \<Rightarrow> ndarray \<Rightarrow> nat \<Rightarrow> int" where
  "class_tp pred gold j = (\<Sum>i = 0..<nrows pred. min (cell pred i j) (cell gold i j))"

definition class_fp :: "ndarray \<Rightarrow> ndarray \<Rightarrow> nat \<Rightarrow> int" where
  "class_fp pred gold j = (\<Sum>i = 0..<nrows pred. max (cell pred i j - cell gold i j) 0)"

definition class_fn :: "ndarray \<Rightarrow> ndarray \<Rightarrow> nat \<Rightarrow> int" where
  "class_fn pred gold j = (\<Sum>i = 0..<nrows pred. max (cell gold i j - cell pred i j) 0)"

text \<open>The same counts over the whole matrix.\<close>

definition total_tp :: "ndarray \<Rightarrow> ndarray \<Rightarrow> int" where
  "total_tp pred gold = (\<Sum>i = 0..<nrows pred. \<Sum>j = 0..<ncols pred. min (cell pred i j) (cell gold i j))"

definition total_fp :: "ndarray \<Rightarrow> ndarray \<Rightarrow> int" where
  "total_fp pred gold = (\<Sum>i = 0..<nrows pred. \<Sum>j = 0..<ncols pred. max (cell pred i j - cell gold i j) 0)"

definition total_fn :: "ndarray \<Rightarrow> ndarray \<Rightarrow> int" where
  "total_fn pred gold = (\<Sum>i = 0..<nrows pred. \<Sum>j = 0..<ncols pred. max (cell gold i j - cell pred i j) 0)"

text \<open>
  The counts of a class as sums in \<open>int64\<close> arithmetic, and the quotient of such a
  count by its sum with another, the sum replaced by 1 when it is 0: the per-class
  precision (with the false positives) and recall (with the false negatives) of an
  \<open>int64\<close> computation.
\<close>

definition class_tp64 :: "ndarray \<Rightarrow> ndarray \<Rightarrow> nat \<Rightarrow> int64" where
  "class_tp64 pred gold j = (\<Sum>i = 0..<nrows pred. minimum64 (elems pred ! i ! j) (elems gold ! i ! j))"

definition class_fp64 :: "ndarray \<Rightarrow> ndarray \<Rightarrow> nat \<Rightarrow> int64" where
  "class_fp64 pred gold j = (\<Sum>i = 0..<nrows pred. maximum64 (elems pred ! i ! j - elems gold ! i ! j) 0)"

definition class_fn64 :: "ndarray \<Rightarrow> ndarray \<Rightarrow> nat \<Rightarrow> int64" where
  "class_fn64 pred gold j = (\<Sum>i = 0..<nrows pred. maximum64 (elems gold ! i ! j - elems pred ! i ! j) 0)"

definition quotient64 :: "int64 \<Rightarrow> int64 \<Rightarrow> real" where
  "quotient64 tp other =
     real_of_int (sint tp) / real_of_int (sint (if tp + other = 0 then 1 else tp + other))"

text \<open>
  The zero-division policy of the specification: a denominator that is 0 is replaced by 1.
\<close>

definition guarded_div :: "real \<Rightarrow> real \<Rightarrow> real" where
  "guarded_div a b = a / (if b = 0 then 1 else b)"

text \<open>
  Precision is \<open>guarded_quotient tp fp\<close> and recall \<open>guarded_quotient tp fn\<close>: TP over
  TP plus the other count, under the policy.
\<close>

definition guarded_quotient :: "int \<Rightarrow> int \<Rightarrow> real" where
  "guarded_quotient tp other = guarded_div (real_of_int tp) (real_of_int (tp + other))"

text \<open>F1 from a precision and a recall, under the policy.\<close>

definition f1_value :: "real \<Rightarrow> real \<Rightarrow> real" where
  "f1_value p r = guarded_div (2 * (p * r)) (p + r)"

text \<open>
  A real number of the interval [0, 1]; a score that is such a number (and not \<open>nan\<close>
  or infinite).
\<close>

definition in_unit :: "real \<Rightarrow> bool" where
  "in_unit x = (0 \<le> x \<and> x \<le> 1)"

definition defined_in_unit :: "npfloat \<Rightarrow> bool" where
  "defined_in_unit x = (case x of None \<Rightarrow> False | Some v \<Rightarrow> 0 \<le> v \<and> v \<le> 1)"

text \<open>A matrix whose entries are all 0.\<close>

definition all_zero :: "ndarray \<Rightarrow> bool" where
  "all_zero a = list_all (list_all (\<lambda>x. x = 0)) (elems a)"

text \<open>The unweighted mean of a list of numbers; there is no mean of no numbers.\<close>

definition mean_value :: "real list \<Rightarrow> npfloat" where
  "mean_value xs = (if xs = [] then None else Some (sum_list xs / real (length xs)))"

text \<open>F1 from two means, when both exist.\<close>

definition f1_of_means :: "npfloat \<Rightarrow> npfloat \<Rightarrow> npfloat" where
  "f1_of_means P R =
     (case P of None \<Rightarrow> None | Some p \<Rightarrow> (case R of None \<Rightarrow> None | Some r \<Rightarrow> Some (f1_value p r)))"

text \<open>
  The leaf-level component in the words of the specification: the matrix times the
  diagonal matrix of the row sums of the layer matrix, which multiplies column \<open>i\<close> by
  the \<open>i\<close>-th row sum.
\<close>

definition diagonal_filtered :: "ndarray \<Rightarrow> csr_matrix \<Rightarrow> int64 list list" where
  "diagonal_filtered a m = map (\<lambda>row. map2 (*) row (csr_sum_axis1 m)) (elems a)"

subsection \<open>Predicates for the lookups of ancestors\<close>

text \<open>
  \<open>has_parents_beyond translation_dict c layer\<close>: the code \<open>c\<close> is a key of the
  ontology dictionary, and its \<open>"parents"\<close> list is longer than \<open>layer\<close>.
\<close>

definition has_parents_beyond :: "translation_dict \<Rightarrow> code \<Rightarrow> nat \<Rightarrow> bool" where
  "has_parents_beyond translation_dict c layer =
     (case translation_dict c of
        None \<Rightarrow> False
      | Some item \<Rightarrow>
          (case item ''parents'' of None \<Rightarrow> False | Some parents \<Rightarrow> layer < length parents))"

text \<open>
  \<open>ancestors_have_parents translation_dict code_ids layer\<close>: the ancestor at
  \<open>layer\<close> of every leaf is itself a key with a \<open>"parents"\<close> list longer than
  \<open>layer\<close>.
\<close>

definition ancestors_have_parents :: "translation_dict \<Rightarrow> (code \<times> int) list \<Rightarrow> nat \<Rightarrow> bool" where
  "ancestors_have_parents translation_dict code_ids layer =
     list_all (\<lambda>c. case parent_at translation_dict c layer of
                      Inl e \<Rightarrow> True
                    | Inr ancestor \<Rightarrow> has_parents_beyond translation_dict ancestor layer)
              (map fst code_ids)"

subsection \<open>Example inputs\<close>

text \<open>
  A small ontology in which the leaf \<open>b\<close> ends early and is padded with itself: its
  parent at layer 0 is \<open>b\<close> again. The leaf \<open>a.1\<close> has the parent \<open>a\<close>, whose own
  parent is \<open>A\<close>.
\<close>

definition shallow_ontology :: translation_dict where
  "shallow_ontology =
     [''a.1'' \<mapsto> [''parents'' \<mapsto> [''a'']],
      ''b'' \<mapsto> [''parents'' \<mapsto> [''b'']],
      ''a'' \<mapsto> [''parents'' \<mapsto> [''A'']]]"

definition shallow_code_ids :: "(code \<times> int) list" where
  "shallow_code_ids = [(''a.1'', 0), (''b'', 1)]"

text \<open>
  A chain of three ancestors for the one leaf \<open>x\<close>. The ancestor \<open>c\<close> at layer 2
  has the leaf \<open>x\<close> as its own parent at index 0 and at index 3, and \<open>z\<close> at index 2.
\<close>

definition deep_ontology :: translation_dict where
  "deep_ontology =
     [''x'' \<mapsto> [''parents'' \<mapsto> [''a'', ''b'', ''c'']],
      ''a'' \<mapsto> [''parents'' \<mapsto> [''r'']],
      ''c'' \<mapsto> [''parents'' \<mapsto> [''x'', ''y'', ''z'', ''x'']]]"

text \<open>
  Three leaves of the demonstration in \<^verbatim>\<open>evaluation_setup.py\<close>, each with a
  parent and a grandparent. As there, only the leaves are keys of the dictionary.
\<close>

definition flat_ontology :: translation_dict where
  "flat_ontology =
     [''a.1'' \<mapsto> [''parents'' \<mapsto> [''a'', ''AB'']],
      ''b.1'' \<mapsto> [''parents'' \<mapsto> [''b'', ''AB'']],
      ''c.1'' \<mapsto> [''parents'' \<mapsto> [''c'', ''CD'']]]"

definition flat_code_ids :: "(code \<times> int) list" where
  "flat_code_ids = [(''a.1'', 0), (''b.1'', 1), (''c.1'', 2)]"

text \<open>
  Two matrices of counts over two documents and two classes, with entries above 1; the
  identifiers of the two classes; a matrix of zeros; a matrix with two documents and no
  class; one document that has both leaves of \<open>shallow_code_ids\<close>; and the matrix
  that \<open>setup_matrices_by_layer\<close> returns for \<open>shallow_ontology\<close> without
  duplicates.
\<close>

definition count_pred :: ndarray where
  "count_pred = \<lparr>nrows = 2, ncols = 2, elems = [[2, 0], [1, 1]]\<rparr>"

definition count_gold :: ndarray where
  "count_gold = \<lparr>nrows = 2, ncols = 2, elems = [[1, 1], [0, 3]]\<rparr>"

definition zero_matrix :: ndarray where
  "zero_matrix = \<lparr>nrows = 2, ncols = 2, elems = [[0, 0], [0, 0]]\<rparr>"

definition no_class_matrix :: ndarray where
  "no_class_matrix = \<lparr>nrows = 2, ncols = 0, elems = [[], []]\<rparr>"

definition two_class_ids :: "(int \<times> code) list" where
  "two_class_ids = [(0, ''a''), (1, ''b'')]"

definition leaf_counts :: ndarray where
  "leaf_counts = \<lparr>nrows = 1, ncols = 2, elems = [[1, 1]]\<rparr>"

text \<open>
  Two matrices of three documents and one class, with the entries \<open>2 ^ 62\<close> and 0.
\<close>

definition big_pred :: ndarray where
  "big_pred = \<lparr>nrows = 3, ncols = 1,
                elems = [[4611686018427387904], [4611686018427387904], [4611686018427387904]]\<rparr>"

definition big_gold :: ndarray where
  "big_gold = \<lparr>nrows = 3, ncols = 1,
                elems = [[4611686018427387904], [4611686018427387904], [0]]\<rparr>"

definition shallow_matrix :: csr_matrix where
  "shallow_matrix = \<lparr>shape = (2, 2), coo = [(0, 0, 1), (1, 1, 0)], boolean = True\<rparr>"

section \<open>Properties of the transition matrices\<close>

subsection \<open>What a successful call has computed\<close>

lemma fill_triples_nth:
  assumes "fill_triples code_ids td max_layer incl layer lid cs = Inr ts"
  shows "length ts = length cs \<and>
   (\<forall>k < length cs. \<exists>row ancestor col val.
      dict_get code_ids (cs ! k) = Inr row \<and> parent_at td (cs ! k) layer = Inr ancestor \<and>
      dict_get lid ancestor = Inr col \<and>
      edge_value td max_layer incl layer (cs ! k) ancestor = Inr val \<and>
      ts ! k = (row, col, val))"
  using assms
proof (induction cs arbitrary: ts)
  case Nil
  then show ?case by simp
next
  case (Cons c cs)
  from Cons.prems obtain row ancestor col val rest where
    h: "dict_get code_ids c = Inr row" "parent_at td c layer = Inr ancestor"
       "dict_get lid ancestor = Inr col" "edge_value td max_layer incl layer c ancestor = Inr val"
       "fill_triples code_ids td max_layer incl layer lid cs = Inr rest"
       "ts = (row, col, val) # rest"
    by (auto split: sum.splits)
  from Cons.IH [OF h(5)] have ih1: "length rest = length cs"
    and ih2: "\<And>k. k < length cs \<Longrightarrow> \<exists>row ancestor col val.
      dict_get code_ids (cs ! k) = Inr row \<and> parent_at td (cs ! k) layer = Inr ancestor \<and>
      dict_get lid ancestor = Inr col \<and>
      edge_value td max_layer incl layer (cs ! k) ancestor = Inr val \<and>
      rest ! k = (row, col, val)" by auto
  have "\<exists>row ancestor col val.
      dict_get code_ids ((c # cs) ! k) = Inr row \<and> parent_at td ((c # cs) ! k) layer = Inr ancestor \<and>
      dict_get lid ancestor = Inr col \<and>
      edge_value td max_layer incl layer ((c # cs) ! k) ancestor = Inr val \<and>
      ts ! k = (row, col, val)" if "k < length (c # cs)" for k
  proof (cases k)
    case 0
    then show ?thesis using h by simp
  next
    case (Suc j)
    then have "j < length cs" using that by simp
    from ih2 [OF this] show ?thesis using Suc h(6) by simp
  qed
  then show ?case using h(6) ih1 by simp
qed

lemma layers_loop_nth:
  "layers_loop enum code_ids td max_layer incl ls = Inr (ms, ds) \<Longrightarrow>
   length ms = length ls \<and> length ds = length ls \<and>
   (\<forall>i < length ls. layer_step enum code_ids td max_layer incl (ls ! i) = Inr (ms ! i, ds ! i))"
proof (induction ls arbitrary: ms ds)
  case Nil
  then show ?case by simp
next
  case (Cons l ls)
  from Cons.prems obtain m d ms' ds' where
    h: "layer_step enum code_ids td max_layer incl l = Inr (m, d)"
       "layers_loop enum code_ids td max_layer incl ls = Inr (ms', ds')"
       "ms = m # ms'" "ds = d # ds'"
    by (auto split: sum.splits prod.splits)
  from Cons.IH [OF h(2)] show ?case using h(1,3,4)
    by (auto simp: nth_Cons split: nat.splits)
qed

lemma setup_layer:
  assumes "setup_matrices_by_layer enum code_ids td max_layer incl = Inr (ms, ds)"
  shows "length ms = nat max_layer" "length ds = nat max_layer"
    "L < nat max_layer \<Longrightarrow> layer_step enum code_ids td max_layer incl L = Inr (ms ! L, ds ! L)"
  using layers_loop_nth [OF assms [unfolded setup_matrices_by_layer_def]] by auto

lemma layer_step_Inr:
  assumes "layer_step enum code_ids td max_layer incl layer = Inr (m, d)"
  shows "\<exists>s. collect_codeset td layer (map fst code_ids) [] = Inr s \<and>
           d = zip (enum s) [0..<length s]"
    and "fill_triples code_ids td max_layer incl layer d (map fst code_ids) = Inr (coo m)"
    and "shape m = (length (coo m), length (remdups (map (\<lambda>(r, c, v). c) (coo m))))"
    and "list_all (index_in_range (shape m)) (coo m)"
    and "boolean m = (\<not> (incl \<or> int layer = max_layer - 2))"
  using assms
  by (auto simp: layer_step_def new_csr_matrix_def Let_def split: sum.splits if_splits)

lemma dict_get_own_key:
  "distinct (map fst d) \<Longrightarrow> k < length d \<Longrightarrow> dict_get d (fst (d ! k)) = Inr (snd (d ! k))"
proof -
  assume d: "distinct (map fst d)" and k: "k < length d"
  have "(fst (d ! k), snd (d ! k)) \<in> set d" using k by simp
  then have "map_of d (fst (d ! k)) = Some (snd (d ! k))" using d by simp
  then show ?thesis by (simp add: dict_get_def)
qed

lemma edge_value_Inr:
  "edge_value td max_layer incl layer c ancestor = Inr v \<Longrightarrow>
   v = (if incl \<or> int layer = max_layer - 2 then 1
        else if parent_at td ancestor layer = Inr c then 0 else 1)"
  by (auto simp: edge_value_def Let_def split: if_splits sum.splits)

lemma setup_triple:
  assumes "setup_matrices_by_layer enum code_ids td max_layer incl = Inr (matrices, dicts)"
    and "distinct (map fst code_ids)"
    and "L < nat max_layer" and "k < length code_ids"
  shows "\<exists>ancestor col val.
           parent_at td (fst (code_ids ! k)) L = Inr ancestor \<and>
           dict_get (dicts ! L) ancestor = Inr col \<and>
           edge_value td max_layer incl L (fst (code_ids ! k)) ancestor = Inr val \<and>
           coo (matrices ! L) ! k = (snd (code_ids ! k), col, val)"
proof -
  have step: "layer_step enum code_ids td max_layer incl L = Inr (matrices ! L, dicts ! L)"
    using setup_layer(3) [OF assms(1) assms(3)] .
  have fill: "fill_triples code_ids td max_layer incl L (dicts ! L) (map fst code_ids)
                = Inr (coo (matrices ! L))"
    using layer_step_Inr(2) [OF step] .
  have k: "k < length (map fst code_ids)" using assms(4) by simp
  from fill_triples_nth [OF fill] k obtain row ancestor col val where
    h: "dict_get code_ids (map fst code_ids ! k) = Inr row"
       "parent_at td (map fst code_ids ! k) L = Inr ancestor"
       "dict_get (dicts ! L) ancestor = Inr col"
       "edge_value td max_layer incl L (map fst code_ids ! k) ancestor = Inr val"
       "coo (matrices ! L) ! k = (row, col, val)"
    by blast
  have key: "map fst code_ids ! k = fst (code_ids ! k)" using assms(4) by simp
  have row: "row = snd (code_ids ! k)"
    using h(1) dict_get_own_key [OF assms(2) assms(4)] key by simp
  show ?thesis using h(2,3,4,5) key row by auto
qed

lemma deep_setup:
  "setup_matrices_by_layer (\<lambda>s. s) [(''x'', 0)] deep_ontology 3 False =
     Inr ([\<lparr>shape = (1, 1), coo = [(0, 0, 1)], boolean = True\<rparr>, \<lparr>shape = (1, 1), coo = [(0, 0, 1)], boolean = False\<rparr>,
           \<lparr>shape = (1, 1), coo = [(0, 0, 1)], boolean = True\<rparr>],
          [[(''a'', 0)], [(''b'', 0)], [(''c'', 0)]])"
proof -
  have u: "[0..<nat 3] = [0, 1, 2]" by (simp add: upt_rec)
  show ?thesis
    unfolding setup_matrices_by_layer_def u
    by (simp add: layer_step_def deep_ontology_def parent_at_def list_get_def set_add_def
        dict_get_def edge_value_def new_csr_matrix_def index_in_range_def)
qed

lemma shallow_setup:
  "setup_matrices_by_layer (\<lambda>s. s) shallow_code_ids shallow_ontology 1 False =
     Inr ([\<lparr>shape = (2, 2), coo = [(0, 0, 1), (1, 1, 0)], boolean = True\<rparr>], [[(''a'', 0), (''b'', 1)]])"
  by (simp add: setup_matrices_by_layer_def layer_step_def shallow_code_ids_def shallow_ontology_def
      parent_at_def list_get_def set_add_def dict_get_def edge_value_def new_csr_matrix_def
      index_in_range_def)

subsection \<open>The value of an entry\<close>

text \<open>
  Claim C1. Let a call of \<open>setup_matrices_by_layer\<close> return, and let \<open>L\<close> be one of
  its layers and \<open>(code, row)\<close> the \<open>k\<close>-th item of the leaf dictionary. Then the
  \<open>k\<close>-th triple given to the matrix of layer \<open>L\<close> stands at the leaf's row and at the
  column that the layer's dictionary gives the leaf's ancestor, and its value is 1 if
  \<open>include_duplicates\<close> is true or \<open>L = max_layer - 2\<close>; otherwise it is 0 if the
  ancestor's own ancestor at layer \<open>L\<close> is the leaf's code, and 1 if not.
\<close>

theorem setup_entry_value:
  assumes "setup_matrices_by_layer enum code_ids td max_layer incl = Inr (matrices, dicts)"
    and "distinct (map fst code_ids)"
    and "L < nat max_layer" and "k < length code_ids"
  shows "\<exists>ancestor col.
           parent_at td (fst (code_ids ! k)) L = Inr ancestor \<and>
           dict_get (dicts ! L) ancestor = Inr col \<and>
           coo (matrices ! L) ! k =
             (snd (code_ids ! k), col,
              if incl \<or> int L = max_layer - 2 then 1
              else if parent_at td ancestor L = Inr (fst (code_ids ! k)) then 0 else 1)"
proof -
  from setup_triple [OF assms] obtain ancestor col val where
    h: "parent_at td (fst (code_ids ! k)) L = Inr ancestor"
       "dict_get (dicts ! L) ancestor = Inr col"
       "edge_value td max_layer incl L (fst (code_ids ! k)) ancestor = Inr val"
       "coo (matrices ! L) ! k = (snd (code_ids ! k), col, val)"
    by blast
  show ?thesis using h(1,2,4) edge_value_Inr [OF h(3)] by auto
qed

theorem setup_entry_value_witness:
  "setup_matrices_by_layer (\<lambda>s. s) shallow_code_ids shallow_ontology 1 False =
     Inr ([\<lparr>shape = (2, 2), coo = [(0, 0, 1), (1, 1, 0)], boolean = True\<rparr>], [[(''a'', 0), (''b'', 1)]]) \<and>
   (\<exists>ancestor col.
      parent_at shallow_ontology ''b'' 0 = Inr ancestor \<and>
      dict_get [(''a'', 0), (''b'', 1)] ancestor = Inr col \<and>
      parent_at shallow_ontology ancestor 0 = Inr ''b'' \<and>
      [(0 :: int, 0 :: nat, 1 :: int), (1, 1, 0)] ! 1 = (1, col, 0))"
proof -
  have d: "distinct (map fst shallow_code_ids)" by (simp add: shallow_code_ids_def)
  have l: "0 < nat 1" by simp
  have k: "1 < length shallow_code_ids" by (simp add: shallow_code_ids_def)
  from setup_entry_value [OF shallow_setup d l k] obtain ancestor col where
    h: "parent_at shallow_ontology (fst (shallow_code_ids ! 1)) 0 = Inr ancestor"
       "dict_get ([[(''a'', 0), (''b'', 1)]] ! 0) ancestor = Inr col"
       "coo ([\<lparr>shape = (2, 2), coo = [(0, 0, 1), (1, 1, 0)], boolean = True\<rparr>] ! 0) ! 1 =
          (snd (shallow_code_ids ! 1), col,
           if False \<or> int 0 = 1 - 2 then 1
           else if parent_at shallow_ontology ancestor 0 = Inr (fst (shallow_code_ids ! 1)) then 0 else 1)"
    by blast
  have a: "ancestor = ''b''"
    using h(1) by (simp add: shallow_code_ids_def shallow_ontology_def parent_at_def list_get_def)
  have c: "col = 1"
    using h(2) a by (simp add: dict_get_def)
  have v: "[(0 :: int, 0 :: nat, 1 :: int), (1, 1, 0)] ! 1 = (1, col, 0)"
    using c by simp
  have p: "parent_at shallow_ontology ''b'' 0 = Inr ''b''"
    by (simp add: shallow_ontology_def parent_at_def list_get_def)
  have g: "dict_get [(''a'', 0), (''b'', 1)] ''b'' = Inr (1 :: nat)"
    by (simp add: dict_get_def)
  show ?thesis
    using shallow_setup p g v c by auto
qed

subsection \<open>When an entry is suppressed\<close>

text \<open>
  Claim C8, as stated, fails: with suppression active, the entry is not decided by the
  ancestor's parent at layer \<open>L + 1\<close>. For the leaf \<open>x\<close> of \<open>deep_ontology\<close>,
  \<open>max_layer = 3\<close> and layer 2, the ancestor is \<open>c\<close>, whose parent at index 3 (and
  also its immediate parent, at index 0) is the leaf \<open>x\<close>; the entry is 1.
\<close>

theorem suppression_next_layer_counterexample:
  "setup_matrices_by_layer (\<lambda>s. s) [(''x'', 0)] deep_ontology 3 False =
     Inr ([\<lparr>shape = (1, 1), coo = [(0, 0, 1)], boolean = True\<rparr>, \<lparr>shape = (1, 1), coo = [(0, 0, 1)], boolean = False\<rparr>,
           \<lparr>shape = (1, 1), coo = [(0, 0, 1)], boolean = True\<rparr>],
          [[(''a'', 0)], [(''b'', 0)], [(''c'', 0)]]) \<and>
   int 2 \<noteq> 3 - 2 \<and>
   parent_at deep_ontology ''x'' 2 = Inr ''c'' \<and>
   parent_at deep_ontology ''c'' (2 + 1) = Inr ''x'' \<and>
   parent_at deep_ontology ''c'' 0 = Inr ''x'' \<and>
   edge_value deep_ontology 3 False 2 ''x'' ''c'' = Inr 1 \<and>
   \<not> (edge_value deep_ontology 3 False 2 ''x'' ''c'' = Inr 0
        \<longleftrightarrow> parent_at deep_ontology ''c'' (2 + 1) = Inr ''x'')"
  using deep_setup
  by (simp add: deep_ontology_def parent_at_def list_get_def edge_value_def)

text \<open>
  Claim C8, amended. With suppression active (\<open>include_duplicates\<close> false and
  \<open>L \<noteq> max_layer - 2\<close>), the value of the entry for a leaf and its ancestor at layer
  \<open>L\<close> is 0 or 1, and it is 0 exactly when the entry at index \<open>L\<close> of the ancestor's
  own parent list (\<open>translation_dict[ancestor]["parents"][L]\<close>) is the leaf's code.
\<close>

theorem suppression_same_index:
  assumes "setup_matrices_by_layer enum code_ids td max_layer False = Inr (matrices, dicts)"
    and "distinct (map fst code_ids)"
    and "L < nat max_layer" and "k < length code_ids"
    and "int L \<noteq> max_layer - 2"
  shows "\<exists>ancestor col val.
           parent_at td (fst (code_ids ! k)) L = Inr ancestor \<and>
           dict_get (dicts ! L) ancestor = Inr col \<and>
           coo (matrices ! L) ! k = (snd (code_ids ! k), col, val) \<and>
           (val = 0 \<or> val = 1) \<and>
           (val = 0 \<longleftrightarrow> parent_at td ancestor L = Inr (fst (code_ids ! k)))"
proof -
  from setup_triple [OF assms(1-4)] obtain ancestor col val where
    h: "parent_at td (fst (code_ids ! k)) L = Inr ancestor"
       "dict_get (dicts ! L) ancestor = Inr col"
       "edge_value td max_layer False L (fst (code_ids ! k)) ancestor = Inr val"
       "coo (matrices ! L) ! k = (snd (code_ids ! k), col, val)"
    by blast
  have v: "val = (if parent_at td ancestor L = Inr (fst (code_ids ! k)) then 0 else 1)"
    using edge_value_Inr [OF h(3)] assms(5) by simp
  have "(val = 0 \<or> val = 1) \<and> (val = 0 \<longleftrightarrow> parent_at td ancestor L = Inr (fst (code_ids ! k)))"
    using v by simp
  then show ?thesis using h(1,2,4) by blast
qed

theorem suppression_same_index_witness:
  "setup_matrices_by_layer (\<lambda>s. s) [(''x'', 0)] deep_ontology 3 False =
     Inr ([\<lparr>shape = (1, 1), coo = [(0, 0, 1)], boolean = True\<rparr>, \<lparr>shape = (1, 1), coo = [(0, 0, 1)], boolean = False\<rparr>,
           \<lparr>shape = (1, 1), coo = [(0, 0, 1)], boolean = True\<rparr>],
          [[(''a'', 0)], [(''b'', 0)], [(''c'', 0)]]) \<and>
   int 2 \<noteq> 3 - 2 \<and>
   (\<exists>ancestor col val.
      parent_at deep_ontology ''x'' 2 = Inr ancestor \<and>
      dict_get [(''c'', 0 :: nat)] ancestor = Inr col \<and>
      [(0 :: int, 0 :: nat, 1 :: int)] ! 0 = (0, col, val) \<and>
      (val = 0 \<or> val = 1) \<and>
      (val = 0 \<longleftrightarrow> parent_at deep_ontology ancestor 2 = Inr ''x''))"
proof -
  have d: "distinct (map fst [(''x'', 0 :: int)])" by simp
  have l: "2 < nat 3" by simp
  have k: "0 < length [(''x'', 0 :: int)]" by simp
  have n: "int 2 \<noteq> 3 - 2" by simp
  from suppression_same_index [OF deep_setup d l k n]
  show ?thesis using deep_setup by simp
qed

subsection \<open>The dictionary of a layer\<close>

text \<open>
  Claim C9 says that the dictionary returned for a layer maps each index to its ancestor
  code. The code builds \<open>dict(zip(list(layer_codeset), layer_ranges))\<close>: the keys are
  the ancestor codes and the values are the indices. For the two leaves of
  \<open>shallow_code_ids\<close> the call returns the dictionary \<open>{"a": 0, "b": 1}\<close>; looking up
  the code \<open>"a"\<close> gives the index 0, and no index is a key.
\<close>

theorem layer_dict_maps_code_to_index:
  "setup_matrices_by_layer (\<lambda>s. s) [(''a.1'', 0), (''b'', 1)] shallow_ontology 1 True =
     Inr ([\<lparr>shape = (2, 2), coo = [(0, 0, 1), (1, 1, 1)], boolean = False\<rparr>], [[(''a'', 0), (''b'', 1)]]) \<and>
   dict_get [(''a'', 0 :: nat), (''b'', 1)] ''a'' = Inr 0 \<and>
   map fst [(''a'', 0 :: nat), (''b'', 1)] = [''a'', ''b'']"
  by (simp add: setup_matrices_by_layer_def layer_step_def shallow_ontology_def
      parent_at_def list_get_def set_add_def dict_get_def edge_value_def new_csr_matrix_def
      index_in_range_def)

subsection \<open>Row sums\<close>

lemma sum_indicator_distinct:
  "distinct xs \<Longrightarrow>
   sum_list (map (\<lambda>y. if y = x then (1 :: int) else 0) xs) = (if x \<in> set xs then 1 else 0)"
  by (induction xs) auto

lemma distinct_in_range_covers:
  fixes xs :: "int list"
  assumes "distinct xs" and "set xs \<subseteq> {0..<int (length xs)}"
  shows "set xs = {0..<int (length xs)}"
proof -
  have "card (set xs) = length xs" using assms(1) by (simp add: distinct_card)
  moreover have "card {0..<int (length xs)} = length xs" by simp
  ultimately show ?thesis using assms(2) by (simp add: card_subset_eq)
qed

lemma values_over_columns:
  assumes "list_all (\<lambda>(r, c, v). c < n) ts"
  shows "sum_list (map (\<lambda>j. sum_list (map (\<lambda>(r, c, v). v)
                                     (filter (\<lambda>(r, c, v). r = x \<and> c = j) ts))) [0..<n])
           = sum_list (map (\<lambda>(r, c, v). if r = x then (v :: int) else 0) ts)"
  using assms
proof (induction ts)
  case Nil
  then show ?case by simp
next
  case (Cons t ts)
  obtain r c v where t: "t = (r, c, v)" by (cases t) auto
  have c: "c < n" using Cons.prems t by simp
  have one: "sum_list (map (\<lambda>j. if r = x \<and> c = j then v else 0) [0..<n]) = (if r = x then v else 0)"
    using c by (simp add: interv_sum_list_conv_sum_set_nat)
  have "sum_list (map (\<lambda>j. sum_list (map (\<lambda>(r, c, v). v)
                                     (filter (\<lambda>(r, c, v). r = x \<and> c = j) (t # ts)))) [0..<n])
        = sum_list (map (\<lambda>j. (if r = x \<and> c = j then v else 0) +
                                sum_list (map (\<lambda>(r, c, v). v)
                                     (filter (\<lambda>(r, c, v). r = x \<and> c = j) ts))) [0..<n])"
    by (intro arg_cong [where f = sum_list] map_cong) (simp_all add: t)
  also have "\<dots> = (if r = x then v else 0) +
        sum_list (map (\<lambda>j. sum_list (map (\<lambda>(r, c, v). v)
                                     (filter (\<lambda>(r, c, v). r = x \<and> c = j) ts))) [0..<n])"
    by (simp add: sum_list_addf one)
  finally show ?case using Cons t by simp
qed

lemma csr_row_sum_triples:
  assumes "\<not> boolean m" and "list_all (index_in_range (shape m)) (coo m)"
  shows "csr_row_sum m i = sum_list (map (\<lambda>(r, c, v). if r = int i then v else 0) (coo m))"
proof -
  have "list_all (\<lambda>(r, c, v). c < snd (shape m)) (coo m)"
    using assms(2) by (auto simp: list_all_iff index_in_range_def)
  note cols = values_over_columns [OF this, of "int i"]
  have "csr_row_sum m i =
          sum_list (map (\<lambda>j. sum_list (map (\<lambda>(r, c, v). v)
                                     (filter (\<lambda>(r, c, v). r = int i \<and> c = j) (coo m))))
                        [0..<snd (shape m)])"
    unfolding csr_row_sum_def
    by (intro arg_cong [where f = sum_list] map_cong)
       (simp_all add: csr_at_def csr_values_at_def assms(1))
  then show ?thesis using cols by simp
qed

lemma edge_value_incl: "edge_value td max_layer True layer c ancestor = Inr 1"
  by (simp add: edge_value_def)

lemma flat_setup_two_layers:
  "setup_matrices_by_layer rev flat_code_ids flat_ontology 2 True =
     Inr ([\<lparr>shape = (3, 3), coo = [(0, 2, 1), (1, 1, 1), (2, 0, 1)], boolean = False\<rparr>,
           \<lparr>shape = (3, 2), coo = [(0, 1, 1), (1, 1, 1), (2, 0, 1)], boolean = False\<rparr>],
          [[(''c'', 0), (''b'', 1), (''a'', 2)], [(''CD'', 0), (''AB'', 1)]])"
proof -
  have u: "[0..<nat 2] = [0, 1]" by (simp add: upt_rec)
  show ?thesis
    unfolding setup_matrices_by_layer_def u
    by (simp add: layer_step_def flat_ontology_def flat_code_ids_def parent_at_def list_get_def
        set_add_def dict_get_def edge_value_def new_csr_matrix_def index_in_range_def)
qed

text \<open>
  Claim C7. The leaf dictionary is a code index map of the specification: no two leaves
  share an index. When \<open>include_duplicates\<close> is true and the call returns, every row
  \<open>i\<close> of every returned matrix (the \<open>L\<close>-th of the list, for every \<open>L\<close>)
  sums to 1.
\<close>

theorem row_sums_one:
  assumes "setup_matrices_by_layer enum code_ids td max_layer True = Inr (matrices, dicts)"
    and "distinct (map fst code_ids)" and "distinct (map snd code_ids)"
    and "L < length matrices" and "i < fst (shape (matrices ! L))"
  shows "csr_row_sum (matrices ! L) i = 1"
proof -
  let ?m = "matrices ! L"
  have layer: "L < nat max_layer" using setup_layer(1) [OF assms(1)] assms(4) by simp
  have step: "layer_step enum code_ids td max_layer True L = Inr (?m, dicts ! L)"
    using setup_layer(3) [OF assms(1) layer] .
  have fill: "fill_triples code_ids td max_layer True L (dicts ! L) (map fst code_ids) = Inr (coo ?m)"
    using layer_step_Inr(2) [OF step] .
  have len: "length (coo ?m) = length code_ids"
    using fill_triples_nth [OF fill] by simp
  have sh: "fst (shape ?m) = length code_ids"
    using layer_step_Inr(3) [OF step] len by simp
  have nth: "\<exists>col. coo ?m ! k = (snd (code_ids ! k), col, 1)" if "k < length code_ids" for k
    using setup_triple [OF assms(1,2) layer that] by (auto simp: edge_value_incl)
  have rng: "set (map snd code_ids) \<subseteq> {0..<int (length (map snd code_ids))}"
  proof
    fix x assume "x \<in> set (map snd code_ids)"
    then obtain k where k: "k < length code_ids" "x = snd (code_ids ! k)"
      by (auto simp: in_set_conv_nth)
    from nth [OF k(1)] obtain col where t: "coo ?m ! k = (x, col, 1)" using k(2) by auto
    have "coo ?m ! k \<in> set (coo ?m)" using k(1) len by simp
    then have "index_in_range (shape ?m) (coo ?m ! k)"
      using layer_step_Inr(4) [OF step] by (simp add: list_all_iff)
    then show "x \<in> {0..<int (length (map snd code_ids))}"
      using t sh by (simp add: index_in_range_def)
  qed
  have mem: "int i \<in> set (map snd code_ids)"
    using distinct_in_range_covers [OF assms(3) rng] assms(5) sh by simp
  have "map (\<lambda>(r, c, v). if r = int i then v else 0) (coo ?m)
          = map (\<lambda>y. if y = int i then 1 else 0) (map snd code_ids)"
  proof (rule nth_equalityI)
    show "length (map (\<lambda>(r, c, v). if r = int i then v else 0) (coo ?m))
            = length (map (\<lambda>y. if y = int i then (1 :: int) else 0) (map snd code_ids))"
      using len by simp
  next
    fix k assume "k < length (map (\<lambda>(r, c, v). if r = int i then v else 0) (coo ?m))"
    then have k: "k < length code_ids" using len by simp
    from nth [OF k] obtain col where "coo ?m ! k = (snd (code_ids ! k), col, 1)" by blast
    then show "map (\<lambda>(r, c, v). if r = int i then v else 0) (coo ?m) ! k
            = map (\<lambda>y. if y = int i then 1 else 0) (map snd code_ids) ! k"
      using k len by simp
  qed
  moreover have "csr_row_sum ?m i = sum_list (map (\<lambda>(r, c, v). if r = int i then v else 0) (coo ?m))"
    using csr_row_sum_triples [OF _ layer_step_Inr(4) [OF step]] layer_step_Inr(5) [OF step] by simp
  ultimately have "csr_row_sum ?m i = sum_list (map (\<lambda>y. if y = int i then 1 else 0) (map snd code_ids))"
    by simp
  also have "\<dots> = 1"
    using sum_indicator_distinct [OF assms(3), of "int i"] mem by simp
  finally show ?thesis .
qed

theorem row_sums_one_witness:
  "setup_matrices_by_layer rev flat_code_ids flat_ontology 2 True =
     Inr ([\<lparr>shape = (3, 3), coo = [(0, 2, 1), (1, 1, 1), (2, 0, 1)], boolean = False\<rparr>,
           \<lparr>shape = (3, 2), coo = [(0, 1, 1), (1, 1, 1), (2, 0, 1)], boolean = False\<rparr>],
          [[(''c'', 0), (''b'', 1), (''a'', 2)], [(''CD'', 0), (''AB'', 1)]]) \<and>
   distinct (map fst flat_code_ids) \<and> distinct (map snd flat_code_ids) \<and>
   csr_row_sum \<lparr>shape = (3, 2), coo = [(0, 1, 1), (1, 1, 1), (2, 0, 1)], boolean = False\<rparr> 2 = 1"
proof -
  have d1: "distinct (map fst flat_code_ids)" by (simp add: flat_code_ids_def)
  have d2: "distinct (map snd flat_code_ids)" by (simp add: flat_code_ids_def)
  have l: "1 < length [\<lparr>shape = (3, 3), coo = [(0 :: int, 2 :: nat, 1 :: int), (1, 1, 1), (2, 0, 1)], boolean = False\<rparr>,
           \<lparr>shape = (3, 2), coo = [(0, 1, 1), (1, 1, 1), (2, 0, 1)], boolean = False\<rparr>]" by simp
  have i: "2 < fst (shape ([\<lparr>shape = (3, 3), coo = [(0, 2, 1), (1, 1, 1), (2, 0, 1)], boolean = False\<rparr>,
           \<lparr>shape = (3, 2), coo = [(0, 1, 1), (1, 1, 1), (2, 0, 1)], boolean = False\<rparr>] ! 1))" by simp
  from row_sums_one [OF flat_setup_two_layers d1 d2 l i]
  show ?thesis using flat_setup_two_layers d1 d2 by simp
qed

subsection \<open>Lookups of the ancestors themselves\<close>

lemma parent_at_Inr_iff: "(\<exists>a. parent_at td c L = Inr a) \<longleftrightarrow> has_parents_beyond td c L"
  by (auto simp: parent_at_def has_parents_beyond_def list_get_def split: option.splits)

lemma parent_at_Inl: "parent_at td c L = Inl e \<Longrightarrow> is_LookupError e"
  by (auto simp: parent_at_def is_LookupError_def list_get_def split: option.splits if_splits)

lemma collect_codeset_ok:
  assumes "\<forall>c \<in> set cs. has_parents_beyond td c L" and "distinct s0"
  shows "\<exists>s. collect_codeset td L cs s0 = Inr s \<and> distinct s \<and>
             set s = set s0 \<union> {a. \<exists>c \<in> set cs. parent_at td c L = Inr a}"
  using assms
proof (induction cs arbitrary: s0)
  case Nil
  then show ?case by simp
next
  case (Cons c cs)
  from Cons.prems(1) obtain a where a: "parent_at td c L = Inr a"
    using parent_at_Inr_iff [of td c L] by auto
  have d: "distinct (set_add s0 a)" using Cons.prems(2) by (simp add: set_add_def)
  have "\<forall>c \<in> set cs. has_parents_beyond td c L" using Cons.prems(1) by simp
  from Cons.IH [OF this d] obtain s where
    s: "collect_codeset td L cs (set_add s0 a) = Inr s" "distinct s"
       "set s = set (set_add s0 a) \<union> {a. \<exists>c \<in> set cs. parent_at td c L = Inr a}"
    by blast
  have "set (set_add s0 a) = insert a (set s0)" by (auto simp: set_add_def)
  then have "set s = set s0 \<union> {b. \<exists>c' \<in> set (c # cs). parent_at td c' L = Inr b}"
    using s(3) a by auto
  then show ?case using s(1,2) a by simp
qed

lemma edge_value_outcome:
  "edge_value td max_layer False L c a =
     (if int L = max_layer - 2 then Inr 1
      else case parent_at td a L of Inl e \<Rightarrow> Inl e | Inr d \<Rightarrow> Inr (if d \<noteq> c then 1 else 0))"
  by (simp add: edge_value_def Let_def split: sum.splits)

lemma fill_triples_outcome:
  assumes "\<forall>c \<in> set cs. \<exists>row a col. dict_get code_ids c = Inr row \<and> parent_at td c L = Inr a \<and>
              dict_get lid a = Inr col"
  shows "(int L = max_layer - 2 \<or> (\<forall>c \<in> set cs. \<forall>a. parent_at td c L = Inr a \<longrightarrow> has_parents_beyond td a L)
            \<longrightarrow> (\<exists>ts. fill_triples code_ids td max_layer False L lid cs = Inr ts)) \<and>
         (\<not> (int L = max_layer - 2 \<or> (\<forall>c \<in> set cs. \<forall>a. parent_at td c L = Inr a \<longrightarrow> has_parents_beyond td a L))
            \<longrightarrow> (\<exists>e. fill_triples code_ids td max_layer False L lid cs = Inl e \<and> is_LookupError e))"
  using assms
proof (induction cs)
  case Nil
  then show ?case by simp
next
  case (Cons c cs)
  from Cons.prems obtain row a col where
    h: "dict_get code_ids c = Inr row" "parent_at td c L = Inr a" "dict_get lid a = Inr col"
    by auto
  have rest: "\<forall>c \<in> set cs. \<exists>row a col. dict_get code_ids c = Inr row \<and> parent_at td c L = Inr a \<and>
              dict_get lid a = Inr col" using Cons.prems by simp
  note ih = Cons.IH [OF rest]
  show ?case
  proof (cases "int L = max_layer - 2")
    case True
    then show ?thesis using ih h by (auto simp: edge_value_outcome)
  next
    case False
    show ?thesis
    proof (cases "parent_at td a L")
      case (Inl e)
      then have "\<not> has_parents_beyond td a L" using parent_at_Inr_iff [of td a L] by auto
      moreover have "is_LookupError e" using Inl by (rule parent_at_Inl)
      ultimately show ?thesis using h False Inl by (auto simp: edge_value_outcome)
    next
      case (Inr d)
      then have g: "has_parents_beyond td a L" using parent_at_Inr_iff [of td a L] by auto
      show ?thesis
      proof (cases "\<forall>c \<in> set cs. \<forall>a. parent_at td c L = Inr a \<longrightarrow> has_parents_beyond td a L")
        case True
        then obtain ts where "fill_triples code_ids td max_layer False L lid cs = Inr ts"
          using ih by blast
        then show ?thesis using h False Inr g True by (auto simp: edge_value_outcome)
      next
        case nb: False
        then obtain e where "fill_triples code_ids td max_layer False L lid cs = Inl e" "is_LookupError e"
          using ih False by blast
        then show ?thesis using h False Inr nb by (auto simp: edge_value_outcome)
      qed
    qed
  qed
qed

lemma ancestors_have_parents_iff:
  "ancestors_have_parents td code_ids L \<longleftrightarrow>
     (\<forall>c \<in> set (map fst code_ids). \<forall>a. parent_at td c L = Inr a \<longrightarrow> has_parents_beyond td a L)"
  by (auto simp: ancestors_have_parents_def list_all_iff split: sum.splits)

lemma enum_length: "set_enumeration enum \<Longrightarrow> distinct s \<Longrightarrow> length (enum s) = length s"
  by (metis distinct_card set_enumeration_def)

lemma layer_dict_lookup:
  assumes "set_enumeration enum" and "distinct s" and "a \<in> set s"
  shows "\<exists>j < length s. dict_get (zip (enum s) [0..<length s]) a = Inr j \<and> enum s ! j = a"
proof -
  have l: "length (enum s) = length s" using enum_length [OF assms(1,2)] .
  have d: "distinct (enum s)" using assms(1,2) by (simp add: set_enumeration_def)
  have "a \<in> set (enum s)" using assms by (simp add: set_enumeration_def)
  then obtain j where j: "j < length (enum s)" "enum s ! j = a" by (auto simp: in_set_conv_nth)
  have "map_of (zip (enum s) [0..<length s]) (enum s ! j) = Some ([0..<length s] ! j)"
    using map_of_zip_nth [of "enum s" "[0..<length s]" j] l d j(1) by simp
  then have "dict_get (zip (enum s) [0..<length s]) a = Inr j"
    using j l by (simp add: dict_get_def)
  then show ?thesis using j l by auto
qed

lemma layer_dict_lookup_sound:
  assumes "set_enumeration enum" and "distinct s"
    and "dict_get (zip (enum s) [0..<length s]) a = Inr j"
  shows "j < length s \<and> enum s ! j = a"
proof -
  have l: "length (enum s) = length s" using enum_length [OF assms(1,2)] .
  have "map_of (zip (enum s) [0..<length s]) a = Some j"
    using assms(3) by (simp add: dict_get_def split: option.splits)
  then have "(a, j) \<in> set (zip (enum s) [0..<length s])" by (rule map_of_SomeD)
  then obtain i where "i < length (zip (enum s) [0..<length s])"
    "zip (enum s) [0..<length s] ! i = (a, j)" by (auto simp: in_set_conv_nth)
  then show ?thesis using l by auto
qed

lemma columns_cover:
  assumes en: "set_enumeration enum" and ds: "distinct s"
    and anc: "set s = {a. \<exists>c \<in> set cs. parent_at td c L = Inr a}"
    and fill: "fill_triples code_ids td max_layer incl L (zip (enum s) [0..<length s]) cs = Inr ts"
  shows "set (map (\<lambda>(r, c, v). c) ts) = {0..<length s}"
proof -
  let ?lid = "zip (enum s) [0..<length s]"
  note nth = fill_triples_nth [OF fill]
  have len: "length ts = length cs" using nth by simp
  show ?thesis
  proof (intro equalityI subsetI)
    fix x assume "x \<in> set (map (\<lambda>(r, c, v). c) ts)"
    then obtain k where k: "k < length ts" "x = (\<lambda>(r, c, v). c) (ts ! k)"
      by (auto simp: in_set_conv_nth)
    then have "k < length cs" using len by simp
    with nth obtain row a col val where
      h: "dict_get ?lid a = Inr col" "ts ! k = (row, col, val)" by blast
    then have "col < length s" using layer_dict_lookup_sound [OF en ds h(1)] by simp
    then show "x \<in> {0..<length s}" using k(2) h(2) by simp
  next
    fix j assume "j \<in> {0..<length s}"
    then have j: "j < length s" by simp
    have l: "length (enum s) = length s" using enum_length [OF en ds] .
    have "enum s ! j \<in> set (enum s)" using j l by simp
    then have "enum s ! j \<in> set s" using en ds by (simp add: set_enumeration_def)
    then obtain c where c: "c \<in> set cs" "parent_at td c L = Inr (enum s ! j)" using anc by auto
    then obtain k where k: "k < length cs" "cs ! k = c" by (auto simp: in_set_conv_nth)
    with nth obtain row a col val where
      h: "parent_at td (cs ! k) L = Inr a" "dict_get ?lid a = Inr col" "ts ! k = (row, col, val)"
      by blast
    have a: "a = enum s ! j" using h(1) k(2) c(2) by simp
    have "enum s ! col = enum s ! j" "col < length s"
      using layer_dict_lookup_sound [OF en ds h(2)] a by auto
    moreover have "distinct (enum s)" using en ds by (simp add: set_enumeration_def)
    ultimately have "col = j" using j l by (simp add: nth_eq_iff_index_eq)
    then have "(\<lambda>(r, c, v). c) (ts ! k) = j" using h(3) by simp
    moreover have "k < length ts" using k(1) len by simp
    ultimately show "j \<in> set (map (\<lambda>(r, c, v). c) ts)"
      by (metis (no_types, lifting) in_set_conv_nth length_map nth_map)
  qed
qed

lemma layer_step_outcome:
  assumes en: "set_enumeration enum" and dk: "distinct (map fst code_ids)"
    and rng: "list_all (\<lambda>(c, i). 0 \<le> i \<and> i < int (length code_ids)) code_ids"
    and chains: "\<forall>c \<in> set (map fst code_ids). has_parents_beyond td c L"
  shows "(int L = max_layer - 2 \<or> ancestors_have_parents td code_ids L
            \<longrightarrow> (\<exists>m d. layer_step enum code_ids td max_layer False L = Inr (m, d))) \<and>
         (\<not> (int L = max_layer - 2 \<or> ancestors_have_parents td code_ids L)
            \<longrightarrow> (\<exists>e. layer_step enum code_ids td max_layer False L = Inl e \<and> is_LookupError e))"
proof -
  let ?cs = "map fst code_ids"
  from collect_codeset_ok [OF chains, of "[]"] obtain s where
    s: "collect_codeset td L ?cs [] = Inr s" "distinct s"
       "set s = {a. \<exists>c \<in> set ?cs. parent_at td c L = Inr a}" by auto
  let ?lid = "zip (enum s) [0..<length s]"
  have pre: "\<forall>c \<in> set ?cs. \<exists>row a col. dict_get code_ids c = Inr row \<and> parent_at td c L = Inr a \<and>
              dict_get ?lid a = Inr col"
  proof
    fix c assume c: "c \<in> set ?cs"
    then obtain k where k: "k < length code_ids" "c = fst (code_ids ! k)"
      by (auto simp: in_set_conv_nth)
    have r: "dict_get code_ids c = Inr (snd (code_ids ! k))"
      using dict_get_own_key [OF dk k(1)] k(2) by simp
    from chains c obtain a where a: "parent_at td c L = Inr a"
      using parent_at_Inr_iff [of td c L] by auto
    then have "a \<in> set s" using s(3) c by auto
    from layer_dict_lookup [OF en s(2) this] obtain j where "dict_get ?lid a = Inr j" by blast
    then show "\<exists>row a col. dict_get code_ids c = Inr row \<and> parent_at td c L = Inr a \<and>
              dict_get ?lid a = Inr col" using r a by blast
  qed
  note out = fill_triples_outcome [OF pre, of max_layer, unfolded ancestors_have_parents_iff [symmetric]]
  show ?thesis
  proof (cases "int L = max_layer - 2 \<or> ancestors_have_parents td code_ids L")
    case True
    then obtain ts where ts: "fill_triples code_ids td max_layer False L ?lid ?cs = Inr ts"
      using out by blast
    note nth = fill_triples_nth [OF ts]
    have len: "length ts = length code_ids" using nth by simp
    have cols: "set (map (\<lambda>(r, c, v). c) ts) = {0..<length s}"
      using columns_cover [OF en s(2) s(3) ts] .
    have ncols: "length (remdups (map (\<lambda>(r, c, v). c) ts)) = length s"
      using cols by (simp add: length_remdups_card_conv)
    have "index_in_range (length ts, length s) t" if "t \<in> set ts" for t
    proof -
      from that obtain k where k: "k < length ts" "t = ts ! k" by (auto simp: in_set_conv_nth)
      then have kc: "k < length code_ids" using len by simp
      with nth obtain row a col val where
        h: "dict_get code_ids (?cs ! k) = Inr row" "ts ! k = (row, col, val)" by auto
      have "row = snd (code_ids ! k)" using h(1) dict_get_own_key [OF dk kc] kc by simp
      moreover have "code_ids ! k \<in> set code_ids" using kc by simp
      ultimately have r: "0 \<le> row \<and> row < int (length code_ids)"
        using rng by (auto simp: list_all_iff)
      have "(\<lambda>(r, c, v). c) t \<in> set (map (\<lambda>(r, c, v). c) ts)" using that by simp
      then have "col < length s" using cols k(2) h(2) by simp
      then show ?thesis using r k(2) h(2) len by (simp add: index_in_range_def)
    qed
    then have "list_all (index_in_range (length ts, length s)) ts" by (simp add: list_all_iff)
    then have "\<exists>m d. layer_step enum code_ids td max_layer False L = Inr (m, d)"
      using s(1) ts ncols by (simp add: layer_step_def new_csr_matrix_def)
    then show ?thesis using True by simp
  next
    case False
    then obtain e where "fill_triples code_ids td max_layer False L ?lid ?cs = Inl e" "is_LookupError e"
      using out by blast
    then have "layer_step enum code_ids td max_layer False L = Inl e \<and> is_LookupError e"
      using s(1) by (simp add: layer_step_def)
    then show ?thesis using False by blast
  qed
qed

lemma layers_loop_outcome:
  assumes "\<forall>l \<in> set ls.
      (G l \<longrightarrow> (\<exists>m d. layer_step enum code_ids td max_layer incl l = Inr (m, d))) \<and>
      (\<not> G l \<longrightarrow> (\<exists>e. layer_step enum code_ids td max_layer incl l = Inl e \<and> is_LookupError e))"
  shows "((\<forall>l \<in> set ls. G l) \<longrightarrow> (\<exists>ms ds. layers_loop enum code_ids td max_layer incl ls = Inr (ms, ds))) \<and>
         ((\<exists>l \<in> set ls. \<not> G l) \<longrightarrow>
            (\<exists>e. layers_loop enum code_ids td max_layer incl ls = Inl e \<and> is_LookupError e))"
  using assms
proof (induction ls)
  case Nil
  then show ?case by simp
next
  case (Cons l ls)
  then have ih: "((\<forall>l \<in> set ls. G l) \<longrightarrow> (\<exists>ms ds. layers_loop enum code_ids td max_layer incl ls = Inr (ms, ds))) \<and>
         ((\<exists>l \<in> set ls. \<not> G l) \<longrightarrow>
            (\<exists>e. layers_loop enum code_ids td max_layer incl ls = Inl e \<and> is_LookupError e))"
    by simp
  show ?case
  proof (cases "G l")
    case False
    then obtain e where "layer_step enum code_ids td max_layer incl l = Inl e" "is_LookupError e"
      using Cons.prems by auto
    then show ?thesis using False by auto
  next
    case True
    then obtain m d where st: "layer_step enum code_ids td max_layer incl l = Inr (m, d)"
      using Cons.prems by auto
    show ?thesis
    proof (cases "\<forall>l \<in> set ls. G l")
      case all: True
      then obtain ms ds where "layers_loop enum code_ids td max_layer incl ls = Inr (ms, ds)"
        using ih by blast
      then show ?thesis using st True all by auto
    next
      case False
      then obtain e where "layers_loop enum code_ids td max_layer incl ls = Inl e" "is_LookupError e"
        using ih by blast
      then show ?thesis using st False by auto
    qed
  qed
qed

lemma flat_setup_fails:
  "setup_matrices_by_layer (\<lambda>s. s) flat_code_ids flat_ontology 1 False = Inl KeyError"
  by (simp add: setup_matrices_by_layer_def layer_step_def flat_ontology_def flat_code_ids_def
      parent_at_def list_get_def set_add_def dict_get_def edge_value_def)

text \<open>
  Claim C10. Let \<open>include_duplicates\<close> be false, and let every leaf have a parent at
  every layer below \<open>max_layer\<close> (and the leaf dictionary give each leaf a row index
  in range, and the set enumeration list each element once, so that nothing else can
  fail). If at some layer \<open>L\<close> other than \<open>max_layer - 2\<close> some leaf's ancestor is
  not a key of the dictionary with a parents list longer than \<open>L\<close>, the call raises a
  \<open>LookupError\<close>; if there is no such layer, the call returns.
\<close>

theorem ancestor_lookup_error:
  assumes "set_enumeration enum" and "distinct (map fst code_ids)"
    and "list_all (\<lambda>(c, i). 0 \<le> i \<and> i < int (length code_ids)) code_ids"
    and "\<forall>L < nat max_layer. \<forall>c \<in> set (map fst code_ids). has_parents_beyond td c L"
  shows "((\<exists>L < nat max_layer. int L \<noteq> max_layer - 2 \<and> \<not> ancestors_have_parents td code_ids L) \<longrightarrow>
            (\<exists>e. setup_matrices_by_layer enum code_ids td max_layer False = Inl e \<and> is_LookupError e)) \<and>
         ((\<forall>L < nat max_layer. int L = max_layer - 2 \<or> ancestors_have_parents td code_ids L) \<longrightarrow>
            (\<exists>matrices dicts. setup_matrices_by_layer enum code_ids td max_layer False = Inr (matrices, dicts)))"
proof -
  let ?G = "\<lambda>L. int L = max_layer - 2 \<or> ancestors_have_parents td code_ids L"
  have "\<forall>l \<in> set [0..<nat max_layer].
      (?G l \<longrightarrow> (\<exists>m d. layer_step enum code_ids td max_layer False l = Inr (m, d))) \<and>
      (\<not> ?G l \<longrightarrow> (\<exists>e. layer_step enum code_ids td max_layer False l = Inl e \<and> is_LookupError e))"
  proof
    fix l assume "l \<in> set [0..<nat max_layer]"
    then have "\<forall>c \<in> set (map fst code_ids). has_parents_beyond td c l" using assms(4) by simp
    from layer_step_outcome [OF assms(1,2,3) this, of max_layer]
    show "(?G l \<longrightarrow> (\<exists>m d. layer_step enum code_ids td max_layer False l = Inr (m, d))) \<and>
      (\<not> ?G l \<longrightarrow> (\<exists>e. layer_step enum code_ids td max_layer False l = Inl e \<and> is_LookupError e))" .
  qed
  from layers_loop_outcome [of "[0..<nat max_layer]" ?G, OF this]
  show ?thesis unfolding setup_matrices_by_layer_def by auto
qed

theorem ancestor_lookup_error_witness:
  "setup_matrices_by_layer (\<lambda>s. s) flat_code_ids flat_ontology 1 False = Inl KeyError \<and>
   is_LookupError KeyError \<and>
   \<not> ancestors_have_parents flat_ontology flat_code_ids 0 \<and>
   ancestors_have_parents shallow_ontology shallow_code_ids 0 \<and>
   (\<exists>matrices dicts.
      setup_matrices_by_layer (\<lambda>s. s) shallow_code_ids shallow_ontology 1 False = Inr (matrices, dicts))"
proof -
  have en: "set_enumeration (\<lambda>s. s)" by (simp add: set_enumeration_def)
  have d1: "distinct (map fst flat_code_ids)" by (simp add: flat_code_ids_def)
  have r1: "list_all (\<lambda>(c, i). 0 \<le> i \<and> i < int (length flat_code_ids)) flat_code_ids"
    by (simp add: flat_code_ids_def)
  have c1: "\<forall>L < nat 1. \<forall>c \<in> set (map fst flat_code_ids). has_parents_beyond flat_ontology c L"
    by (simp add: flat_code_ids_def flat_ontology_def has_parents_beyond_def)
  have b1: "\<not> ancestors_have_parents flat_ontology flat_code_ids 0"
    by (simp add: ancestors_have_parents_def flat_code_ids_def flat_ontology_def
        has_parents_beyond_def parent_at_def list_get_def)
  then have "\<exists>L < nat 1. int L \<noteq> 1 - 2 \<and> \<not> ancestors_have_parents flat_ontology flat_code_ids L"
    by simp
  with ancestor_lookup_error [OF en d1 r1 c1] obtain e where
    e: "setup_matrices_by_layer (\<lambda>s. s) flat_code_ids flat_ontology 1 False = Inl e" "is_LookupError e"
    by blast
  have d2: "distinct (map fst shallow_code_ids)" by (simp add: shallow_code_ids_def)
  have r2: "list_all (\<lambda>(c, i). 0 \<le> i \<and> i < int (length shallow_code_ids)) shallow_code_ids"
    by (simp add: shallow_code_ids_def)
  have c2: "\<forall>L < nat 1. \<forall>c \<in> set (map fst shallow_code_ids). has_parents_beyond shallow_ontology c L"
    by (simp add: shallow_code_ids_def shallow_ontology_def has_parents_beyond_def)
  have g2: "ancestors_have_parents shallow_ontology shallow_code_ids 0"
    by (simp add: ancestors_have_parents_def shallow_code_ids_def shallow_ontology_def
        has_parents_beyond_def parent_at_def list_get_def)
  then have "\<forall>L < nat 1. int L = 1 - 2 \<or> ancestors_have_parents shallow_ontology shallow_code_ids L"
    by simp
  with ancestor_lookup_error [OF en d2 r2 c2] have
    ok: "\<exists>matrices dicts.
      setup_matrices_by_layer (\<lambda>s. s) shallow_code_ids shallow_ontology 1 False = Inr (matrices, dicts)"
    by blast
  show ?thesis using e flat_setup_fails b1 g2 ok by simp
qed

section \<open>Properties of the counts and the reports\<close>

subsection \<open>Sums over the axes of a matrix\<close>

lemma well_shaped_row: "well_shaped a \<Longrightarrow> i < nrows a \<Longrightarrow> length (elems a ! i) = ncols a"
  by (simp add: well_shaped_def list_all_length)

lemma sum_over_cong:
  "(\<And>i j. i < d \<Longrightarrow> j < n \<Longrightarrow> f i j = g i j) \<Longrightarrow> sum_over ax d n f = sum_over ax d n g"
  by (cases ax) (simp_all add: sum_over_def)

lemma foldr_column_sums:
  fixes rows :: "'a :: comm_monoid_add list list"
  assumes "\<forall>r \<in> set rows. length r = n"
  shows "foldr (map2 (+)) rows (replicate n 0) =
           map (\<lambda>j. \<Sum>i = 0..<length rows. rows ! i ! j) [0..<n]"
  using assms
proof (induction rows)
  case Nil
  then show ?case by (simp add: map_replicate_const)
next
  case (Cons r rows)
  then have ih: "foldr (map2 (+)) rows (replicate n 0) =
           map (\<lambda>j. \<Sum>i = 0..<length rows. rows ! i ! j) [0..<n]" and r: "length r = n"
    by simp_all
  show ?case
  proof (rule nth_equalityI)
    show "length (foldr (map2 (+)) (r # rows) (replicate n 0)) =
          length (map (\<lambda>j. \<Sum>i = 0..<length (r # rows). (r # rows) ! i ! j) [0..<n])"
      using ih r by simp
  next
    fix j assume "j < length (foldr (map2 (+)) (r # rows) (replicate n 0))"
    then have j: "j < n" using ih r by simp
    have "(\<Sum>i = 0..<Suc (length rows). (r # rows) ! i ! j) =
          r ! j + (\<Sum>i = 0..<length rows. rows ! i ! j)"
      by (simp add: sum.atLeast0_lessThan_Suc_shift del: sum.op_ivl_Suc)
    then show "foldr (map2 (+)) (r # rows) (replicate n 0) ! j =
          map (\<lambda>j. \<Sum>i = 0..<length (r # rows). (r # rows) ! i ! j) [0..<n] ! j"
      using ih r j by simp
  qed
qed

lemma np_sum_sum_over:
  assumes "well_shaped a"
  shows "np_sum a ax = sum_over ax (nrows a) (ncols a) (\<lambda>i j. elems a ! i ! j)"
proof (cases ax)
  case Axis0
  have "\<forall>r \<in> set (elems a). length r = ncols a"
    using assms by (simp add: well_shaped_def list_all_iff)
  from foldr_column_sums [OF this] show ?thesis
    using Axis0 assms by (simp add: sum_over_def well_shaped_def)
next
  case Axis1
  have "map sum_list (elems a) = map (\<lambda>i. \<Sum>j = 0..<ncols a. elems a ! i ! j) [0..<nrows a]"
  proof (rule nth_equalityI)
    show "length (map sum_list (elems a)) =
          length (map (\<lambda>i. \<Sum>j = 0..<ncols a. elems a ! i ! j) [0..<nrows a])"
      using assms by (simp add: well_shaped_def)
  next
    fix i assume "i < length (map sum_list (elems a))"
    then have i: "i < nrows a" using assms by (simp add: well_shaped_def)
    then have "length (elems a ! i) = ncols a" using well_shaped_row [OF assms] by simp
    then show "map sum_list (elems a) ! i =
          map (\<lambda>i. \<Sum>j = 0..<ncols a. elems a ! i ! j) [0..<nrows a] ! i"
      using i assms sum_list_sum_nth [of "elems a ! i"] by (simp add: well_shaped_def)
  qed
  then show ?thesis using Axis1 by (simp add: sum_over_def)
next
  case Axes01
  have "sum_list (map sum_list (elems a)) = (\<Sum>i = 0..<nrows a. sum_list (elems a ! i))"
    using assms sum_list_sum_nth [of "map sum_list (elems a)"] by (simp add: well_shaped_def)
  also have "\<dots> = (\<Sum>i = 0..<nrows a. \<Sum>j = 0..<ncols a. elems a ! i ! j)"
  proof (rule sum.cong)
    fix i assume "i \<in> {0..<nrows a}"
    then have "length (elems a ! i) = ncols a" using well_shaped_row [OF assms] by simp
    then show "sum_list (elems a ! i) = (\<Sum>j = 0..<ncols a. elems a ! i ! j)"
      using sum_list_sum_nth [of "elems a ! i"] by simp
  qed simp
  finally show ?thesis using Axes01 by (simp add: sum_over_def)
qed

lemma broadcast_dim_same: "broadcast_dim m m = Some m"
  by (simp add: broadcast_dim_def)

lemma broadcast_to_same: "broadcast_to (nrows a) (ncols a) a = elems a"
  by (simp add: broadcast_to_def)

lemma np_binary_same_shape:
  assumes "well_shaped a" and "well_shaped b" and "nrows b = nrows a" and "ncols b = ncols a"
  shows "\<exists>c. np_binary f a b = Inr c \<and> well_shaped c \<and> nrows c = nrows a \<and> ncols c = ncols a \<and>
             (\<forall>i < nrows a. \<forall>j < ncols a. elems c ! i ! j = f (elems a ! i ! j) (elems b ! i ! j))"
proof -
  let ?c = "\<lparr>nrows = nrows a, ncols = ncols a, elems = map2 (map2 f) (elems a) (elems b)\<rparr>"
  have bb: "broadcast_to (nrows a) (ncols a) b = elems b"
    using broadcast_to_same [of b] assms(3,4) by simp
  have eq: "np_binary f a b = Inr ?c"
    using assms(3,4) bb by (simp add: np_binary_def broadcast_dim_same broadcast_to_same)
  have la: "length (elems a) = nrows a" and lb: "length (elems b) = nrows a"
    using assms by (simp_all add: well_shaped_def)
  have rows: "length (elems a ! i) = ncols a" "length (elems b ! i) = ncols a" if "i < nrows a" for i
    using that well_shaped_row [OF assms(1), of i] well_shaped_row [OF assms(2), of i] assms(3,4)
    by simp_all
  have ws: "well_shaped ?c"
    using la lb rows by (simp add: well_shaped_def list_all_length)
  have "elems ?c ! i ! j = f (elems a ! i ! j) (elems b ! i ! j)" if "i < nrows a" "j < ncols a" for i j
    using that la lb rows [OF that(1)] by simp
  then show ?thesis using eq ws by simp
qed

lemma np_unary_props:
  assumes "well_shaped a"
  shows "well_shaped (np_unary g a)" "nrows (np_unary g a) = nrows a" "ncols (np_unary g a) = ncols a"
    "i < nrows a \<Longrightarrow> j < ncols a \<Longrightarrow> elems (np_unary g a) ! i ! j = g (elems a ! i ! j)"
proof -
  show "well_shaped (np_unary g a)"
    using assms by (simp add: np_unary_def well_shaped_def list_all_iff)
  show "nrows (np_unary g a) = nrows a" "ncols (np_unary g a) = ncols a"
    by (simp_all add: np_unary_def)
  show "elems (np_unary g a) ! i ! j = g (elems a ! i ! j)" if "i < nrows a" "j < ncols a"
    using that assms well_shaped_row [OF assms that(1)]
    by (simp add: np_unary_def well_shaped_def)
qed

lemma tp_sum_over64:
  assumes "well_shaped pred" and "well_shaped gold"
    and "nrows gold = nrows pred" and "ncols gold = ncols pred"
  shows "tp_matrix_mul pred gold ax =
           Inr (sum_over ax (nrows pred) (ncols pred)
                  (\<lambda>i j. minimum64 (elems pred ! i ! j) (elems gold ! i ! j)))"
proof -
  from np_binary_same_shape [OF assms, of minimum64] obtain c where
    c: "np_binary minimum64 pred gold = Inr c" "well_shaped c" "nrows c = nrows pred" "ncols c = ncols pred"
       "\<forall>i < nrows pred. \<forall>j < ncols pred.
          elems c ! i ! j = minimum64 (elems pred ! i ! j) (elems gold ! i ! j)"
    by blast
  have "sum_over ax (nrows pred) (ncols pred) (\<lambda>i j. elems c ! i ! j) =
        sum_over ax (nrows pred) (ncols pred) (\<lambda>i j. minimum64 (elems pred ! i ! j) (elems gold ! i ! j))"
    by (rule sum_over_cong) (simp add: c(5))
  then show ?thesis using c(1,3,4) np_sum_sum_over [OF c(2), of ax] by (simp add: tp_matrix_mul_def)
qed

lemma excess_sum_over64:
  assumes "well_shaped a" and "well_shaped b"
    and "nrows b = nrows a" and "ncols b = ncols a"
  shows "(case np_binary (-) a b of Inl e \<Rightarrow> Inl e
          | Inr d \<Rightarrow> Inr (np_sum (np_unary (\<lambda>x. maximum64 x 0) d) ax)) =
           Inr (sum_over ax (nrows a) (ncols a)
                  (\<lambda>i j. maximum64 (elems a ! i ! j - elems b ! i ! j) 0))"
proof -
  from np_binary_same_shape [OF assms, of "(-)"] obtain c where
    c: "np_binary (-) a b = Inr c" "well_shaped c" "nrows c = nrows a" "ncols c = ncols a"
       "\<forall>i < nrows a. \<forall>j < ncols a. elems c ! i ! j = elems a ! i ! j - elems b ! i ! j"
    by blast
  let ?u = "np_unary (\<lambda>x. maximum64 x 0) c"
  note u = np_unary_props [OF c(2), where g = "\<lambda>x. maximum64 x 0"]
  have "sum_over ax (nrows a) (ncols a) (\<lambda>i j. elems ?u ! i ! j) =
        sum_over ax (nrows a) (ncols a) (\<lambda>i j. maximum64 (elems a ! i ! j - elems b ! i ! j) 0)"
    by (rule sum_over_cong) (simp add: u(4) c(3,4,5))
  then show ?thesis using c(1,3,4) u(2,3) np_sum_sum_over [OF u(1), of ax] by simp
qed

subsection \<open>int64 and the integers\<close>

lemma sint_of_int_fits:
  "- (2 ^ 63) \<le> k \<Longrightarrow> k < 2 ^ 63 \<Longrightarrow> sint (word_of_int k :: int64) = k"
  by (simp add: sint_sbintrunc' signed_take_bit_int_eq_self)

lemma sint_bounds: "- (2 ^ 63) \<le> sint (x :: int64)" "sint (x :: int64) < 2 ^ 63"
  using sint_ge [of x] sint_lt [of x] by simp_all

lemma minimum64_of_int: "minimum64 x y = word_of_int (min (sint x) (sint y))"
  by (simp add: minimum64_def min_def)

lemma maximum64_diff:
  assumes "0 \<le> sint x" and "0 \<le> sint y"
  shows "maximum64 (x - y) 0 = word_of_int (max (sint x - sint y) 0)"
proof -
  have d: "x - y = word_of_int (sint x - sint y)" by simp
  have "- (2 ^ 63) \<le> sint x - sint y" "sint x - sint y < 2 ^ 63"
    using assms sint_bounds [of x] sint_bounds [of y] by simp_all
  then have s: "sint (x - y) = sint x - sint y"
    unfolding d by (rule sint_of_int_fits)
  show ?thesis
    unfolding maximum64_def s by (simp add: max_def)
qed

lemma sum_over_of_int:
  "sum_over ax d n (\<lambda>i j. (word_of_int (f i j) :: int64)) = as_int64 (sum_over ax d n f)"
  by (cases ax) (simp_all add: sum_over_def as_int64_def o_def)

subsection \<open>Exact sums\<close>

lemma cell_nonneg: "well_shaped a \<Longrightarrow> nonneg a \<Longrightarrow> i < nrows a \<Longrightarrow> j < ncols a \<Longrightarrow> 0 \<le> cell a i j"
  using well_shaped_row [of a i]
  by (simp add: nonneg_def cell_def well_shaped_def list_all_length)

lemma sum_over_bounds:
  fixes f g :: "nat \<Rightarrow> nat \<Rightarrow> int"
  assumes "\<And>i j. i < d \<Longrightarrow> j < n \<Longrightarrow> 0 \<le> f i j \<and> f i j \<le> g i j"
  shows "j < n \<Longrightarrow> 0 \<le> (\<Sum>i = 0..<d. f i j) \<and> (\<Sum>i = 0..<d. f i j) \<le> (\<Sum>i = 0..<d. \<Sum>j = 0..<n. g i j)"
    and "i < d \<Longrightarrow> 0 \<le> (\<Sum>j = 0..<n. f i j) \<and> (\<Sum>j = 0..<n. f i j) \<le> (\<Sum>i = 0..<d. \<Sum>j = 0..<n. g i j)"
    and "0 \<le> (\<Sum>i = 0..<d. \<Sum>j = 0..<n. f i j) \<and>
         (\<Sum>i = 0..<d. \<Sum>j = 0..<n. f i j) \<le> (\<Sum>i = 0..<d. \<Sum>j = 0..<n. g i j)"
proof -
  have g0: "0 \<le> g i j" if "i < d" "j < n" for i j
    using assms [OF that] by simp
  have rows0: "0 \<le> (\<Sum>j = 0..<n. g i j)" if "i < d" for i
    using g0 [OF that] by (intro sum_nonneg) simp
  show "0 \<le> (\<Sum>i = 0..<d. f i j) \<and> (\<Sum>i = 0..<d. f i j) \<le> (\<Sum>i = 0..<d. \<Sum>j = 0..<n. g i j)"
    if j: "j < n"
  proof
    show "0 \<le> (\<Sum>i = 0..<d. f i j)" using assms j by (intro sum_nonneg) simp
    have "(\<Sum>i = 0..<d. f i j) \<le> (\<Sum>i = 0..<d. g i j)"
      using assms j by (intro sum_mono) simp
    also have "\<dots> \<le> (\<Sum>i = 0..<d. \<Sum>j = 0..<n. g i j)"
    proof (rule sum_mono)
      fix i assume "i \<in> {0..<d}"
      then have i: "i < d" by simp
      show "g i j \<le> (\<Sum>j = 0..<n. g i j)"
        using j g0 [OF i] by (intro member_le_sum) simp_all
    qed
    finally show "(\<Sum>i = 0..<d. f i j) \<le> (\<Sum>i = 0..<d. \<Sum>j = 0..<n. g i j)" .
  qed
  show "0 \<le> (\<Sum>j = 0..<n. f i j) \<and> (\<Sum>j = 0..<n. f i j) \<le> (\<Sum>i = 0..<d. \<Sum>j = 0..<n. g i j)"
    if i: "i < d"
  proof
    show "0 \<le> (\<Sum>j = 0..<n. f i j)" using assms i by (intro sum_nonneg) simp
    have "(\<Sum>j = 0..<n. f i j) \<le> (\<Sum>j = 0..<n. g i j)"
      using assms i by (intro sum_mono) simp
    also have "\<dots> \<le> (\<Sum>i = 0..<d. \<Sum>j = 0..<n. g i j)"
      using i rows0 by (intro member_le_sum [where f = "\<lambda>i. \<Sum>j = 0..<n. g i j"]) simp_all
    finally show "(\<Sum>j = 0..<n. f i j) \<le> (\<Sum>i = 0..<d. \<Sum>j = 0..<n. g i j)" .
  qed
  show "0 \<le> (\<Sum>i = 0..<d. \<Sum>j = 0..<n. f i j) \<and>
         (\<Sum>i = 0..<d. \<Sum>j = 0..<n. f i j) \<le> (\<Sum>i = 0..<d. \<Sum>j = 0..<n. g i j)"
  proof
    show "0 \<le> (\<Sum>i = 0..<d. \<Sum>j = 0..<n. f i j)"
      using assms by (intro sum_nonneg) simp
    show "(\<Sum>i = 0..<d. \<Sum>j = 0..<n. f i j) \<le> (\<Sum>i = 0..<d. \<Sum>j = 0..<n. g i j)"
      using assms by (intro sum_mono) simp
  qed
qed

lemma sint_of_int_nonneg: "0 \<le> k \<Longrightarrow> k < 2 ^ 63 \<Longrightarrow> sint (word_of_int k :: int64) = k"
  by (rule sint_of_int_fits) simp_all

lemma as_integers_exact:
  fixes f g :: "nat \<Rightarrow> nat \<Rightarrow> int"
  assumes "\<And>i j. i < d \<Longrightarrow> j < n \<Longrightarrow> 0 \<le> f i j \<and> f i j \<le> g i j"
    and "(\<Sum>i = 0..<d. \<Sum>j = 0..<n. g i j) < 2 ^ 63"
  shows "as_integers (as_int64 (sum_over ax d n f)) = sum_over ax d n f"
proof (cases ax)
  case Axis0
  have "sint (word_of_int (\<Sum>i = 0..<d. f i j) :: int64) = (\<Sum>i = 0..<d. f i j)" if "j < n" for j
    using sum_over_bounds(1) [of d n f g j, OF assms(1) that] assms(2)
    by (intro sint_of_int_nonneg) simp_all
  then show ?thesis using Axis0 by (simp add: sum_over_def as_int64_def as_integers_def)
next
  case Axis1
  have "sint (word_of_int (\<Sum>j = 0..<n. f i j) :: int64) = (\<Sum>j = 0..<n. f i j)" if "i < d" for i
    using sum_over_bounds(2) [of d n f g i, OF assms(1) that] assms(2)
    by (intro sint_of_int_nonneg) simp_all
  then show ?thesis using Axis1 by (simp add: sum_over_def as_int64_def as_integers_def)
next
  case Axes01
  have "sint (word_of_int (\<Sum>i = 0..<d. \<Sum>j = 0..<n. f i j) :: int64) = (\<Sum>i = 0..<d. \<Sum>j = 0..<n. f i j)"
    using sum_over_bounds(3) [of d n f g, OF assms(1)] assms(2)
    by (intro sint_of_int_nonneg) simp_all
  then show ?thesis using Axes01 by (simp add: sum_over_def as_int64_def as_integers_def)
qed

lemma tp_as_int64:
  assumes "well_shaped pred" and "well_shaped gold"
    and "nrows gold = nrows pred" and "ncols gold = ncols pred"
  shows "tp_matrix_mul pred gold ax =
           Inr (as_int64 (sum_over ax (nrows pred) (ncols pred) (\<lambda>i j. min (cell pred i j) (cell gold i j))))"
  unfolding tp_sum_over64 [OF assms] minimum64_of_int sum_over_of_int cell_def ..

lemma excess_as_int64:
  assumes "well_shaped a" and "well_shaped b"
    and "nrows b = nrows a" and "ncols b = ncols a"
    and "nonneg a" and "nonneg b"
  shows "(case np_binary (-) a b of Inl e \<Rightarrow> Inl e
          | Inr d \<Rightarrow> Inr (np_sum (np_unary (\<lambda>x. maximum64 x 0) d) ax)) =
           Inr (as_int64 (sum_over ax (nrows a) (ncols a) (\<lambda>i j. max (cell a i j - cell b i j) 0)))"
proof -
  have "sum_over ax (nrows a) (ncols a) (\<lambda>i j. maximum64 (elems a ! i ! j - elems b ! i ! j) 0) =
        sum_over ax (nrows a) (ncols a) (\<lambda>i j. (word_of_int (max (cell a i j - cell b i j) 0) :: int64))"
  proof (rule sum_over_cong)
    fix i j assume ij: "i < nrows a" "j < ncols a"
    have "0 \<le> cell a i j" using cell_nonneg [OF assms(1,5) ij] .
    moreover have "0 \<le> cell b i j" using cell_nonneg [OF assms(2,6)] ij assms(3,4) by simp
    ultimately show "maximum64 (elems a ! i ! j - elems b ! i ! j) 0 =
        word_of_int (max (cell a i j - cell b i j) 0)"
      unfolding cell_def by (rule maximum64_diff)
  qed
  then show ?thesis
    unfolding excess_sum_over64 [OF assms(1-4)] sum_over_of_int by simp
qed

lemma counts_as_int64:
  assumes "well_shaped pred" and "well_shaped gold"
    and "nrows gold = nrows pred" and "ncols gold = ncols pred"
    and "nonneg pred" and "nonneg gold"
  shows "fp_matrix_mul pred gold ax =
           Inr (as_int64 (sum_over ax (nrows pred) (ncols pred) (\<lambda>i j. max (cell pred i j - cell gold i j) 0)))"
    and "fn_matrix_mul pred gold ax =
           Inr (as_int64 (sum_over ax (nrows pred) (ncols pred) (\<lambda>i j. max (cell gold i j - cell pred i j) 0)))"
proof -
  show "fp_matrix_mul pred gold ax =
           Inr (as_int64 (sum_over ax (nrows pred) (ncols pred) (\<lambda>i j. max (cell pred i j - cell gold i j) 0)))"
    unfolding fp_matrix_mul_def using excess_as_int64 [OF assms] .
  have "fn_matrix_mul pred gold ax =
           Inr (as_int64 (sum_over ax (nrows gold) (ncols gold) (\<lambda>i j. max (cell gold i j - cell pred i j) 0)))"
    unfolding fn_matrix_mul_def
    using excess_as_int64 [OF assms(2,1) assms(3) [symmetric] assms(4) [symmetric] assms(6,5)] .
  then show "fn_matrix_mul pred gold ax =
           Inr (as_int64 (sum_over ax (nrows pred) (ncols pred) (\<lambda>i j. max (cell gold i j - cell pred i j) 0)))"
    using assms(3,4) by simp
qed

lemma counts_exact:
  assumes "well_shaped pred" and "well_shaped gold"
    and "nrows gold = nrows pred" and "ncols gold = ncols pred"
    and "nonneg pred" and "nonneg gold"
  shows "fits pred \<Longrightarrow>
           as_integers (as_int64 (sum_over ax (nrows pred) (ncols pred) (\<lambda>i j. min (cell pred i j) (cell gold i j))))
             = sum_over ax (nrows pred) (ncols pred) (\<lambda>i j. min (cell pred i j) (cell gold i j))"
    and "fits gold \<Longrightarrow>
           as_integers (as_int64 (sum_over ax (nrows pred) (ncols pred) (\<lambda>i j. min (cell pred i j) (cell gold i j))))
             = sum_over ax (nrows pred) (ncols pred) (\<lambda>i j. min (cell pred i j) (cell gold i j))"
    and "fits pred \<Longrightarrow>
           as_integers (as_int64 (sum_over ax (nrows pred) (ncols pred) (\<lambda>i j. max (cell pred i j - cell gold i j) 0)))
             = sum_over ax (nrows pred) (ncols pred) (\<lambda>i j. max (cell pred i j - cell gold i j) 0)"
    and "fits gold \<Longrightarrow>
           as_integers (as_int64 (sum_over ax (nrows pred) (ncols pred) (\<lambda>i j. max (cell gold i j - cell pred i j) 0)))
             = sum_over ax (nrows pred) (ncols pred) (\<lambda>i j. max (cell gold i j - cell pred i j) 0)"
proof -
  have p: "0 \<le> cell pred i j" and g: "0 \<le> cell gold i j" if "i < nrows pred" "j < ncols pred" for i j
    using cell_nonneg [OF assms(1,5) that] cell_nonneg [OF assms(2,6), of i j] that assms(3,4) by simp_all
  have tg: "total gold = (\<Sum>i = 0..<nrows pred. \<Sum>j = 0..<ncols pred. cell gold i j)"
    using assms(3,4) by (simp add: total_def)
  show "as_integers (as_int64 (sum_over ax (nrows pred) (ncols pred) (\<lambda>i j. min (cell pred i j) (cell gold i j))))
             = sum_over ax (nrows pred) (ncols pred) (\<lambda>i j. min (cell pred i j) (cell gold i j))"
    if "fits pred"
    using that p g by (intro as_integers_exact [where g = "cell pred"]) (simp_all add: fits_def total_def)
  show "as_integers (as_int64 (sum_over ax (nrows pred) (ncols pred) (\<lambda>i j. min (cell pred i j) (cell gold i j))))
             = sum_over ax (nrows pred) (ncols pred) (\<lambda>i j. min (cell pred i j) (cell gold i j))"
    if "fits gold"
    using that p g tg by (intro as_integers_exact [where g = "cell gold"]) (simp_all add: fits_def)
  show "as_integers (as_int64 (sum_over ax (nrows pred) (ncols pred) (\<lambda>i j. max (cell pred i j - cell gold i j) 0)))
             = sum_over ax (nrows pred) (ncols pred) (\<lambda>i j. max (cell pred i j - cell gold i j) 0)"
    if "fits pred"
    using that p g by (intro as_integers_exact [where g = "cell pred"]) (simp_all add: fits_def total_def)
  show "as_integers (as_int64 (sum_over ax (nrows pred) (ncols pred) (\<lambda>i j. max (cell gold i j - cell pred i j) 0)))
             = sum_over ax (nrows pred) (ncols pred) (\<lambda>i j. max (cell gold i j - cell pred i j) 0)"
    if "fits gold"
    using that p g tg by (intro as_integers_exact [where g = "cell gold"]) (simp_all add: fits_def)
qed

subsection \<open>The values of the reports\<close>

lemma true_divide_guarded: "true_divide tp (tp + other + eq0 (tp + other)) = Some (quotient64 tp other)"
  by (simp add: true_divide_def eq0_def quotient64_def)

lemma map2_maps: "map2 f (map g xs) (map h xs) = map (\<lambda>x. f (g x) (h x)) xs"
  by (induction xs) simp_all

lemma guarded_ratio_Vector:
  "guarded_ratio (Vector (map f [0..<n])) (Vector (map g [0..<n])) =
     Vector (map (\<lambda>j. Some (quotient64 (f j) (g j))) [0..<n])"
  by (simp add: guarded_ratio_def Let_def map2_maps true_divide_guarded o_def)

lemma guarded_ratio_Scalar:
  "guarded_ratio (Scalar a) (Scalar b) = Scalar (Some (quotient64 a b))"
  by (simp add: guarded_ratio_def Let_def true_divide_guarded)

lemma f1_step:
  "fdivide (fmul (Some 2) (fmul (Some p) (Some r)))
           (fadd_int (fadd (Some p) (Some r)) (feq0 (fadd (Some p) (Some r)))) = Some (f1_value p r)"
  by (simp add: fdivide_def fmul_def fadd_def fadd_int_def feq0_def f1_value_def guarded_div_def)

lemma f1_score_Vector:
  "f1_score (Vector (map (\<lambda>j. Some (p j)) [0..<n])) (Vector (map (\<lambda>j. Some (r j)) [0..<n])) =
     Vector (map (\<lambda>j. Some (f1_value (p j) (r j))) [0..<n])"
  by (simp add: f1_score_def Let_def map2_maps f1_step o_def)

lemma f1_score_Scalar:
  "f1_score (Scalar (Some p)) (Scalar (Some r)) = Scalar (Some (f1_value p r))"
  by (simp add: f1_score_def Let_def f1_step)

lemma guarded_quotient_unit: "0 \<le> tp \<Longrightarrow> 0 \<le> other \<Longrightarrow> in_unit (guarded_quotient tp other)"
  by (simp add: guarded_quotient_def guarded_div_def in_unit_def)

lemma f1_value_unit:
  assumes "in_unit p" and "in_unit r"
  shows "in_unit (f1_value p r)"
proof (cases "p + r = 0")
  case True
  then have "p = 0" "r = 0" using assms by (simp_all add: in_unit_def)
  then show ?thesis by (simp add: f1_value_def guarded_div_def in_unit_def)
next
  case False
  have p: "0 \<le> p" "p \<le> 1" and r: "0 \<le> r" "r \<le> 1" using assms by (simp_all add: in_unit_def)
  have pos: "0 < p + r" using False p r by simp
  have "p * r \<le> p * 1" using p r by (intro mult_left_mono) simp_all
  moreover have "p * r \<le> 1 * r" using p r by (intro mult_right_mono) simp_all
  ultimately have "2 * (p * r) \<le> p + r" by simp
  then have "2 * (p * r) / (p + r) \<le> 1" using pos by simp
  moreover have "0 \<le> 2 * (p * r) / (p + r)" using p r by simp
  ultimately show ?thesis using False by (simp add: f1_value_def guarded_div_def in_unit_def)
qed

lemma per_class_counts:
  assumes "well_shaped pred" and "well_shaped gold"
    and "nrows gold = nrows pred" and "ncols gold = ncols pred"
  shows "tp_matrix_mul_per_class pred gold = Inr (Vector (map (class_tp64 pred gold) [0..<ncols pred]))"
    and "fp_matrix_mul_per_class pred gold = Inr (Vector (map (class_fp64 pred gold) [0..<ncols pred]))"
    and "fn_matrix_mul_per_class pred gold = Inr (Vector (map (class_fn64 pred gold) [0..<ncols pred]))"
proof -
  show "tp_matrix_mul_per_class pred gold = Inr (Vector (map (class_tp64 pred gold) [0..<ncols pred]))"
    using tp_sum_over64 [OF assms, of Axis0]
    by (simp add: tp_matrix_mul_per_class_def sum_over_def class_tp64_def)
  show "fp_matrix_mul_per_class pred gold = Inr (Vector (map (class_fp64 pred gold) [0..<ncols pred]))"
    using excess_sum_over64 [OF assms, of Axis0]
    by (simp add: fp_matrix_mul_per_class_def fp_matrix_mul_def sum_over_def class_fp64_def)
  show "fn_matrix_mul_per_class pred gold = Inr (Vector (map (class_fn64 pred gold) [0..<ncols pred]))"
    using excess_sum_over64 [OF assms(2,1) assms(3) [symmetric] assms(4) [symmetric], of Axis0] assms(3,4)
    by (simp add: fn_matrix_mul_per_class_def fn_matrix_mul_def sum_over_def class_fn64_def)
qed

lemma lookup_all_keys:
  "set ks \<subseteq> fst ` set d \<Longrightarrow> \<exists>vs. lookup_all d ks = Inr vs \<and> length vs = length ks"
proof (induction ks)
  case Nil
  then show ?case by simp
next
  case (Cons k ks)
  then obtain vs where vs: "lookup_all d ks = Inr vs" "length vs = length ks" by auto
  from Cons.prems have "k \<in> fst ` set d" by simp
  then obtain v where "map_of d k = Some v"
    by (metis domD dom_map_of_conv_image_fst)
  then show ?case using vs by (simp add: dict_get_def)
qed

lemma lookup_sorted_keys:
  "\<exists>codes. lookup_all d (sort (map fst d)) = Inr codes \<and> length codes = length d"
  using lookup_all_keys [of "sort (map fst d)" d] by simp

lemma zip_map_upt: "zip (map f [0..<n]) ys = map (\<lambda>k. (f k, ys ! k)) [0..<min n (length ys)]"
  by (rule nth_equalityI) auto

lemma report_rows:
  assumes "well_shaped pred" and "well_shaped gold"
    and "nrows gold = nrows pred" and "ncols gold = ncols pred"
  shows "\<exists>codes. length codes = length d \<and>
     report pred gold d =
       Inr (map (\<lambda>k. \<lparr>Precision = Some (quotient64 (class_tp64 pred gold k) (class_fp64 pred gold k)),
                      Recall = Some (quotient64 (class_tp64 pred gold k) (class_fn64 pred gold k)),
                      F1 = Some (f1_value (quotient64 (class_tp64 pred gold k) (class_fp64 pred gold k))
                                          (quotient64 (class_tp64 pred gold k) (class_fn64 pred gold k))),
                      Support = (\<Sum>i = 0..<nrows gold. elems gold ! i ! k), Code = codes ! k\<rparr>)
                [0..<min (ncols pred) (length d)])"
proof -
  let ?n = "ncols pred"
  let ?P = "\<lambda>k. quotient64 (class_tp64 pred gold k) (class_fp64 pred gold k)"
  let ?R = "\<lambda>k. quotient64 (class_tp64 pred gold k) (class_fn64 pred gold k)"
  let ?S = "\<lambda>k. \<Sum>i = 0..<nrows gold. elems gold ! i ! k"
  from lookup_sorted_keys [of d] obtain codes where
    codes: "lookup_all d (sort (map fst d)) = Inr codes" "length codes = length d" by blast
  have sup: "np_sum gold Axis0 = Vector (map ?S [0..<?n])"
    using np_sum_sum_over [OF assms(2), of Axis0] assms(4)
    by (simp add: sum_over_def)
  have prec: "guarded_ratio (Vector (map (class_tp64 pred gold) [0..<?n])) (Vector (map (class_fp64 pred gold) [0..<?n]))
                = Vector (map (\<lambda>j. Some (?P j)) [0..<?n])"
    by (rule guarded_ratio_Vector)
  have rec: "guarded_ratio (Vector (map (class_tp64 pred gold) [0..<?n])) (Vector (map (class_fn64 pred gold) [0..<?n]))
                = Vector (map (\<lambda>j. Some (?R j)) [0..<?n])"
    by (rule guarded_ratio_Vector)
  have f1: "f1_score (Vector (map (\<lambda>j. Some (?P j)) [0..<?n])) (Vector (map (\<lambda>j. Some (?R j)) [0..<?n]))
                = Vector (map (\<lambda>j. Some (f1_value (?P j) (?R j))) [0..<?n])"
    by (rule f1_score_Vector)
  have z1: "zip (map ?S [0..<?n]) codes
              = map (\<lambda>k. (?S k, codes ! k)) [0..<min ?n (length d)]"
    using codes(2) by (simp add: zip_map_upt)
  have z2: "zip (map (\<lambda>j. Some (f1_value (?P j) (?R j))) [0..<?n])
                (map (\<lambda>k. (?S k, codes ! k)) [0..<min ?n (length d)])
              = map (\<lambda>k. (Some (f1_value (?P k) (?R k)), ?S k, codes ! k))
                    [0..<min ?n (length d)]"
    by (rule nth_equalityI) auto
  have z3: "zip (map (\<lambda>j. Some (?R j)) [0..<?n])
                (map (\<lambda>k. (Some (f1_value (?P k) (?R k)), ?S k, codes ! k))
                    [0..<min ?n (length d)])
              = map (\<lambda>k. (Some (?R k), Some (f1_value (?P k) (?R k)), ?S k, codes ! k))
                    [0..<min ?n (length d)]"
    by (rule nth_equalityI) auto
  have z4: "zip (map (\<lambda>j. Some (?P j)) [0..<?n])
                (map (\<lambda>k. (Some (?R k), Some (f1_value (?P k) (?R k)), ?S k, codes ! k))
                    [0..<min ?n (length d)])
              = map (\<lambda>k. (Some (?P k), Some (?R k), Some (f1_value (?P k) (?R k)), ?S k, codes ! k))
                    [0..<min ?n (length d)]"
    by (rule nth_equalityI) auto
  have "report pred gold d =
       Inr (map (\<lambda>k. \<lparr>Precision = Some (?P k), Recall = Some (?R k),
                      F1 = Some (f1_value (?P k) (?R k)),
                      Support = ?S k, Code = codes ! k\<rparr>)
                [0..<min ?n (length d)])"
    unfolding report_def per_class_counts [OF assms] sum.case Let_def prec rec f1 sup codes(1)
      np_iter.simps z1 z2 z3 z4
    by (simp add: o_def)
  then show ?thesis using codes(2) by blast
qed

lemma fsum_Some: "fsum (map (\<lambda>j. Some (p j)) xs) = Some (sum_list (map p xs))"
  by (induction xs) (simp_all add: fsum_def fadd_def)

lemma np_average_Vector:
  "np_average (Vector (map (\<lambda>j. Some (p j)) [0..<n])) = Inr (Scalar (mean_value (map p [0..<n])))"
  by (simp add: fsum_Some fdivide_def mean_value_def)

lemma f1_score_means:
  "f1_score (Scalar P) (Scalar R) = Scalar (f1_of_means P R)"
proof (cases P)
  case None
  then show ?thesis
    by (simp add: f1_score_def Let_def f1_of_means_def fdivide_def fmul_def)
next
  case p: (Some p)
  show ?thesis
  proof (cases R)
    case None
    then show ?thesis using p
      by (simp add: f1_score_def Let_def f1_of_means_def fdivide_def fmul_def)
  next
    case (Some r)
    then show ?thesis using p f1_score_Scalar [of p r] by (simp add: f1_of_means_def)
  qed
qed

lemma report_macro_value:
  assumes "well_shaped pred" and "well_shaped gold"
    and "nrows gold = nrows pred" and "ncols gold = ncols pred"
  shows "report_macro pred gold =
     Inr [(''Precision'', Scalar (mean_value (map (\<lambda>j. quotient64 (class_tp64 pred gold j) (class_fp64 pred gold j))
                                                  [0..<ncols pred]))),
          (''Recall'', Scalar (mean_value (map (\<lambda>j. quotient64 (class_tp64 pred gold j) (class_fn64 pred gold j))
                                               [0..<ncols pred]))),
          (''F1'', Scalar (f1_of_means
             (mean_value (map (\<lambda>j. quotient64 (class_tp64 pred gold j) (class_fp64 pred gold j)) [0..<ncols pred]))
             (mean_value (map (\<lambda>j. quotient64 (class_tp64 pred gold j) (class_fn64 pred gold j)) [0..<ncols pred]))))]"
  unfolding report_macro_def per_class_counts [OF assms] sum.case Let_def guarded_ratio_Vector
    np_average_Vector f1_score_means
  by simp

lemma mean_value_unit:
  assumes "xs \<noteq> []" and "\<forall>x \<in> set xs. in_unit x"
  shows "\<exists>m. mean_value xs = Some m \<and> in_unit m"
proof -
  have "0 \<le> sum_list xs" using assms(2) by (intro sum_list_nonneg) (simp add: in_unit_def)
  moreover have "sum_list xs \<le> real (length xs)"
    using assms(2)
  proof (induction xs)
    case Nil
    then show ?case by simp
  next
    case (Cons x xs)
    then have "x \<le> 1" "sum_list xs \<le> real (length xs)" by (simp_all add: in_unit_def)
    then show ?case by simp
  qed
  moreover have "0 < real (length xs)" using assms(1) by simp
  ultimately have "in_unit (sum_list xs / real (length xs))"
    by (simp add: in_unit_def)
  then show ?thesis using assms(1) by (simp add: mean_value_def)
qed

subsection \<open>The reports when the counts fit\<close>

lemma quotient64_exact:
  assumes "0 \<le> a" and "0 \<le> b" and "a + b < 2 ^ 63"
  shows "quotient64 (word_of_int a) (word_of_int b) = guarded_quotient a b"
proof -
  have sa: "sint (word_of_int a :: int64) = a"
    using assms by (intro sint_of_int_nonneg) simp_all
  have sum: "(word_of_int a :: int64) + word_of_int b = word_of_int (a + b)" by simp
  have ss: "sint (word_of_int (a + b) :: int64) = a + b"
    using assms by (intro sint_of_int_nonneg) simp_all
  have z: "((word_of_int (a + b) :: int64) = 0) = (a + b = 0)"
  proof
    assume "(word_of_int (a + b) :: int64) = 0"
    then have "sint (word_of_int (a + b) :: int64) = 0" by simp
    then show "a + b = 0" using ss by simp
  next
    assume "a + b = 0"
    then show "(word_of_int (a + b) :: int64) = 0" by simp
  qed
  show ?thesis
  proof (cases "a + b = 0")
    case True
    then have "quotient64 (word_of_int a) (word_of_int b) = real_of_int (sint (word_of_int a :: int64)) / real_of_int (sint (1 :: int64))"
      unfolding quotient64_def sum z by simp
    then show ?thesis
      unfolding sa using True by (simp add: guarded_quotient_def guarded_div_def)
  next
    case False
    then have "quotient64 (word_of_int a) (word_of_int b) =
        real_of_int (sint (word_of_int a :: int64)) / real_of_int (sint (word_of_int (a + b) :: int64))"
      unfolding quotient64_def sum z by simp
    then show ?thesis
      unfolding sa ss using False by (simp add: guarded_quotient_def guarded_div_def)
  qed
qed

lemma class_counts_nonneg:
  assumes "well_shaped pred" and "well_shaped gold"
    and "nrows gold = nrows pred" and "ncols gold = ncols pred"
    and "nonneg pred" and "nonneg gold" and "j < ncols pred"
  shows "0 \<le> class_tp pred gold j" "0 \<le> class_fp pred gold j" "0 \<le> class_fn pred gold j"
proof -
  have "0 \<le> min (cell pred i j) (cell gold i j)" if "i < nrows pred" for i
    using that assms cell_nonneg [of pred i j] cell_nonneg [of gold i j] by simp
  then show "0 \<le> class_tp pred gold j" unfolding class_tp_def by (intro sum_nonneg) simp
  show "0 \<le> class_fp pred gold j" unfolding class_fp_def by (intro sum_nonneg) simp
  show "0 \<le> class_fn pred gold j" unfolding class_fn_def by (intro sum_nonneg) simp
qed

lemma total_counts_nonneg:
  assumes "well_shaped pred" and "well_shaped gold"
    and "nrows gold = nrows pred" and "ncols gold = ncols pred"
    and "nonneg pred" and "nonneg gold"
  shows "0 \<le> total_tp pred gold" "0 \<le> total_fp pred gold" "0 \<le> total_fn pred gold"
proof -
  have "0 \<le> min (cell pred i j) (cell gold i j)" if "i < nrows pred" "j < ncols pred" for i j
    using that assms cell_nonneg [of pred i j] cell_nonneg [of gold i j] by simp
  then show "0 \<le> total_tp pred gold" unfolding total_tp_def by (intro sum_nonneg) simp
  show "0 \<le> total_fp pred gold" unfolding total_fp_def by (intro sum_nonneg) simp
  show "0 \<le> total_fn pred gold" unfolding total_fn_def by (intro sum_nonneg) simp
qed

lemma class_denominators:
  "class_tp pred gold j + class_fp pred gold j = (\<Sum>i = 0..<nrows pred. cell pred i j)"
  "class_tp pred gold j + class_fn pred gold j = (\<Sum>i = 0..<nrows pred. cell gold i j)"
proof -
  have "min p g + max (p - g) 0 = p" "min p g + max (g - p) 0 = g" for p g :: int
    by simp_all
  then show "class_tp pred gold j + class_fp pred gold j = (\<Sum>i = 0..<nrows pred. cell pred i j)"
    "class_tp pred gold j + class_fn pred gold j = (\<Sum>i = 0..<nrows pred. cell gold i j)"
    by (simp_all add: class_tp_def class_fp_def class_fn_def sum.distrib [symmetric])
qed

lemma total_denominators:
  "total_tp pred gold + total_fp pred gold = total pred"
  "nrows gold = nrows pred \<Longrightarrow> ncols gold = ncols pred \<Longrightarrow> total_tp pred gold + total_fn pred gold = total gold"
proof -
  have "min p g + max (p - g) 0 = p" "min p g + max (g - p) 0 = g" for p g :: int
    by simp_all
  then show "total_tp pred gold + total_fp pred gold = total pred"
    "nrows gold = nrows pred \<Longrightarrow> ncols gold = ncols pred \<Longrightarrow> total_tp pred gold + total_fn pred gold = total gold"
    by (simp_all add: total_tp_def total_fp_def total_fn_def total_def sum.distrib [symmetric])
qed

lemma column_le_total:
  assumes "well_shaped a" and "nonneg a" and "j < ncols a"
  shows "(\<Sum>i = 0..<nrows a. cell a i j) \<le> total a"
  unfolding total_def
  using sum_over_bounds(1) [of "nrows a" "ncols a" "cell a" "cell a" j] cell_nonneg [OF assms(1,2)] assms(3)
  by simp

lemma class_counts64:
  assumes "well_shaped pred" and "well_shaped gold"
    and "nrows gold = nrows pred" and "ncols gold = ncols pred"
    and "nonneg pred" and "nonneg gold" and "j < ncols pred"
  shows "class_tp64 pred gold j = word_of_int (class_tp pred gold j)"
    and "class_fp64 pred gold j = word_of_int (class_fp pred gold j)"
    and "class_fn64 pred gold j = word_of_int (class_fn pred gold j)"
proof -
  have p: "0 \<le> sint (elems pred ! i ! j)" and g: "0 \<le> sint (elems gold ! i ! j)" if "i < nrows pred" for i
    using cell_nonneg [OF assms(1,5) that assms(7)] cell_nonneg [OF assms(2,6), of i j] that assms(3,4,7)
    by (simp_all add: cell_def)
  show "class_tp64 pred gold j = word_of_int (class_tp pred gold j)"
    by (simp add: class_tp64_def class_tp_def minimum64_of_int cell_def)
  show "class_fp64 pred gold j = word_of_int (class_fp pred gold j)"
    using p g by (simp add: class_fp64_def class_fp_def maximum64_diff cell_def)
  show "class_fn64 pred gold j = word_of_int (class_fn pred gold j)"
    using p g by (simp add: class_fn64_def class_fn_def maximum64_diff cell_def)
qed

lemma class_quotients_exact:
  assumes "well_shaped pred" and "well_shaped gold"
    and "nrows gold = nrows pred" and "ncols gold = ncols pred"
    and "nonneg pred" and "nonneg gold" and "j < ncols pred"
  shows "fits pred \<Longrightarrow> quotient64 (class_tp64 pred gold j) (class_fp64 pred gold j) =
           guarded_quotient (class_tp pred gold j) (class_fp pred gold j)"
    and "fits gold \<Longrightarrow> quotient64 (class_tp64 pred gold j) (class_fn64 pred gold j) =
           guarded_quotient (class_tp pred gold j) (class_fn pred gold j)"
proof -
  note n = class_counts_nonneg [OF assms]
  note w = class_counts64 [OF assms]
  show "quotient64 (class_tp64 pred gold j) (class_fp64 pred gold j) =
           guarded_quotient (class_tp pred gold j) (class_fp pred gold j)" if "fits pred"
    unfolding w
    using that n column_le_total [OF assms(1,5,7)] class_denominators(1) [of pred gold j]
    by (intro quotient64_exact) (simp_all add: fits_def)
  have "(\<Sum>i = 0..<nrows pred. cell gold i j) \<le> total gold"
    using column_le_total [OF assms(2,6), of j] assms(3,4,7) by simp
  then show "quotient64 (class_tp64 pred gold j) (class_fn64 pred gold j) =
           guarded_quotient (class_tp pred gold j) (class_fn pred gold j)" if "fits gold"
    unfolding w
    using that n class_denominators(2) [of pred gold j]
    by (intro quotient64_exact) (simp_all add: fits_def)
qed

lemma report_micro_exact:
  assumes "well_shaped pred" and "well_shaped gold"
    and "nrows gold = nrows pred" and "ncols gold = ncols pred"
    and "nonneg pred" and "nonneg gold" and "fits pred" and "fits gold"
  shows "report_micro pred gold =
     Inr [(''Precision'', Scalar (Some (guarded_quotient (total_tp pred gold) (total_fp pred gold)))),
          (''Recall'', Scalar (Some (guarded_quotient (total_tp pred gold) (total_fn pred gold)))),
          (''F1'', Scalar (Some (f1_value (guarded_quotient (total_tp pred gold) (total_fp pred gold))
                                          (guarded_quotient (total_tp pred gold) (total_fn pred gold)))))]"
proof -
  note n = total_counts_nonneg [OF assms(1-6)]
  have tp: "tp_matrix_mul_full pred gold = Inr (Scalar (word_of_int (total_tp pred gold)))"
    using tp_as_int64 [OF assms(1-4), of Axes01]
    by (simp add: tp_matrix_mul_full_def sum_over_def as_int64_def total_tp_def)
  have fp: "fp_matrix_mul_full pred gold = Inr (Scalar (word_of_int (total_fp pred gold)))"
    using counts_as_int64(1) [OF assms(1-6), of Axes01]
    by (simp add: fp_matrix_mul_full_def sum_over_def as_int64_def total_fp_def)
  have fn: "fn_matrix_mul_full pred gold = Inr (Scalar (word_of_int (total_fn pred gold)))"
    using counts_as_int64(2) [OF assms(1-6), of Axes01]
    by (simp add: fn_matrix_mul_full_def sum_over_def as_int64_def total_fn_def)
  have P: "quotient64 (word_of_int (total_tp pred gold)) (word_of_int (total_fp pred gold)) =
           guarded_quotient (total_tp pred gold) (total_fp pred gold)"
    using n assms(7) total_denominators(1) [of pred gold]
    by (intro quotient64_exact) (simp_all add: fits_def)
  have R: "quotient64 (word_of_int (total_tp pred gold)) (word_of_int (total_fn pred gold)) =
           guarded_quotient (total_tp pred gold) (total_fn pred gold)"
    using n assms(8) total_denominators(2) [OF assms(3,4)]
    by (intro quotient64_exact) (simp_all add: fits_def)
  show ?thesis
    unfolding report_micro_def tp fp fn sum.case Let_def guarded_ratio_Scalar P R f1_score_Scalar
    by simp
qed

subsection \<open>The reports of the example matrices\<close>

lemma replicate_two: "replicate 2 x = [x, x]"
  by (simp add: numeral_2_eq_2)

lemma upt_two: "[0..<2] = [0, 1]"
  by (simp add: upt_rec)

lemma sum_two: "(\<Sum>i = 0..<2. f i) = f 0 + f (1 :: nat)"
  by (simp add: numeral_2_eq_2)

lemma sum_three: "(\<Sum>i = 0..<3. f i) = f 0 + f (1 :: nat) + f 2"
  by (simp add: numeral_3_eq_3 numeral_2_eq_2)

lemmas eval_defs = well_shaped_def nonneg_def all_zero_def report_def report_macro_def report_micro_def
      tp_matrix_mul_per_class_def fp_matrix_mul_per_class_def fn_matrix_mul_per_class_def
      tp_matrix_mul_full_def fp_matrix_mul_full_def fn_matrix_mul_full_def
      tp_matrix_mul_def fp_matrix_mul_def fn_matrix_mul_def np_binary_def broadcast_dim_def
      broadcast_to_def np_unary_def minimum64_def maximum64_def guarded_ratio_def f1_score_def
      fadd_def fadd_int_def fmul_def
      fdivide_def feq0_def eq0_def true_divide_def fsum_def dict_get_def positive_def replicate_two

lemma count_shapes:
  "well_shaped count_pred" "well_shaped count_gold" "nrows count_gold = nrows count_pred"
  "ncols count_gold = ncols count_pred" "nonneg count_pred" "nonneg count_gold"
  by (simp_all add: count_pred_def count_gold_def well_shaped_def nonneg_def)

lemma count_fits: "fits count_pred" "fits count_gold"
  by (simp_all add: fits_def total_def cell_def count_pred_def count_gold_def sum_two)

lemma zero_shapes:
  "well_shaped zero_matrix" "nonneg zero_matrix" "all_zero zero_matrix" "fits zero_matrix"
  by (simp_all add: zero_matrix_def well_shaped_def nonneg_def all_zero_def fits_def total_def cell_def sum_two)

lemma count_report:
  "report count_pred count_gold two_class_ids =
     Inr [\<lparr>Precision = Some (1 / 3), Recall = Some 1, F1 = Some (1 / 2), Support = 1, Code = ''a''\<rparr>,
          \<lparr>Precision = Some 1, Recall = Some (1 / 4), F1 = Some (2 / 5), Support = 4, Code = ''b''\<rparr>]"
  by (simp add: count_pred_def count_gold_def two_class_ids_def eval_defs)

lemma count_report_macro:
  "report_macro count_pred count_gold =
     Inr [(''Precision'', Scalar (Some (2 / 3))), (''Recall'', Scalar (Some (5 / 8))),
          (''F1'', Scalar (Some (20 / 31)))]"
  by (simp add: count_pred_def count_gold_def eval_defs)

lemma count_report_micro:
  "report_micro count_pred count_gold =
     Inr [(''Precision'', Scalar (Some (1 / 2))), (''Recall'', Scalar (Some (2 / 5))),
          (''F1'', Scalar (Some (4 / 9)))]"
  by (simp add: count_pred_def count_gold_def eval_defs)

lemma big_shapes:
  "well_shaped big_pred" "well_shaped big_gold" "nrows big_gold = nrows big_pred"
  "ncols big_gold = ncols big_pred" "nonneg big_pred" "nonneg big_gold"
  by (simp_all add: big_pred_def big_gold_def well_shaped_def nonneg_def)

lemma big_tp:
  "tp_matrix_mul big_pred big_gold Axes01 = Inr (Scalar 9223372036854775808)"
  by (simp add: big_pred_def big_gold_def eval_defs)

lemma big_exact:
  "sum_over Axes01 (nrows big_pred) (ncols big_pred) (\<lambda>i j. min (cell big_pred i j) (cell big_gold i j)) =
     Scalar 9223372036854775808"
  by (simp add: sum_over_def cell_def big_pred_def big_gold_def sum_three)

lemma big_report_micro:
  "report_micro big_pred big_gold =
     Inr [(''Precision'', Scalar (Some 2)), (''Recall'', Scalar (Some 1)),
          (''F1'', Scalar (Some (4 / 3)))]"
  by (simp add: big_pred_def big_gold_def eval_defs)

lemma big_report:
  "report big_pred big_gold [(0, ''a'')] =
     Inr [\<lparr>Precision = Some 2, Recall = Some 1, F1 = Some (4 / 3), Support = 9223372036854775808, Code = ''a''\<rparr>]"
  by (simp add: big_pred_def big_gold_def eval_defs)

lemma big_report_macro:
  "report_macro big_pred big_gold =
     Inr [(''Precision'', Scalar (Some 2)), (''Recall'', Scalar (Some 1)),
          (''F1'', Scalar (Some (4 / 3)))]"
  by (simp add: big_pred_def big_gold_def eval_defs)

lemma report_rows_exact:
  assumes "well_shaped pred" and "well_shaped gold"
    and "nrows gold = nrows pred" and "ncols gold = ncols pred"
    and "nonneg pred" and "nonneg gold" and "fits pred" and "fits gold"
  shows "\<exists>codes. length codes = length d \<and>
     report pred gold d =
       Inr (map (\<lambda>k. \<lparr>Precision = Some (guarded_quotient (class_tp pred gold k) (class_fp pred gold k)),
                      Recall = Some (guarded_quotient (class_tp pred gold k) (class_fn pred gold k)),
                      F1 = Some (f1_value (guarded_quotient (class_tp pred gold k) (class_fp pred gold k))
                                          (guarded_quotient (class_tp pred gold k) (class_fn pred gold k))),
                      Support = (\<Sum>i = 0..<nrows gold. elems gold ! i ! k), Code = codes ! k\<rparr>)
                [0..<min (ncols pred) (length d)])"
proof -
  from report_rows [OF assms(1-4), of d] obtain codes where
    codes: "length codes = length d" and
    rep: "report pred gold d =
       Inr (map (\<lambda>k. \<lparr>Precision = Some (quotient64 (class_tp64 pred gold k) (class_fp64 pred gold k)),
                      Recall = Some (quotient64 (class_tp64 pred gold k) (class_fn64 pred gold k)),
                      F1 = Some (f1_value (quotient64 (class_tp64 pred gold k) (class_fp64 pred gold k))
                                          (quotient64 (class_tp64 pred gold k) (class_fn64 pred gold k))),
                      Support = (\<Sum>i = 0..<nrows gold. elems gold ! i ! k), Code = codes ! k\<rparr>)
                [0..<min (ncols pred) (length d)])"
    by blast
  have "map (\<lambda>k. \<lparr>Precision = Some (quotient64 (class_tp64 pred gold k) (class_fp64 pred gold k)),
                      Recall = Some (quotient64 (class_tp64 pred gold k) (class_fn64 pred gold k)),
                      F1 = Some (f1_value (quotient64 (class_tp64 pred gold k) (class_fp64 pred gold k))
                                          (quotient64 (class_tp64 pred gold k) (class_fn64 pred gold k))),
                      Support = (\<Sum>i = 0..<nrows gold. elems gold ! i ! k), Code = codes ! k\<rparr>)
                [0..<min (ncols pred) (length d)] =
        map (\<lambda>k. \<lparr>Precision = Some (guarded_quotient (class_tp pred gold k) (class_fp pred gold k)),
                      Recall = Some (guarded_quotient (class_tp pred gold k) (class_fn pred gold k)),
                      F1 = Some (f1_value (guarded_quotient (class_tp pred gold k) (class_fp pred gold k))
                                          (guarded_quotient (class_tp pred gold k) (class_fn pred gold k))),
                      Support = (\<Sum>i = 0..<nrows gold. elems gold ! i ! k), Code = codes ! k\<rparr>)
                [0..<min (ncols pred) (length d)]"
  proof (rule map_cong [OF refl])
    fix k assume "k \<in> set [0..<min (ncols pred) (length d)]"
    then have k: "k < ncols pred" by simp
    note q = class_quotients_exact(1) [OF assms(1-6) k assms(7)]
      class_quotients_exact(2) [OF assms(1-6) k assms(8)]
    show "\<lparr>Precision = Some (quotient64 (class_tp64 pred gold k) (class_fp64 pred gold k)),
                      Recall = Some (quotient64 (class_tp64 pred gold k) (class_fn64 pred gold k)),
                      F1 = Some (f1_value (quotient64 (class_tp64 pred gold k) (class_fp64 pred gold k))
                                          (quotient64 (class_tp64 pred gold k) (class_fn64 pred gold k))),
                      Support = (\<Sum>i = 0..<nrows gold. elems gold ! i ! k), Code = codes ! k\<rparr> =
          \<lparr>Precision = Some (guarded_quotient (class_tp pred gold k) (class_fp pred gold k)),
                      Recall = Some (guarded_quotient (class_tp pred gold k) (class_fn pred gold k)),
                      F1 = Some (f1_value (guarded_quotient (class_tp pred gold k) (class_fp pred gold k))
                                          (guarded_quotient (class_tp pred gold k) (class_fn pred gold k))),
                      Support = (\<Sum>i = 0..<nrows gold. elems gold ! i ! k), Code = codes ! k\<rparr>"
      unfolding q ..
  qed
  then show ?thesis using codes rep by auto
qed

lemma report_macro_exact:
  assumes "well_shaped pred" and "well_shaped gold"
    and "nrows gold = nrows pred" and "ncols gold = ncols pred"
    and "nonneg pred" and "nonneg gold" and "fits pred" and "fits gold"
  shows "report_macro pred gold =
     Inr [(''Precision'', Scalar (mean_value (map (\<lambda>j. guarded_quotient (class_tp pred gold j) (class_fp pred gold j))
                                                  [0..<ncols pred]))),
          (''Recall'', Scalar (mean_value (map (\<lambda>j. guarded_quotient (class_tp pred gold j) (class_fn pred gold j))
                                               [0..<ncols pred]))),
          (''F1'', Scalar (f1_of_means
             (mean_value (map (\<lambda>j. guarded_quotient (class_tp pred gold j) (class_fp pred gold j)) [0..<ncols pred]))
             (mean_value (map (\<lambda>j. guarded_quotient (class_tp pred gold j) (class_fn pred gold j)) [0..<ncols pred]))))]"
proof -
  have p: "map (\<lambda>j. quotient64 (class_tp64 pred gold j) (class_fp64 pred gold j)) [0..<ncols pred] =
           map (\<lambda>j. guarded_quotient (class_tp pred gold j) (class_fp pred gold j)) [0..<ncols pred]"
    using class_quotients_exact(1) [OF assms(1-6) _ assms(7)] by (intro map_cong) simp_all
  have r: "map (\<lambda>j. quotient64 (class_tp64 pred gold j) (class_fn64 pred gold j)) [0..<ncols pred] =
           map (\<lambda>j. guarded_quotient (class_tp pred gold j) (class_fn pred gold j)) [0..<ncols pred]"
    using class_quotients_exact(2) [OF assms(1-6) _ assms(8)] by (intro map_cong) simp_all
  show ?thesis
    using report_macro_value [OF assms(1-4)] unfolding p r .
qed

lemma all_zero_cell: "well_shaped a \<Longrightarrow> all_zero a \<Longrightarrow> i < nrows a \<Longrightarrow> j < ncols a \<Longrightarrow> cell a i j = 0"
  using well_shaped_row [of a i]
  by (simp add: all_zero_def cell_def well_shaped_def list_all_length)

lemma all_zero_class_tp:
  assumes "well_shaped pred" and "well_shaped gold"
    and "nrows gold = nrows pred" and "ncols gold = ncols pred"
    and "all_zero pred" and "all_zero gold" and "j < ncols pred"
  shows "class_tp pred gold j = 0"
proof -
  have "min (cell pred i j) (cell gold i j) = 0" if "i < nrows pred" for i
    using that assms all_zero_cell [of pred i j] all_zero_cell [of gold i j] by simp
  then show ?thesis by (simp add: class_tp_def)
qed

lemma guarded_quotient_zero: "guarded_quotient 0 other = 0"
  by (simp add: guarded_quotient_def guarded_div_def)

lemma guarded_quotient_zero_denominator:
  "0 \<le> tp \<Longrightarrow> 0 \<le> other \<Longrightarrow> tp + other = 0 \<Longrightarrow> guarded_quotient tp other = 0"
  by (simp add: guarded_quotient_def guarded_div_def)

lemma f1_value_zero_denominator: "in_unit p \<Longrightarrow> in_unit r \<Longrightarrow> p + r = 0 \<Longrightarrow> f1_value p r = 0"
  by (simp add: f1_value_def guarded_div_def in_unit_def)

lemma f1_value_zero: "f1_value 0 0 = 0"
  by (simp add: f1_value_def guarded_div_def)

lemma defined_in_unit_Some: "defined_in_unit (Some v) = in_unit v"
  by (simp add: defined_in_unit_def in_unit_def)

subsection \<open>True positives, false positives, false negatives\<close>

text \<open>
  Claim C4, as stated, fails: the three functions sum in \<open>int64\<close> arithmetic, and
  the sum wraps around. For \<open>big_pred\<close> and \<open>big_gold\<close>, two non-negative matrices
  of the same shape, the elementwise minima are \<open>2 ^ 62\<close>, \<open>2 ^ 62\<close> and 0, whose
  sum is \<open>2 ^ 63\<close>; \<open>tp_matrix_mul\<close> returns the \<open>int64\<close> value that stands for
  \<open>- 2 ^ 63\<close>.
\<close>

theorem confusion_counts_overflow:
  "well_shaped big_pred \<and> well_shaped big_gold \<and>
   nrows big_gold = nrows big_pred \<and> ncols big_gold = ncols big_pred \<and>
   nonneg big_pred \<and> nonneg big_gold \<and>
   tp_matrix_mul big_pred big_gold Axes01 = Inr (Scalar 9223372036854775808) \<and>
   as_integers (Scalar 9223372036854775808) = Scalar (- 9223372036854775808) \<and>
   sum_over Axes01 (nrows big_pred) (ncols big_pred) (\<lambda>i j. min (cell big_pred i j) (cell big_gold i j)) =
     Scalar 9223372036854775808"
  using big_shapes big_tp big_exact by (simp add: as_integers_def)

text \<open>
  Claim C4, amended. For two non-negative matrices of the same shape and each axis
  argument, \<open>tp_matrix_mul\<close> is the sum over the axes of the elementwise minimum of
  \<open>pred\<close> and \<open>gold\<close>, \<open>fp_matrix_mul\<close> the sum of the elementwise maximum of
  \<open>pred - gold\<close> and 0, and \<open>fn_matrix_mul\<close> the sum of the elementwise maximum
  of \<open>gold - pred\<close> and 0, each sum taken in \<open>int64\<close> arithmetic: it is the exact
  sum reduced modulo \<open>2 ^ 64\<close> into the signed range. The returned value stands for
  the exact sum of the minima when the entries of \<open>pred\<close>, or those of \<open>gold\<close>, sum
  to less than \<open>2 ^ 63\<close>; for the exact sum of the excess of \<open>pred\<close> when the
  entries of \<open>pred\<close> do; and for the exact sum of the excess of \<open>gold\<close> when the
  entries of \<open>gold\<close> do.
\<close>

theorem confusion_counts:
  assumes "well_shaped pred" and "well_shaped gold"
    and "nrows gold = nrows pred" and "ncols gold = ncols pred"
    and "nonneg pred" and "nonneg gold"
  shows "tp_matrix_mul pred gold ax =
           Inr (as_int64 (sum_over ax (nrows pred) (ncols pred) (\<lambda>i j. min (cell pred i j) (cell gold i j)))) \<and>
         fp_matrix_mul pred gold ax =
           Inr (as_int64 (sum_over ax (nrows pred) (ncols pred) (\<lambda>i j. max (cell pred i j - cell gold i j) 0))) \<and>
         fn_matrix_mul pred gold ax =
           Inr (as_int64 (sum_over ax (nrows pred) (ncols pred) (\<lambda>i j. max (cell gold i j - cell pred i j) 0))) \<and>
         (fits pred \<or> fits gold \<longrightarrow>
            (\<exists>tp. tp_matrix_mul pred gold ax = Inr tp \<and>
                  as_integers tp =
                    sum_over ax (nrows pred) (ncols pred) (\<lambda>i j. min (cell pred i j) (cell gold i j)))) \<and>
         (fits pred \<longrightarrow>
            (\<exists>fp. fp_matrix_mul pred gold ax = Inr fp \<and>
                  as_integers fp =
                    sum_over ax (nrows pred) (ncols pred) (\<lambda>i j. max (cell pred i j - cell gold i j) 0))) \<and>
         (fits gold \<longrightarrow>
            (\<exists>fn. fn_matrix_mul pred gold ax = Inr fn \<and>
                  as_integers fn =
                    sum_over ax (nrows pred) (ncols pred) (\<lambda>i j. max (cell gold i j - cell pred i j) 0)))"
proof -
  note tp = tp_as_int64 [OF assms(1-4), of ax]
  note fp = counts_as_int64(1) [OF assms, of ax]
  note fn = counts_as_int64(2) [OF assms, of ax]
  note ex = counts_exact [OF assms, of ax]
  have e1: "fits pred \<or> fits gold \<longrightarrow>
            (\<exists>tp. tp_matrix_mul pred gold ax = Inr tp \<and>
                  as_integers tp =
                    sum_over ax (nrows pred) (ncols pred) (\<lambda>i j. min (cell pred i j) (cell gold i j)))"
    unfolding tp using ex(1,2) by auto
  have e2: "fits pred \<longrightarrow>
            (\<exists>fp. fp_matrix_mul pred gold ax = Inr fp \<and>
                  as_integers fp =
                    sum_over ax (nrows pred) (ncols pred) (\<lambda>i j. max (cell pred i j - cell gold i j) 0))"
    unfolding fp using ex(3) by auto
  have e3: "fits gold \<longrightarrow>
            (\<exists>fn. fn_matrix_mul pred gold ax = Inr fn \<and>
                  as_integers fn =
                    sum_over ax (nrows pred) (ncols pred) (\<lambda>i j. max (cell gold i j - cell pred i j) 0))"
    unfolding fn using ex(4) by auto
  show ?thesis using tp fp fn e1 e2 e3 by blast
qed

theorem confusion_counts_witness:
  "well_shaped count_pred \<and> well_shaped count_gold \<and>
   nrows count_gold = nrows count_pred \<and> ncols count_gold = ncols count_pred \<and>
   nonneg count_pred \<and> nonneg count_gold \<and> fits count_pred \<and> fits count_gold \<and>
   (\<exists>tp. tp_matrix_mul count_pred count_gold Axis0 = Inr tp \<and> as_integers tp = Vector [1, 1]) \<and>
   (\<exists>fp. fp_matrix_mul count_pred count_gold Axis0 = Inr fp \<and> as_integers fp = Vector [2, 0]) \<and>
   (\<exists>fn. fn_matrix_mul count_pred count_gold Axis0 = Inr fn \<and> as_integers fn = Vector [0, 3]) \<and>
   (\<exists>tp. tp_matrix_mul count_pred count_gold Axes01 = Inr tp \<and> as_integers tp = Scalar 2) \<and>
   (\<exists>fp. fp_matrix_mul count_pred count_gold Axis1 = Inr fp \<and> as_integers fp = Vector [1, 1])"
proof -
  note c0 = confusion_counts [OF count_shapes, of Axis0]
  note c1 = confusion_counts [OF count_shapes, of Axis1]
  note c2 = confusion_counts [OF count_shapes, of Axes01]
  have v: "sum_over Axis0 (nrows count_pred) (ncols count_pred)
             (\<lambda>i j. min (cell count_pred i j) (cell count_gold i j)) = Vector [1, 1]"
    "sum_over Axis0 (nrows count_pred) (ncols count_pred)
             (\<lambda>i j. max (cell count_pred i j - cell count_gold i j) 0) = Vector [2, 0]"
    "sum_over Axis0 (nrows count_pred) (ncols count_pred)
             (\<lambda>i j. max (cell count_gold i j - cell count_pred i j) 0) = Vector [0, 3]"
    "sum_over Axes01 (nrows count_pred) (ncols count_pred)
             (\<lambda>i j. min (cell count_pred i j) (cell count_gold i j)) = Scalar 2"
    "sum_over Axis1 (nrows count_pred) (ncols count_pred)
             (\<lambda>i j. max (cell count_pred i j - cell count_gold i j) 0) = Vector [1, 1]"
    by (simp_all add: sum_over_def cell_def count_pred_def count_gold_def sum_two upt_two)
  show ?thesis
    using c0 c1 c2 count_shapes count_fits unfolding v by blast
qed

subsection \<open>Zero denominators\<close>

text \<open>
  Claim C5, as stated, fails in two ways. The counts are \<open>int64\<close> values that wrap
  around: for the non-negative matrices \<open>big_pred\<close> and \<open>big_gold\<close> the true
  positives count as \<open>- 2 ^ 63\<close> and the denominator of the precision as
  \<open>- 2 ^ 62\<close>, so that \<open>report\<close>, \<open>report_micro\<close> and \<open>report_macro\<close> give the
  Precision 2 and the F1 4/3, outside [0, 1]. And \<open>report_macro\<close> averages over the
  classes without a guard: on two matrices with two documents and no class column,
  Precision, Recall and F1 are \<open>nan\<close>.
\<close>

theorem scores_outside_unit_counterexample:
  "well_shaped big_pred \<and> well_shaped big_gold \<and>
   nrows big_gold = nrows big_pred \<and> ncols big_gold = ncols big_pred \<and>
   nonneg big_pred \<and> nonneg big_gold \<and>
   report big_pred big_gold [(0, ''a'')] =
     Inr [\<lparr>Precision = Some 2, Recall = Some 1, F1 = Some (4 / 3),
           Support = 9223372036854775808, Code = ''a''\<rparr>] \<and>
   report_micro big_pred big_gold =
     Inr [(''Precision'', Scalar (Some 2)), (''Recall'', Scalar (Some 1)), (''F1'', Scalar (Some (4 / 3)))] \<and>
   report_macro big_pred big_gold =
     Inr [(''Precision'', Scalar (Some 2)), (''Recall'', Scalar (Some 1)), (''F1'', Scalar (Some (4 / 3)))] \<and>
   \<not> defined_in_unit (Some 2) \<and> \<not> defined_in_unit (Some (4 / 3)) \<and>
   well_shaped no_class_matrix \<and> nonneg no_class_matrix \<and>
   report_macro no_class_matrix no_class_matrix =
     Inr [(''Precision'', Scalar None), (''Recall'', Scalar None), (''F1'', Scalar None)] \<and>
   \<not> defined_in_unit None"
proof -
  have "well_shaped no_class_matrix \<and> nonneg no_class_matrix \<and>
   report_macro no_class_matrix no_class_matrix =
     Inr [(''Precision'', Scalar None), (''Recall'', Scalar None), (''F1'', Scalar None)]"
    by (simp add: no_class_matrix_def well_shaped_def nonneg_def report_macro_def
      tp_matrix_mul_per_class_def fp_matrix_mul_per_class_def fn_matrix_mul_per_class_def
      tp_matrix_mul_def fp_matrix_mul_def fn_matrix_mul_def np_binary_def broadcast_dim_def
      broadcast_to_def np_unary_def guarded_ratio_def f1_score_def fadd_def fadd_int_def fmul_def
      fdivide_def feq0_def)
  then show ?thesis
    using big_shapes big_report big_report_micro big_report_macro
    by (simp add: defined_in_unit_def)
qed

text \<open>
  Claim C5, amended. For two non-negative matrices of the same shape, the entries of
  each summing to less than \<open>2 ^ 63\<close>: every row of \<open>report\<close> holds the precision,
  recall and F1 of its class computed with a denominator 0 replaced by 1, each a real
  number of [0, 1], and each 0 when its denominator is 0; on all-zero matrices every row
  has Precision, Recall and F1 equal to 0; the same holds of the three values of
  \<open>report_micro\<close>; the Precision and the Recall of \<open>report_macro\<close> are the means
  of these per-class values, and its F1 is computed from the two means with a denominator
  0 replaced by 1; the three are real numbers of [0, 1] when the matrices have at least
  one class column, and \<open>nan\<close> when they have none.
\<close>

theorem scores_defined_in_unit:
  assumes "well_shaped pred" and "well_shaped gold"
    and "nrows gold = nrows pred" and "ncols gold = ncols pred"
    and "nonneg pred" and "nonneg gold"
    and "fits pred" and "fits gold"
  shows "(\<exists>rows. report pred gold code_id_dict = Inr rows \<and>
            length rows = min (ncols pred) (length code_id_dict) \<and>
            (\<forall>k < length rows.
               Precision (rows ! k) = Some (guarded_quotient (class_tp pred gold k) (class_fp pred gold k)) \<and>
               Recall (rows ! k) = Some (guarded_quotient (class_tp pred gold k) (class_fn pred gold k)) \<and>
               F1 (rows ! k) = Some (f1_value (guarded_quotient (class_tp pred gold k) (class_fp pred gold k))
                                               (guarded_quotient (class_tp pred gold k) (class_fn pred gold k))) \<and>
               defined_in_unit (Precision (rows ! k)) \<and> defined_in_unit (Recall (rows ! k)) \<and>
               defined_in_unit (F1 (rows ! k)) \<and>
               (class_tp pred gold k + class_fp pred gold k = 0 \<longrightarrow> Precision (rows ! k) = Some 0) \<and>
               (class_tp pred gold k + class_fn pred gold k = 0 \<longrightarrow> Recall (rows ! k) = Some 0) \<and>
               (guarded_quotient (class_tp pred gold k) (class_fp pred gold k) +
                guarded_quotient (class_tp pred gold k) (class_fn pred gold k) = 0 \<longrightarrow>
                  F1 (rows ! k) = Some 0)) \<and>
            (all_zero pred \<and> all_zero gold \<longrightarrow>
               (\<forall>k < length rows.
                  Precision (rows ! k) = Some 0 \<and> Recall (rows ! k) = Some 0 \<and> F1 (rows ! k) = Some 0))) \<and>
         (\<exists>P R F. report_micro pred gold =
                     Inr [(''Precision'', Scalar P), (''Recall'', Scalar R), (''F1'', Scalar F)] \<and>
                   P = Some (guarded_quotient (total_tp pred gold) (total_fp pred gold)) \<and>
                   R = Some (guarded_quotient (total_tp pred gold) (total_fn pred gold)) \<and>
                   F = Some (f1_value (guarded_quotient (total_tp pred gold) (total_fp pred gold))
                                      (guarded_quotient (total_tp pred gold) (total_fn pred gold))) \<and>
                   defined_in_unit P \<and> defined_in_unit R \<and> defined_in_unit F \<and>
                   (total_tp pred gold + total_fp pred gold = 0 \<longrightarrow> P = Some 0) \<and>
                   (total_tp pred gold + total_fn pred gold = 0 \<longrightarrow> R = Some 0) \<and>
                   (guarded_quotient (total_tp pred gold) (total_fp pred gold) +
                    guarded_quotient (total_tp pred gold) (total_fn pred gold) = 0 \<longrightarrow> F = Some 0)) \<and>
         (\<exists>P R F. report_macro pred gold =
                     Inr [(''Precision'', Scalar P), (''Recall'', Scalar R), (''F1'', Scalar F)] \<and>
                   P = mean_value (map (\<lambda>j. guarded_quotient (class_tp pred gold j) (class_fp pred gold j))
                                       [0..<ncols pred]) \<and>
                   R = mean_value (map (\<lambda>j. guarded_quotient (class_tp pred gold j) (class_fn pred gold j))
                                       [0..<ncols pred]) \<and>
                   F = f1_of_means P R \<and>
                   (0 < ncols pred \<longrightarrow>
                      defined_in_unit P \<and> defined_in_unit R \<and> defined_in_unit F \<and>
                      (\<exists>p r. P = Some p \<and> R = Some r \<and> F = Some (f1_value p r) \<and>
                             (p + r = 0 \<longrightarrow> F = Some 0))) \<and>
                   (ncols pred = 0 \<longrightarrow> P = None \<and> R = None \<and> F = None))"
proof (intro conjI)
  let ?P = "\<lambda>k. guarded_quotient (class_tp pred gold k) (class_fp pred gold k)"
  let ?R = "\<lambda>k. guarded_quotient (class_tp pred gold k) (class_fn pred gold k)"
  let ?S = "\<lambda>k. \<Sum>i = 0..<nrows gold. elems gold ! i ! k"
  let ?m = "min (ncols pred) (length code_id_dict)"
  note shape = assms(1-4)
  have unitP: "in_unit (?P k)" and unitR: "in_unit (?R k)" if "k < ncols pred" for k
    using class_counts_nonneg [OF assms(1-6) that] by (simp_all add: guarded_quotient_unit)
  from report_rows_exact [OF assms, of code_id_dict] obtain codes where
    rep: "report pred gold code_id_dict =
       Inr (map (\<lambda>k. \<lparr>Precision = Some (?P k), Recall = Some (?R k), F1 = Some (f1_value (?P k) (?R k)),
                      Support = ?S k, Code = codes ! k\<rparr>) [0..<?m])"
    by blast
  let ?rows = "map (\<lambda>k. \<lparr>Precision = Some (?P k), Recall = Some (?R k), F1 = Some (f1_value (?P k) (?R k)),
                      Support = ?S k, Code = codes ! k\<rparr>) [0..<?m]"
  have len: "length ?rows = ?m" by simp
  have row: "Precision (?rows ! k) = Some (?P k) \<and> Recall (?rows ! k) = Some (?R k) \<and>
             F1 (?rows ! k) = Some (f1_value (?P k) (?R k))" if "k < ?m" for k
    using that by simp
  have per_row: "Precision (?rows ! k) = Some (?P k) \<and>
               Recall (?rows ! k) = Some (?R k) \<and>
               F1 (?rows ! k) = Some (f1_value (?P k) (?R k)) \<and>
               defined_in_unit (Precision (?rows ! k)) \<and> defined_in_unit (Recall (?rows ! k)) \<and>
               defined_in_unit (F1 (?rows ! k)) \<and>
               (class_tp pred gold k + class_fp pred gold k = 0 \<longrightarrow> Precision (?rows ! k) = Some 0) \<and>
               (class_tp pred gold k + class_fn pred gold k = 0 \<longrightarrow> Recall (?rows ! k) = Some 0) \<and>
               (?P k + ?R k = 0 \<longrightarrow> F1 (?rows ! k) = Some 0)" if "k < length ?rows" for k
  proof -
    have k: "k < ?m" "k < ncols pred" using that by simp_all
    note c = class_counts_nonneg [OF assms(1-6) k(2)]
    have u: "in_unit (?P k)" "in_unit (?R k)" using unitP [OF k(2)] unitR [OF k(2)] .
    have uf: "in_unit (f1_value (?P k) (?R k))" using f1_value_unit [OF u] .
    have z1: "class_tp pred gold k + class_fp pred gold k = 0 \<longrightarrow> ?P k = 0"
      using guarded_quotient_zero_denominator [OF c(1) c(2)] by simp
    have z2: "class_tp pred gold k + class_fn pred gold k = 0 \<longrightarrow> ?R k = 0"
      using guarded_quotient_zero_denominator [OF c(1) c(3)] by simp
    have z3: "?P k + ?R k = 0 \<longrightarrow> f1_value (?P k) (?R k) = 0"
      using f1_value_zero_denominator [OF u] by simp
    show ?thesis
      unfolding conjunct1 [OF row [OF k(1)]] conjunct1 [OF conjunct2 [OF row [OF k(1)]]]
        conjunct2 [OF conjunct2 [OF row [OF k(1)]]] defined_in_unit_Some
      using u uf z1 z2 z3 by simp
  qed
  have zero: "Precision (?rows ! k) = Some 0 \<and> Recall (?rows ! k) = Some 0 \<and> F1 (?rows ! k) = Some 0"
    if "all_zero pred \<and> all_zero gold" "k < length ?rows" for k
  proof -
    have k: "k < ?m" "k < ncols pred" using that(2) by simp_all
    have "class_tp pred gold k = 0"
      using all_zero_class_tp [OF shape _ _ k(2)] that(1) by simp
    then have "?P k = 0" "?R k = 0" by (simp_all add: guarded_quotient_zero)
    then show ?thesis using row [OF k(1)] by (simp add: f1_value_zero)
  qed
  show "\<exists>rows. report pred gold code_id_dict = Inr rows \<and>
            length rows = min (ncols pred) (length code_id_dict) \<and>
            (\<forall>k < length rows.
               Precision (rows ! k) = Some (guarded_quotient (class_tp pred gold k) (class_fp pred gold k)) \<and>
               Recall (rows ! k) = Some (guarded_quotient (class_tp pred gold k) (class_fn pred gold k)) \<and>
               F1 (rows ! k) = Some (f1_value (guarded_quotient (class_tp pred gold k) (class_fp pred gold k))
                                               (guarded_quotient (class_tp pred gold k) (class_fn pred gold k))) \<and>
               defined_in_unit (Precision (rows ! k)) \<and> defined_in_unit (Recall (rows ! k)) \<and>
               defined_in_unit (F1 (rows ! k)) \<and>
               (class_tp pred gold k + class_fp pred gold k = 0 \<longrightarrow> Precision (rows ! k) = Some 0) \<and>
               (class_tp pred gold k + class_fn pred gold k = 0 \<longrightarrow> Recall (rows ! k) = Some 0) \<and>
               (guarded_quotient (class_tp pred gold k) (class_fp pred gold k) +
                guarded_quotient (class_tp pred gold k) (class_fn pred gold k) = 0 \<longrightarrow>
                  F1 (rows ! k) = Some 0)) \<and>
            (all_zero pred \<and> all_zero gold \<longrightarrow>
               (\<forall>k < length rows.
                  Precision (rows ! k) = Some 0 \<and> Recall (rows ! k) = Some 0 \<and> F1 (rows ! k) = Some 0))"
    using rep len per_row zero by blast
next
  note t = total_counts_nonneg [OF assms(1-6)]
  let ?P = "guarded_quotient (total_tp pred gold) (total_fp pred gold)"
  let ?R = "guarded_quotient (total_tp pred gold) (total_fn pred gold)"
  have u: "in_unit ?P" "in_unit ?R" using t by (simp_all add: guarded_quotient_unit)
  have uf: "in_unit (f1_value ?P ?R)" using f1_value_unit [OF u] .
  have z1: "total_tp pred gold + total_fp pred gold = 0 \<longrightarrow> ?P = 0"
    using guarded_quotient_zero_denominator [OF t(1) t(2)] by simp
  have z2: "total_tp pred gold + total_fn pred gold = 0 \<longrightarrow> ?R = 0"
    using guarded_quotient_zero_denominator [OF t(1) t(3)] by simp
  have z3: "?P + ?R = 0 \<longrightarrow> f1_value ?P ?R = 0"
    using f1_value_zero_denominator [OF u] by simp
  show "\<exists>P R F. report_micro pred gold =
                     Inr [(''Precision'', Scalar P), (''Recall'', Scalar R), (''F1'', Scalar F)] \<and>
                   P = Some (guarded_quotient (total_tp pred gold) (total_fp pred gold)) \<and>
                   R = Some (guarded_quotient (total_tp pred gold) (total_fn pred gold)) \<and>
                   F = Some (f1_value (guarded_quotient (total_tp pred gold) (total_fp pred gold))
                                      (guarded_quotient (total_tp pred gold) (total_fn pred gold))) \<and>
                   defined_in_unit P \<and> defined_in_unit R \<and> defined_in_unit F \<and>
                   (total_tp pred gold + total_fp pred gold = 0 \<longrightarrow> P = Some 0) \<and>
                   (total_tp pred gold + total_fn pred gold = 0 \<longrightarrow> R = Some 0) \<and>
                   (guarded_quotient (total_tp pred gold) (total_fp pred gold) +
                    guarded_quotient (total_tp pred gold) (total_fn pred gold) = 0 \<longrightarrow> F = Some 0)"
    using report_micro_exact [OF assms] u uf z1 z2 z3 by (simp add: defined_in_unit_Some)
next
  let ?ps = "map (\<lambda>j. guarded_quotient (class_tp pred gold j) (class_fp pred gold j)) [0..<ncols pred]"
  let ?rs = "map (\<lambda>j. guarded_quotient (class_tp pred gold j) (class_fn pred gold j)) [0..<ncols pred]"
  note rep = report_macro_exact [OF assms]
  have pos: "defined_in_unit (mean_value ?ps) \<and> defined_in_unit (mean_value ?rs) \<and>
             defined_in_unit (f1_of_means (mean_value ?ps) (mean_value ?rs)) \<and>
             (\<exists>p r. mean_value ?ps = Some p \<and> mean_value ?rs = Some r \<and>
                    f1_of_means (mean_value ?ps) (mean_value ?rs) = Some (f1_value p r) \<and>
                    (p + r = 0 \<longrightarrow> f1_of_means (mean_value ?ps) (mean_value ?rs) = Some 0))"
    if n: "0 < ncols pred"
  proof -
    have ne: "?ps \<noteq> []" "?rs \<noteq> []" using n by simp_all
    have up: "\<forall>x \<in> set ?ps. in_unit x" and ur: "\<forall>x \<in> set ?rs. in_unit x"
      using class_counts_nonneg [OF assms(1-6)] by (auto simp: guarded_quotient_unit)
    from mean_value_unit [OF ne(1) up] obtain p where p: "mean_value ?ps = Some p" "in_unit p" by blast
    from mean_value_unit [OF ne(2) ur] obtain r where r: "mean_value ?rs = Some r" "in_unit r" by blast
    have f: "in_unit (f1_value p r)" using f1_value_unit [OF p(2) r(2)] .
    have z: "p + r = 0 \<longrightarrow> f1_value p r = 0" using f1_value_zero_denominator [OF p(2) r(2)] by simp
    show ?thesis
      unfolding p(1) r(1) using p(2) r(2) f z by (simp add: f1_of_means_def defined_in_unit_Some)
  qed
  have none: "mean_value ?ps = None \<and> mean_value ?rs = None \<and>
              f1_of_means (mean_value ?ps) (mean_value ?rs) = None" if "ncols pred = 0"
    using that by (simp add: mean_value_def f1_of_means_def)
  have body: "report_macro pred gold =
                     Inr [(''Precision'', Scalar (mean_value ?ps)), (''Recall'', Scalar (mean_value ?rs)),
                          (''F1'', Scalar (f1_of_means (mean_value ?ps) (mean_value ?rs)))] \<and>
                   mean_value ?ps = mean_value ?ps \<and>
                   mean_value ?rs = mean_value ?rs \<and>
                   f1_of_means (mean_value ?ps) (mean_value ?rs) = f1_of_means (mean_value ?ps) (mean_value ?rs) \<and>
                   (0 < ncols pred \<longrightarrow>
                      defined_in_unit (mean_value ?ps) \<and> defined_in_unit (mean_value ?rs) \<and>
                      defined_in_unit (f1_of_means (mean_value ?ps) (mean_value ?rs)) \<and>
                      (\<exists>p r. mean_value ?ps = Some p \<and> mean_value ?rs = Some r \<and>
                             f1_of_means (mean_value ?ps) (mean_value ?rs) = Some (f1_value p r) \<and>
                             (p + r = 0 \<longrightarrow> f1_of_means (mean_value ?ps) (mean_value ?rs) = Some 0))) \<and>
                   (ncols pred = 0 \<longrightarrow>
                      mean_value ?ps = None \<and> mean_value ?rs = None \<and>
                      f1_of_means (mean_value ?ps) (mean_value ?rs) = None)"
  proof (intro conjI impI)
    show "report_macro pred gold =
                     Inr [(''Precision'', Scalar (mean_value ?ps)), (''Recall'', Scalar (mean_value ?rs)),
                          (''F1'', Scalar (f1_of_means (mean_value ?ps) (mean_value ?rs)))]"
      by (rule rep)
  qed (use pos none in blast)+
  show "\<exists>P R F. report_macro pred gold =
                     Inr [(''Precision'', Scalar P), (''Recall'', Scalar R), (''F1'', Scalar F)] \<and>
                   P = mean_value (map (\<lambda>j. guarded_quotient (class_tp pred gold j) (class_fp pred gold j))
                                       [0..<ncols pred]) \<and>
                   R = mean_value (map (\<lambda>j. guarded_quotient (class_tp pred gold j) (class_fn pred gold j))
                                       [0..<ncols pred]) \<and>
                   F = f1_of_means P R \<and>
                   (0 < ncols pred \<longrightarrow>
                      defined_in_unit P \<and> defined_in_unit R \<and> defined_in_unit F \<and>
                      (\<exists>p r. P = Some p \<and> R = Some r \<and> F = Some (f1_value p r) \<and>
                             (p + r = 0 \<longrightarrow> F = Some 0))) \<and>
                   (ncols pred = 0 \<longrightarrow> P = None \<and> R = None \<and> F = None)"
    by (intro exI) (rule body)
qed

theorem scores_defined_in_unit_witness:
  "well_shaped zero_matrix \<and> nonneg zero_matrix \<and> all_zero zero_matrix \<and> fits zero_matrix \<and>
   (\<exists>rows. report zero_matrix zero_matrix two_class_ids = Inr rows \<and> length rows = 2 \<and>
        Precision (rows ! 0) = Some 0 \<and> Recall (rows ! 0) = Some 0 \<and> F1 (rows ! 0) = Some 0 \<and>
        Precision (rows ! 1) = Some 0 \<and> Recall (rows ! 1) = Some 0 \<and> F1 (rows ! 1) = Some 0) \<and>
   (\<exists>P R F. report_micro zero_matrix zero_matrix =
               Inr [(''Precision'', Scalar P), (''Recall'', Scalar R), (''F1'', Scalar F)] \<and>
             defined_in_unit P \<and> defined_in_unit R \<and> defined_in_unit F) \<and>
   (\<exists>P R F. report_macro zero_matrix zero_matrix =
               Inr [(''Precision'', Scalar P), (''Recall'', Scalar R), (''F1'', Scalar F)] \<and>
             defined_in_unit P \<and> defined_in_unit R \<and> defined_in_unit F)"
proof -
  have s: "nrows zero_matrix = nrows zero_matrix" "ncols zero_matrix = ncols zero_matrix" by simp_all
  have n: "0 < ncols zero_matrix" by (simp add: zero_matrix_def)
  have m: "min (ncols zero_matrix) (length two_class_ids) = 2"
    by (simp add: zero_matrix_def two_class_ids_def)
  note t = scores_defined_in_unit [OF zero_shapes(1) zero_shapes(1) s zero_shapes(2) zero_shapes(2)
      zero_shapes(4) zero_shapes(4), of two_class_ids]
  from conjunct1 [OF t] obtain rows where
    r: "report zero_matrix zero_matrix two_class_ids = Inr rows"
       "length rows = min (ncols zero_matrix) (length two_class_ids)"
       "all_zero zero_matrix \<and> all_zero zero_matrix \<longrightarrow>
          (\<forall>k < length rows. Precision (rows ! k) = Some 0 \<and> Recall (rows ! k) = Some 0 \<and> F1 (rows ! k) = Some 0)"
    by (elim exE conjE) (rule that, assumption+)
  have len: "length rows = 2" using r(2) m by simp
  have z: "\<forall>k < length rows. Precision (rows ! k) = Some 0 \<and> Recall (rows ! k) = Some 0 \<and> F1 (rows ! k) = Some 0"
    using r(3) zero_shapes(3) by simp
  have r0: "Precision (rows ! 0) = Some 0 \<and> Recall (rows ! 0) = Some 0 \<and> F1 (rows ! 0) = Some 0"
    using len z by simp
  have r1: "Precision (rows ! 1) = Some 0 \<and> Recall (rows ! 1) = Some 0 \<and> F1 (rows ! 1) = Some 0"
    using len z by simp
  have rows: "\<exists>rows. report zero_matrix zero_matrix two_class_ids = Inr rows \<and> length rows = 2 \<and>
        Precision (rows ! 0) = Some 0 \<and> Recall (rows ! 0) = Some 0 \<and> F1 (rows ! 0) = Some 0 \<and>
        Precision (rows ! 1) = Some 0 \<and> Recall (rows ! 1) = Some 0 \<and> F1 (rows ! 1) = Some 0"
    using r(1) len r0 r1 by blast
  from conjunct1 [OF conjunct2 [OF t]] obtain P R F where
    mi: "report_micro zero_matrix zero_matrix =
               Inr [(''Precision'', Scalar P), (''Recall'', Scalar R), (''F1'', Scalar F)]"
        "defined_in_unit P" "defined_in_unit R" "defined_in_unit F"
    by (elim exE conjE) (rule that, assumption+)
  have micro: "\<exists>P R F. report_micro zero_matrix zero_matrix =
               Inr [(''Precision'', Scalar P), (''Recall'', Scalar R), (''F1'', Scalar F)] \<and>
             defined_in_unit P \<and> defined_in_unit R \<and> defined_in_unit F"
    using mi by blast
  from conjunct2 [OF conjunct2 [OF t]] obtain P' R' F' where
    ma: "report_macro zero_matrix zero_matrix =
               Inr [(''Precision'', Scalar P'), (''Recall'', Scalar R'), (''F1'', Scalar F')]"
        "0 < ncols zero_matrix \<longrightarrow>
           defined_in_unit P' \<and> defined_in_unit R' \<and> defined_in_unit F' \<and>
           (\<exists>p r. P' = Some p \<and> R' = Some r \<and> F' = Some (f1_value p r) \<and> (p + r = 0 \<longrightarrow> F' = Some 0))"
    by (elim exE conjE) (rule that, assumption+)
  have "defined_in_unit P' \<and> defined_in_unit R' \<and> defined_in_unit F'"
    using ma(2) n by blast
  then have macro: "\<exists>P R F. report_macro zero_matrix zero_matrix =
               Inr [(''Precision'', Scalar P), (''Recall'', Scalar R), (''F1'', Scalar F)] \<and>
             defined_in_unit P \<and> defined_in_unit R \<and> defined_in_unit F"
    using ma(1) by blast
  show ?thesis using zero_shapes rows micro macro by blast
qed

subsection \<open>Macro averages\<close>

text \<open>
  Claim C6. For two matrices of the same shape, the Precision and the Recall of
  \<open>report_macro\<close> are the unweighted means of the per-class precision and recall
  (those of the rows of \<open>report\<close>: the true positives of the class over their sum
  with its false positives or negatives, the sum replaced by 1 when it is 0), and its
  F1 is computed from these two means, with the same guard. For non-negative matrices
  whose entries sum to less than \<open>2 ^ 63\<close> each, the per-class values are those of the
  exact counts. The F1 is not the mean of the per-class F1 scores: for \<open>count_pred\<close>
  and \<open>count_gold\<close> the macro F1 is 20/31 and the mean of the per-class F1 scores is
  9/20.
\<close>

theorem macro_f1_from_macro_means:
  assumes "well_shaped pred" and "well_shaped gold"
    and "nrows gold = nrows pred" and "ncols gold = ncols pred"
  shows "report_macro pred gold =
     Inr [(''Precision'', Scalar (mean_value (map (\<lambda>j. quotient64 (class_tp64 pred gold j) (class_fp64 pred gold j))
                                                  [0..<ncols pred]))),
          (''Recall'', Scalar (mean_value (map (\<lambda>j. quotient64 (class_tp64 pred gold j) (class_fn64 pred gold j))
                                               [0..<ncols pred]))),
          (''F1'', Scalar (f1_of_means
             (mean_value (map (\<lambda>j. quotient64 (class_tp64 pred gold j) (class_fp64 pred gold j)) [0..<ncols pred]))
             (mean_value (map (\<lambda>j. quotient64 (class_tp64 pred gold j) (class_fn64 pred gold j)) [0..<ncols pred]))))] \<and>
   (\<exists>rows. report pred gold code_id_dict = Inr rows \<and>
      (\<forall>k < length rows.
         Precision (rows ! k) = Some (quotient64 (class_tp64 pred gold k) (class_fp64 pred gold k)) \<and>
         Recall (rows ! k) = Some (quotient64 (class_tp64 pred gold k) (class_fn64 pred gold k)))) \<and>
   (nonneg pred \<and> nonneg gold \<and> fits pred \<and> fits gold \<longrightarrow>
      (\<forall>j < ncols pred.
         quotient64 (class_tp64 pred gold j) (class_fp64 pred gold j) =
           guarded_quotient (class_tp pred gold j) (class_fp pred gold j) \<and>
         quotient64 (class_tp64 pred gold j) (class_fn64 pred gold j) =
           guarded_quotient (class_tp pred gold j) (class_fn pred gold j))) \<and>
   report_macro count_pred count_gold =
     Inr [(''Precision'', Scalar (Some (2 / 3))), (''Recall'', Scalar (Some (5 / 8))),
          (''F1'', Scalar (Some (20 / 31)))] \<and>
   f1_value (2 / 3) (5 / 8) = 20 / 31 \<and>
   report count_pred count_gold two_class_ids =
     Inr [\<lparr>Precision = Some (1 / 3), Recall = Some 1, F1 = Some (1 / 2), Support = 1, Code = ''a''\<rparr>,
          \<lparr>Precision = Some 1, Recall = Some (1 / 4), F1 = Some (2 / 5), Support = 4, Code = ''b''\<rparr>] \<and>
   mean_value [1 / 2, 2 / 5] = Some (9 / 20) \<and>
   (20 / 31 :: real) \<noteq> 9 / 20"
proof -
  from report_rows [OF assms, of code_id_dict] obtain codes where
    rep: "report pred gold code_id_dict =
       Inr (map (\<lambda>k. \<lparr>Precision = Some (quotient64 (class_tp64 pred gold k) (class_fp64 pred gold k)),
                      Recall = Some (quotient64 (class_tp64 pred gold k) (class_fn64 pred gold k)),
                      F1 = Some (f1_value (quotient64 (class_tp64 pred gold k) (class_fp64 pred gold k))
                                          (quotient64 (class_tp64 pred gold k) (class_fn64 pred gold k))),
                      Support = (\<Sum>i = 0..<nrows gold. elems gold ! i ! k), Code = codes ! k\<rparr>)
                [0..<min (ncols pred) (length code_id_dict)])"
    by blast
  have rows: "\<exists>rows. report pred gold code_id_dict = Inr rows \<and>
      (\<forall>k < length rows.
         Precision (rows ! k) = Some (quotient64 (class_tp64 pred gold k) (class_fp64 pred gold k)) \<and>
         Recall (rows ! k) = Some (quotient64 (class_tp64 pred gold k) (class_fn64 pred gold k)))"
    unfolding rep by simp
  have exact: "nonneg pred \<and> nonneg gold \<and> fits pred \<and> fits gold \<longrightarrow>
      (\<forall>j < ncols pred.
         quotient64 (class_tp64 pred gold j) (class_fp64 pred gold j) =
           guarded_quotient (class_tp pred gold j) (class_fp pred gold j) \<and>
         quotient64 (class_tp64 pred gold j) (class_fn64 pred gold j) =
           guarded_quotient (class_tp pred gold j) (class_fn pred gold j))"
    using class_quotients_exact [OF assms] by blast
  have f: "f1_value (2 / 3) (5 / 8) = 20 / 31"
    by (simp add: f1_value_def guarded_div_def)
  have m: "mean_value [1 / 2, 2 / 5] = Some (9 / 20)"
    by (simp add: mean_value_def)
  have ne: "(20 / 31 :: real) \<noteq> 9 / 20" by simp
  show ?thesis
    by (intro conjI) (rule report_macro_value [OF assms] rows exact count_report_macro f count_report m ne)+
qed

theorem macro_f1_from_macro_means_witness:
  "well_shaped count_pred \<and> well_shaped count_gold \<and>
   nrows count_gold = nrows count_pred \<and> ncols count_gold = ncols count_pred \<and>
   nonneg count_pred \<and> nonneg count_gold \<and> fits count_pred \<and> fits count_gold \<and>
   mean_value (map (\<lambda>j. quotient64 (class_tp64 count_pred count_gold j) (class_fp64 count_pred count_gold j))
                   [0..<ncols count_pred]) = Some (2 / 3) \<and>
   mean_value (map (\<lambda>j. quotient64 (class_tp64 count_pred count_gold j) (class_fn64 count_pred count_gold j))
                   [0..<ncols count_pred]) = Some (5 / 8) \<and>
   f1_of_means (Some (2 / 3)) (Some (5 / 8)) = Some (20 / 31) \<and>
   quotient64 (class_tp64 count_pred count_gold 0) (class_fp64 count_pred count_gold 0) =
     guarded_quotient (class_tp count_pred count_gold 0) (class_fp count_pred count_gold 0) \<and>
   guarded_quotient (class_tp count_pred count_gold 0) (class_fp count_pred count_gold 0) = 1 / 3 \<and>
   quotient64 (class_tp64 count_pred count_gold 1) (class_fn64 count_pred count_gold 1) =
     guarded_quotient (class_tp count_pred count_gold 1) (class_fn count_pred count_gold 1) \<and>
   guarded_quotient (class_tp count_pred count_gold 1) (class_fn count_pred count_gold 1) = 1 / 4"
proof -
  note t = macro_f1_from_macro_means [OF count_shapes(1-4), of two_class_ids]
  note macro = conjunct1 [OF t]
  note exact = conjunct1 [OF conjunct2 [OF conjunct2 [OF t]]]
  have n: "0 < ncols count_pred" "1 < ncols count_pred" by (simp_all add: count_pred_def)
  have all: "\<forall>j < ncols count_pred.
         quotient64 (class_tp64 count_pred count_gold j) (class_fp64 count_pred count_gold j) =
           guarded_quotient (class_tp count_pred count_gold j) (class_fp count_pred count_gold j) \<and>
         quotient64 (class_tp64 count_pred count_gold j) (class_fn64 count_pred count_gold j) =
           guarded_quotient (class_tp count_pred count_gold j) (class_fn count_pred count_gold j)"
    using exact count_shapes(5,6) count_fits by blast
  have e0: "quotient64 (class_tp64 count_pred count_gold 0) (class_fp64 count_pred count_gold 0) =
     guarded_quotient (class_tp count_pred count_gold 0) (class_fp count_pred count_gold 0)"
    using all n(1) by blast
  have e1: "quotient64 (class_tp64 count_pred count_gold 1) (class_fn64 count_pred count_gold 1) =
     guarded_quotient (class_tp count_pred count_gold 1) (class_fn count_pred count_gold 1)"
    using all n(2) by blast
  have v: "guarded_quotient (class_tp count_pred count_gold 0) (class_fp count_pred count_gold 0) = 1 / 3"
    "guarded_quotient (class_tp count_pred count_gold 1) (class_fn count_pred count_gold 1) = 1 / 4"
    by (simp_all add: guarded_quotient_def guarded_div_def class_tp_def class_fp_def class_fn_def cell_def
        count_pred_def count_gold_def sum_two)
  have f: "f1_of_means (Some (2 / 3)) (Some (5 / 8)) = Some (20 / 31)"
    by (simp add: f1_of_means_def f1_value_def guarded_div_def)
  have means: "mean_value (map (\<lambda>j. quotient64 (class_tp64 count_pred count_gold j) (class_fp64 count_pred count_gold j))
                   [0..<ncols count_pred]) = Some (2 / 3) \<and>
     mean_value (map (\<lambda>j. quotient64 (class_tp64 count_pred count_gold j) (class_fn64 count_pred count_gold j))
                   [0..<ncols count_pred]) = Some (5 / 8)"
    using macro unfolding count_report_macro by simp
  show ?thesis
    using count_shapes count_fits means f e0 e1 v by blast
qed

subsection \<open>The binarised per-class report\<close>

text \<open>
  Claim C2 says that \<open>report_bin\<close> returns the report of the binarised matrices.
  \<open>report_bin\<close> calls \<open>report\<close> without the dictionary \<open>code_id_dict\<close>, so
  it raises \<open>TypeError\<close> on every input, while \<open>report\<close> on the binarised
  matrices (and a dictionary) returns a report.
\<close>

theorem report_bin_raises:
  "report_bin pred gold = Inl TypeError \<and>
   np_unary positive count_pred = \<lparr>nrows = 2, ncols = 2, elems = [[1, 0], [1, 1]]\<rparr> \<and>
   np_unary positive count_gold = \<lparr>nrows = 2, ncols = 2, elems = [[1, 1], [0, 1]]\<rparr> \<and>
   report_bin count_pred count_gold = Inl TypeError \<and>
   report (np_unary positive count_pred) (np_unary positive count_gold) two_class_ids =
     Inr [\<lparr>Precision = Some (1 / 2), Recall = Some 1, F1 = Some (2 / 3), Support = 1, Code = ''a''\<rparr>,
          \<lparr>Precision = Some 1, Recall = Some (1 / 2), F1 = Some (2 / 3), Support = 2, Code = ''b''\<rparr>]"
proof -
  have "report_bin p g = Inl TypeError" for p g
    by (simp add: report_bin_def report_called_without_code_id_dict_def Let_def)
  moreover have "report (np_unary positive count_pred) (np_unary positive count_gold) two_class_ids =
     Inr [\<lparr>Precision = Some (1 / 2), Recall = Some 1, F1 = Some (2 / 3), Support = 1, Code = ''a''\<rparr>,
          \<lparr>Precision = Some 1, Recall = Some (1 / 2), F1 = Some (2 / 3), Support = 2, Code = ''b''\<rparr>]"
    by (simp add: count_pred_def count_gold_def two_class_ids_def eval_defs)
  moreover have "np_unary positive count_pred = \<lparr>nrows = 2, ncols = 2, elems = [[1, 0], [1, 1]]\<rparr>"
    "np_unary positive count_gold = \<lparr>nrows = 2, ncols = 2, elems = [[1, 1], [0, 1]]\<rparr>"
    by (simp_all add: count_pred_def count_gold_def np_unary_def positive_def)
  ultimately show ?thesis by simp
qed

section \<open>Properties of the projection\<close>

text \<open>
  Claim C3 says that the leaf-level component is the prediction matrix times the
  diagonal matrix of the row sums of \<open>layer_matrices[0]\<close>. For the sparse matrix that
  \<open>setup_matrices_by_layer\<close> returns, the row sums form a 2-D column, of which
  \<open>np.diag\<close> takes the main diagonal: the filter is the 1-D array of the first row
  sum only, and the leaf-level component is the prediction matrix times that one number.
  For \<open>shallow_matrix\<close> the row sums are 1 and 0; the leaf-level component of the
  document \<open>[1, 1]\<close> is \<open>[1, 1]\<close>, where the diagonal matrix gives \<open>[1, 0]\<close>.
\<close>

theorem leaf_component_not_diagonal:
  "setup_matrices_by_layer (\<lambda>s. s) shallow_code_ids shallow_ontology 1 False =
     Inr ([shallow_matrix], [[(''a'', 0), (''b'', 1)]]) \<and>
   csr_sum_axis1 shallow_matrix = [1, 0] \<and>
   low_level_diagonal shallow_matrix = [1] \<and>
   hierarchical_eval_setup leaf_counts leaf_counts [shallow_matrix] 1 =
     Inr (\<lparr>nrows = 1, ncols = 4, elems = [[1, 1, 1, 0]]\<rparr>,
          \<lparr>nrows = 1, ncols = 4, elems = [[1, 1, 1, 0]]\<rparr>) \<and>
   diagonal_filtered leaf_counts shallow_matrix = [[1, 0]] \<and>
   map (take 2) [[1, 1, 1, 0 :: int64]] \<noteq> [[1, 0]]"
proof -
  have sh: "shape shallow_matrix = (2, 2)" and co: "coo shallow_matrix = [(0, 0, 1), (1, 1, 0)]"
    and bo: "boolean shallow_matrix"
    by (simp_all add: shallow_matrix_def)
  have at: "csr_at shallow_matrix 0 0 = 1" "csr_at shallow_matrix 0 (Suc 0) = 0"
    "csr_at shallow_matrix (Suc 0) 0 = 0" "csr_at shallow_matrix (Suc 0) (Suc 0) = 0"
    by (simp_all add: csr_at_def csr_values_at_def co bo)
  have s: "csr_sum_axis1 shallow_matrix = [1, 0]"
    by (simp add: csr_sum_axis1_def csr_row_sum_def sh at upt_two)
  have l: "low_level_diagonal shallow_matrix = [1]"
    by (simp add: low_level_diagonal_def s np_diag_of_column_def)
  have h: "hierarchical_eval_setup leaf_counts leaf_counts [shallow_matrix] 1 =
     Inr (\<lparr>nrows = 1, ncols = 4, elems = [[1, 1, 1, 0]]\<rparr>,
          \<lparr>nrows = 1, ncols = 4, elems = [[1, 1, 1, 0]]\<rparr>)"
    by (simp add: hierarchical_eval_setup_def l sh at list_get_def np_multiply_1d_def np_binary_def
        broadcast_dim_def broadcast_to_def leaf_counts_def csr_rmul_def np_concatenate1_def
        upt_two replicate_two Let_def)
  have d: "diagonal_filtered leaf_counts shallow_matrix = [[1, 0]]"
    by (simp add: diagonal_filtered_def s leaf_counts_def)
  have m: "setup_matrices_by_layer (\<lambda>s. s) shallow_code_ids shallow_ontology 1 False =
     Inr ([shallow_matrix], [[(''a'', 0), (''b'', 1)]])"
    using shallow_setup by (simp add: shallow_matrix_def)
  show ?thesis using m s l h d by simp
qed

end
